(* ===== verification/Xata_Prelude.thy ===== *)
theory Xata_Prelude
  imports Main
begin

text \<open>
  Shared vocabulary of the development.

  Rows of a relational table are kept in a list in insertion order.  The section on tables gives
  the statement forms the stores use (\<open>SELECT ... WHERE\<close> reading one row, \<open>COUNT\<close>,
  \<open>UPDATE ... WHERE\<close>, \<open>DELETE ... WHERE\<close>) with the facts about them that every component
  reuses; they are collected in \<open>table_simps\<close>.  The collections \<open>go_defs\<close> (definitions of
  the command combinators), \<open>quiet_intros\<close>, \<open>tx_intros\<close> and \<open>confined_intros\<close> (syntax-directed
  rules for the judgements on commands) and \<open>calm_simps\<close> (what a command does when nothing breaks) are filled
  by the theory of the SQL layer.
\<close>

named_theorems table_simps
named_theorems go_defs
named_theorems quiet_intros
named_theorems tx_intros
named_theorems confined_intros
named_theorems calm_simps

section \<open>Tables as lists of rows\<close>

text \<open>\<open>UPDATE t SET f WHERE p\<close>, \<open>DELETE FROM t WHERE p\<close>, \<open>SELECT COUNT(*) FROM t WHERE p\<close>.\<close>

definition update_where :: "('r \<Rightarrow> bool) \<Rightarrow> ('r \<Rightarrow> 'r) \<Rightarrow> 'r list \<Rightarrow> 'r list" where
  "update_where p f t = map (\<lambda>r. if p r then f r else r) t"

definition delete_where :: "('r \<Rightarrow> bool) \<Rightarrow> 'r list \<Rightarrow> 'r list" where
  "delete_where p t = filter (\<lambda>r. \<not> p r) t"

definition count_where :: "('r \<Rightarrow> bool) \<Rightarrow> 'r list \<Rightarrow> nat" where
  "count_where p t = length (filter p t)"

text \<open>\<open>unique_on k p t\<close>: the unique index on column list \<open>k\<close> with predicate \<open>p\<close>.\<close>

definition unique_on :: "('r \<Rightarrow> 'k) \<Rightarrow> ('r \<Rightarrow> bool) \<Rightarrow> 'r list \<Rightarrow> bool" where
  "unique_on k p t = distinct (map k (filter p t))"

lemma set_delete_where [table_simps]: "set (delete_where p t) = {r \<in> set t. \<not> p r}"
  by (simp add: delete_where_def)

lemma set_update_where [table_simps]:
  "set (update_where p f t) = (\<lambda>r. if p r then f r else r) ` set t"
  by (simp add: update_where_def)

lemma ball_update_where [table_simps]:
  "(\<forall>r\<in>set (update_where p f t). q r) \<longleftrightarrow> (\<forall>r\<in>set t. q (if p r then f r else r))"
  by (simp only: update_where_def list.set_map ball_simps)

lemma bex_update_where [table_simps]:
  "(\<exists>r\<in>set (update_where p f t). q r) \<longleftrightarrow> (\<exists>r\<in>set t. q (if p r then f r else r))"
  by (simp only: update_where_def list.set_map bex_simps)

lemma update_where_Nil_iff [simp]: "update_where p f t = [] \<longleftrightarrow> t = []"
  by (simp add: update_where_def)

lemma map_update_where:
  assumes "\<And>r. p r \<Longrightarrow> k (f r) = k r"
  shows "map k (update_where p f t) = map k t"
  using assms by (simp add: update_where_def)

lemma keys_update_where:
  assumes "\<And>r. p r \<Longrightarrow> k (f r) = k r"
  shows "k ` set (update_where p f t) = k ` set t"
  using map_update_where[of p k f t, OF assms] by (metis list.set_map)

lemma count_where_append [simp]: "count_where p (t @ u) = count_where p t + count_where p u"
  by (simp add: count_where_def)

lemma count_where_Nil [simp]: "count_where p [] = 0"
  by (simp add: count_where_def)

lemma count_where_Cons [simp]:
  "count_where p (r # t) = (if p r then Suc (count_where p t) else count_where p t)"
  by (simp add: count_where_def)

lemma count_where_0_iff: "count_where p t = 0 \<longleftrightarrow> (\<forall>r\<in>set t. \<not> p r)"
  by (auto simp: count_where_def filter_empty_conv)

lemma delete_where_none: "count_where p t = 0 \<Longrightarrow> delete_where p t = t"
  by (simp add: count_where_0_iff delete_where_def)

lemma update_where_none: "filter p t = [] \<Longrightarrow> update_where p f t = t"
  by (induction t) (auto simp: update_where_def split: if_splits)

lemma count_where_delete_le: "count_where p (delete_where q t) \<le> count_where p t"
  by (induction t) (auto simp: delete_where_def)

lemma count_where_update_le:
  assumes "\<And>r. q r \<Longrightarrow> p (f r) \<Longrightarrow> p r"
  shows "count_where p (update_where q f t) \<le> count_where p t"
  using assms by (induction t) (auto simp: update_where_def)

lemma count_where_update_eq:
  assumes "\<And>r. q r \<Longrightarrow> p (f r) = p r"
  shows "count_where p (update_where q f t) = count_where p t"
  using assms by (induction t) (auto simp: update_where_def)

lemma count_where_update_off:
  assumes "\<And>x. x \<in> set t \<Longrightarrow> q x \<Longrightarrow> \<not> p (f x)"
  shows "count_where p (update_where q f t) \<le> count_where p t"
  using assms by (induction t) (simp_all add: update_where_def le_SucI)

lemma count_where_update_less:
  assumes "\<And>x. x \<in> set t \<Longrightarrow> q x \<Longrightarrow> \<not> p (f x)" "r \<in> set t" "q r" "p r"
  shows "count_where p (update_where q f t) < count_where p t"
  using assms
proof (induction t)
  case (Cons a t)
  have le: "count_where p (update_where q f t) \<le> count_where p t"
    by (rule count_where_update_off) (use Cons.prems(1) in simp)
  show ?case
  proof (cases "a = r")
    case True
    then show ?thesis using Cons.prems le by (simp add: update_where_def)
  next
    case False
    then show ?thesis using Cons by (auto simp: update_where_def)
  qed
qed simp

lemma unique_on_Nil [simp]: "unique_on k p []"
  by (simp add: unique_on_def)

lemma unique_on_snoc:
  "unique_on k p (t @ [r]) \<longleftrightarrow> unique_on k p t \<and> (p r \<longrightarrow> (\<forall>x\<in>set t. p x \<longrightarrow> k x \<noteq> k r))"
  by (auto simp: unique_on_def image_iff)

lemma unique_on_Cons:
  "unique_on k p (r # t) \<longleftrightarrow> (p r \<longrightarrow> k r \<notin> k ` set (filter p t)) \<and> unique_on k p t"
  by (simp add: unique_on_def)

lemma unique_on_delete: "unique_on k p t \<Longrightarrow> unique_on k p (delete_where q t)"
  unfolding unique_on_def delete_where_def by (induction t) auto

lemma unique_on_update_mono:
  assumes "unique_on k p t" and "\<And>r. q r \<Longrightarrow> p (f r) \<Longrightarrow> p r \<and> k (f r) = k r"
  shows "unique_on k p (update_where q f t)"
  using assms(1)
proof (induction t)
  case Nil
  then show ?case by (simp add: update_where_def)
next
  case (Cons a t)
  have IH: "unique_on k p (update_where q f t)"
    using Cons by (simp add: unique_on_def split: if_splits)
  have sub: "k ` set (filter p (update_where q f t)) \<subseteq> k ` set (filter p t)"
    using assms(2) by (auto simp: set_update_where image_iff split: if_splits)
  let ?a = "if q a then f a else a"
  have "p ?a \<Longrightarrow> p a \<and> k ?a = k a" using assms(2) by auto
  moreover have "p a \<Longrightarrow> k a \<notin> k ` set (filter p t)"
    using Cons.prems by (simp add: unique_on_def)
  ultimately have "p ?a \<Longrightarrow> k ?a \<notin> k ` set (filter p (update_where q f t))"
    using sub by (metis subsetD)
  moreover have "update_where q f (a # t) = ?a # update_where q f t"
    by (simp add: update_where_def)
  ultimately show ?case
    using IH by (simp only: unique_on_Cons) blast
qed

lemma unique_onD:
  assumes "unique_on k p t" "x \<in> set t" "y \<in> set t" "p x" "p y" "k x = k y"
  shows "x = y"
proof -
  have "inj_on k (set (filter p t))" using assms(1) by (simp add: unique_on_def distinct_map)
  then show ?thesis using assms(2-) by (auto dest: inj_onD)
qed

lemma find_SomeD: "find p t = Some r \<Longrightarrow> r \<in> set t \<and> p r"
  by (induction t) (auto split: if_splits)

lemma find_NoneD: "find p t = None \<Longrightarrow> r \<in> set t \<Longrightarrow> \<not> p r"
  by (simp add: find_None_iff2 find_None_iff)

lemma find_filter: "find p (filter q t) = find (\<lambda>x. q x \<and> p x) t"
  by (induction t) auto

lemma find_append: "find p (t @ u) = (case find p t of None \<Rightarrow> find p u | Some x \<Rightarrow> Some x)"
  by (induction t) auto

lemma find_update_where:
  assumes "\<And>x. q (if p x then f x else x) = q x"
  shows "find q (update_where p f t) = map_option (\<lambda>x. if p x then f x else x) (find q t)"
  by (induction t) (auto simp: update_where_def assms)

lemma find_unique:
  assumes "unique_on k (\<lambda>_. True) t" "r \<in> set t" "p r" "\<And>x. p x \<Longrightarrow> k x = k r"
  shows "find p t = Some r"
proof (cases "find p t")
  case None
  then show ?thesis using assms(2,3) find_NoneD by metis
next
  case (Some x)
  then have "x \<in> set t" "p x" by (auto dest: find_SomeD)
  then have "x = r" using unique_onD[OF assms(1)] assms(2,4) by blast
  with Some show ?thesis by simp
qed

section \<open>Options\<close>

text \<open>SQL \<open>COALESCE(x, y)\<close> and \<open>NULLIF(x, '')\<close> on a nullable text.\<close>

definition coalesce :: "'a option \<Rightarrow> 'a \<Rightarrow> 'a" where
  "coalesce x y = (case x of None \<Rightarrow> y | Some v \<Rightarrow> v)"

definition coalesce_opt :: "'a option \<Rightarrow> 'a option \<Rightarrow> 'a option" where
  "coalesce_opt x y = (case x of None \<Rightarrow> y | Some v \<Rightarrow> Some v)"

definition nullif_empty :: "'a list option \<Rightarrow> 'a list option" where
  "nullif_empty x = (if x = Some [] then None else x)"

lemma coalesce_simps [simp]: "coalesce None y = y" "coalesce (Some v) y = v"
  by (simp_all add: coalesce_def)

lemma coalesce_opt_simps [simp]: "coalesce_opt None y = y" "coalesce_opt (Some v) y = Some v"
  by (simp_all add: coalesce_opt_def)

lemma nullif_empty_idem [simp]: "nullif_empty (nullif_empty x) = nullif_empty x"
  by (simp add: nullif_empty_def)

end
