(* ===== verification/Go_Num.thy ===== *)
theory Go_Num
  imports Xata_Prelude Complex_Main "HOL-Library.Log_Nat"
begin

text \<open>
  The numeric part of the Go language and of its standard library that the services use:
  truncated integer division, IEEE-754 binary64 arithmetic in round-to-nearest-even (values are
  the rationals a \<open>float64\<close> denotes; no operation of the services leaves the normal range),
  \<open>strconv.ParseInt(s, 10, 64)\<close>, decimal formatting, and \<open>time.Duration.Minutes\<close>.

  The locale \<open>rounding\<close> states what the clients need of binary64 rounding; it is interpreted on
  \<open>fl64\<close>, the executable rounding function.
\<close>

section \<open>64-bit integers and truncated division\<close>

definition int64_min :: int where "int64_min = - (2 ^ 63)"
definition int64_max :: int where "int64_max = 2 ^ 63 - 1"

definition in_int64 :: "int \<Rightarrow> bool" where
  "in_int64 i \<longleftrightarrow> int64_min \<le> i \<and> i \<le> int64_max"

definition in_int32 :: "int \<Rightarrow> bool" where
  "in_int32 i \<longleftrightarrow> - (2 ^ 31) \<le> i \<and> i < 2 ^ 31"

text \<open>Go's \<open>/\<close> and \<open>%\<close> truncate towards zero.\<close>

definition quot_go :: "int \<Rightarrow> int \<Rightarrow> int" where
  "quot_go a b = sgn a * sgn b * (\<bar>a\<bar> div \<bar>b\<bar>)"

definition rem_go :: "int \<Rightarrow> int \<Rightarrow> int" where
  "rem_go a b = a - b * quot_go a b"

lemma quot_go_nonneg: "0 \<le> a \<Longrightarrow> 0 < b \<Longrightarrow> quot_go a b = a div b"
  by (cases "a = 0") (auto simp: quot_go_def)

lemma rem_go_nonneg: "0 \<le> a \<Longrightarrow> 0 < b \<Longrightarrow> rem_go a b = a mod b"
  by (simp add: rem_go_def quot_go_nonneg minus_mult_div_eq_mod)

text \<open>The conversion \<open>int64(f)\<close> of a float truncates towards zero.\<close>

definition trunc_rat :: "rat \<Rightarrow> int" where
  "trunc_rat x = (if x < 0 then - \<lfloor>- x\<rfloor> else \<lfloor>x\<rfloor>)"

lemma trunc_rat_of_int [simp]: "trunc_rat (of_int i) = i"
  by (simp add: trunc_rat_def)

section \<open>Rounding to binary64\<close>

text \<open>Round half to even.\<close>

definition rne :: "rat \<Rightarrow> int" where
  "rne x = (let f = \<lfloor>x\<rfloor>; r = x - of_int f in
     if r < 1/2 then f else if 1/2 < r then f + 1 else if even f then f else f + 1)"

lemma rne_of_int [simp]: "rne (of_int i) = i"
  by (simp add: rne_def)

lemma rne_bounds: "\<lfloor>x\<rfloor> \<le> rne x" "rne x \<le> \<lfloor>x\<rfloor> + 1"
  by (auto simp: rne_def Let_def)

lemma rne_mono:
  assumes "x \<le> y"
  shows "rne x \<le> rne y"
proof (cases "\<lfloor>x\<rfloor> = \<lfloor>y\<rfloor>")
  case True
  then show ?thesis using assms by (auto simp: rne_def Let_def)
next
  case False
  then have "\<lfloor>x\<rfloor> + 1 \<le> \<lfloor>y\<rfloor>" using floor_mono[OF assms] by linarith
  then show ?thesis using rne_bounds[of x] rne_bounds[of y] by linarith
qed

lemma rne_le_of_int: "x \<le> of_int i \<Longrightarrow> rne x \<le> i"
  using rne_mono[of x "of_int i"] by simp

lemma rne_ge_of_int: "of_int i \<le> x \<Longrightarrow> i \<le> rne x"
  using rne_mono[of "of_int i" x] by simp

text \<open>The binary exponent of a positive rational.\<close>

definition ilog2 :: "rat \<Rightarrow> int" where
  "ilog2 x = (let (n, d) = quotient_of x; k = bitlen n - bitlen d in
     if 2 powi k \<le> x then k else k - 1)"

lemma powi_add_nat: "(2::rat) powi (a + int n) = 2 powi a * 2 ^ n"
  by (simp add: power_int_add)

lemma powi_mono: "a \<le> b \<Longrightarrow> (2::rat) powi a \<le> 2 powi b"
  by (rule power_int_increasing) auto

lemma powi_less_cancel: "(2::rat) powi a < 2 powi b \<Longrightarrow> a < b"
  using powi_mono[of b a] by (meson linorder_not_less)

lemma ilog2_bounds:
  assumes "0 < x"
  shows "2 powi ilog2 x \<le> x \<and> x < 2 powi (ilog2 x + 1)"
proof -
  obtain n d where q: "quotient_of x = (n, d)" by fastforce
  have d: "0 < d" using q by (rule quotient_of_denom_pos)
  have x: "x = of_int n / of_int d" using q by (rule quotient_of_div)
  have n: "0 < n" using assms d x by (simp add: zero_less_divide_iff)
  let ?k = "bitlen n - bitlen d"
  have bl: "0 < bitlen n" "0 < bitlen d" 
    using n d bitlen_nonneg[of n] bitlen_nonneg[of d] bitlen_eq_zero_iff[of n] bitlen_eq_zero_iff[of d]
    by linarith+
  have n1: "2 ^ nat (bitlen n - 1) \<le> n" and n2: "n < 2 ^ nat (bitlen n)"
    using bitlen_bounds[OF n] by auto
  have d1: "2 ^ nat (bitlen d - 1) \<le> d" and d2: "d < 2 ^ nat (bitlen d)"
    using bitlen_bounds[OF d] by auto
  have pw: "(2::rat) powi i = 2 ^ nat i" if "0 \<le> i" for i
    using that by (simp add: power_int_def)
  have N1: "2 powi (bitlen n - 1) \<le> (of_int n :: rat)"
    using n1 bl pw[of "bitlen n - 1"] by (metis of_int_le_iff of_int_numeral of_int_power zle_diff1_eq)
  have N2: "(of_int n :: rat) < 2 powi bitlen n"
    using n2 bl pw[of "bitlen n"] by (metis less_le of_int_less_iff of_int_numeral of_int_power)
  have D1: "2 powi (bitlen d - 1) \<le> (of_int d :: rat)"
    using d1 bl pw[of "bitlen d - 1"] by (metis of_int_le_iff of_int_numeral of_int_power zle_diff1_eq)
  have D2: "(of_int d :: rat) < 2 powi bitlen d"
    using d2 bl pw[of "bitlen d"] by (metis less_le of_int_less_iff of_int_numeral of_int_power)
  have low: "2 powi (?k - 1) \<le> x"
  proof -
    have "(2::rat) powi (?k - 1) * of_int d \<le> 2 powi (?k - 1) * 2 powi bitlen d"
      using D2 by (intro mult_left_mono) auto
    also have "\<dots> = 2 powi (bitlen n - 1)" by (simp flip: power_int_add)
    finally show ?thesis using N1 d by (simp add: x pos_le_divide_eq)
  qed
  have high: "x < 2 powi (?k + 1)"
  proof -
    have "(2::rat) powi (?k + 1) * 2 powi (bitlen d - 1) \<le> 2 powi (?k + 1) * of_int d"
      using D1 by (intro mult_left_mono) auto
    moreover have "(2::rat) powi (?k + 1) * 2 powi (bitlen d - 1) = 2 powi bitlen n"
      by (simp flip: power_int_add)
    ultimately have "of_int n < (2::rat) powi (?k + 1) * of_int d" using N2 by linarith
    then show ?thesis using d by (simp add: x pos_divide_less_eq)
  qed
  show ?thesis using low high by (auto simp: ilog2_def q Let_def)
qed

definition fl64_pos :: "rat \<Rightarrow> rat" where
  "fl64_pos x = (let u = 2 powi (ilog2 x - 52) in of_int (rne (x / u)) * u)"

definition fl64 :: "rat \<Rightarrow> rat" where
  "fl64 x = (if x = 0 then 0 else if x < 0 then - fl64_pos (- x) else fl64_pos x)"

lemma fl64_pos_lower:
  assumes "0 < x"
  shows "2 powi ilog2 x \<le> fl64_pos x"
proof -
  let ?u = "(2::rat) powi (ilog2 x - 52)"
  have e: "2 powi ilog2 x = of_int (2 ^ 52) * ?u"
    using powi_add_nat[of "ilog2 x - 52" 52] by (simp add: mult.commute)
  then have "of_int (2 ^ 52) \<le> x / ?u"
    using ilog2_bounds[OF assms] by (simp only: pos_le_divide_eq zero_less_power_int zero_less_numeral)
  then have "2 ^ 52 \<le> rne (x / ?u)" by (rule rne_ge_of_int)
  then have "of_int (2 ^ 52) \<le> (of_int (rne (x / ?u)) :: rat)" by (simp only: of_int_le_iff)
  then have "of_int (2 ^ 52) * ?u \<le> of_int (rne (x / ?u)) * ?u"
    by (rule mult_right_mono) (rule zero_le_power_int, simp)
  then show ?thesis by (simp only: e fl64_pos_def Let_def)
qed

lemma fl64_pos_upper:
  assumes "0 < x"
  shows "fl64_pos x \<le> 2 powi (ilog2 x + 1)"
proof -
  let ?u = "(2::rat) powi (ilog2 x - 52)"
  have e: "2 powi (ilog2 x + 1) = of_int (2 ^ 53) * ?u"
    using powi_add_nat[of "ilog2 x - 52" 53] by (simp add: mult.commute add.commute)
  then have "x / ?u \<le> of_int (2 ^ 53)"
    using ilog2_bounds[OF assms] less_imp_le
    by (simp only: pos_divide_le_eq zero_less_power_int zero_less_numeral) blast
  then have "rne (x / ?u) \<le> 2 ^ 53" by (rule rne_le_of_int)
  then have "(of_int (rne (x / ?u)) :: rat) \<le> of_int (2 ^ 53)" by (simp only: of_int_le_iff)
  then have "of_int (rne (x / ?u)) * ?u \<le> of_int (2 ^ 53) * ?u"
    by (rule mult_right_mono) (rule zero_le_power_int, simp)
  then show ?thesis by (simp only: e fl64_pos_def Let_def)
qed

lemma fl64_pos_pos: "0 < x \<Longrightarrow> 0 < fl64_pos x"
  using fl64_pos_lower[of x] by (meson less_le_trans zero_less_numeral zero_less_power_int)

lemma fl64_pos_mono:
  assumes "0 < x" "x \<le> y"
  shows "fl64_pos x \<le> fl64_pos y"
proof -
  have y: "0 < y" using assms by linarith
  have "(2::rat) powi ilog2 x < 2 powi (ilog2 y + 1)"
    using ilog2_bounds[OF assms(1)] ilog2_bounds[OF y] assms(2) by linarith
  then have le: "ilog2 x \<le> ilog2 y" using powi_less_cancel by fastforce
  show ?thesis
  proof (cases "ilog2 x = ilog2 y")
    case True
    then show ?thesis using assms(2)
      by (auto simp: fl64_pos_def Let_def intro!: mult_right_mono rne_mono divide_right_mono)
  next
    case False
    then have "(2::rat) powi (ilog2 x + 1) \<le> 2 powi ilog2 y" using le by (intro powi_mono) auto
    then show ?thesis using fl64_pos_upper[OF assms(1)] fl64_pos_lower[OF y] by linarith
  qed
qed

lemma fl64_mono: "x \<le> y \<Longrightarrow> fl64 x \<le> fl64 y"
  using fl64_pos_mono[of x y] fl64_pos_mono[of "- y" "- x"] fl64_pos_pos[of x] fl64_pos_pos[of y]
    fl64_pos_pos[of "- x"] fl64_pos_pos[of "- y"]
  by (auto simp: fl64_def)

text \<open>A dyadic rational with at most 53 significant bits is a \<open>float64\<close>.\<close>

lemma fl64_pos_dyadic:
  assumes "0 < k" "k < 2 ^ 53"
  shows "fl64_pos (of_int k / 2 ^ j) = of_int k / 2 ^ j"
proof -
  let ?x = "of_int k / 2 ^ j :: rat" and ?e = "ilog2 (of_int k / 2 ^ j)"
  have x: "0 < ?x" using assms by simp
  have "(of_int k :: rat) < of_int (2 ^ 53)" using assms(2) by (simp only: of_int_less_iff)
  then have "?x < of_int (2 ^ 53) / 2 ^ j" by (rule divide_strict_right_mono) simp
  also have "\<dots> = (2::rat) powi (53 - int j)" by (simp add: power_int_diff)
  finally have "(2::rat) powi ?e < 2 powi (53 - int j)" using ilog2_bounds[OF x] by linarith
  then have "?e < 53 - int j" by (rule powi_less_cancel)
  then obtain m where m: "52 - ?e = int j + int m"
    using zle_iff_zadd[of "int j" "52 - ?e"] by auto
  have "(2::rat) powi (?e - 52) = inverse (2 ^ j * 2 ^ m)"
    using m by (metis minus_diff_eq of_nat_add power_add power_int_minus power_int_of_nat)
  then have "?x / 2 powi (?e - 52) = of_int (k * 2 ^ m)" by (simp add: field_simps)
  then have "of_int (rne (?x / 2 powi (?e - 52))) = ?x / 2 powi (?e - 52)" by (metis rne_of_int)
  then show ?thesis by (simp add: fl64_pos_def Let_def)
qed

lemma fl64_dyadic: "\<bar>k\<bar> < 2 ^ 53 \<Longrightarrow> fl64 (of_int k / 2 ^ j) = of_int k / 2 ^ j"
  using fl64_pos_dyadic[of k j] fl64_pos_dyadic[of "- k" j]
  by (auto simp: fl64_def zero_less_divide_iff divide_less_0_iff abs_less_iff)

section \<open>What the clients rely on\<close>

locale rounding =
  fixes fl :: "rat \<Rightarrow> rat"
  assumes fl_mono: "x \<le> y \<Longrightarrow> fl x \<le> fl y"
    and fl_dyadic: "\<bar>k\<bar> < 2 ^ 53 \<Longrightarrow> fl (of_int k / 2 ^ j) = of_int k / 2 ^ j"
begin

lemma fl_of_int: "\<bar>k\<bar> < 2 ^ 53 \<Longrightarrow> fl (of_int k) = of_int k"
  using fl_dyadic[of k 0] by simp

lemma fl_0: "fl 0 = 0"
  using fl_of_int[of 0] by simp

lemma fl_nonneg: "0 \<le> x \<Longrightarrow> 0 \<le> fl x"
  using fl_mono[of 0 x] fl_0 by simp

end

interpretation fl64: rounding fl64
  by unfold_locales (auto intro: fl64_mono fl64_dyadic)

section \<open>time.Duration\<close>

text \<open>Durations are nanoseconds.  \<open>Minutes\<close> is \<open>float64(d/Minute) + float64(d%Minute)/(60*1e9)\<close>.\<close>

abbreviation second_ns :: int where "second_ns \<equiv> 1000000000"
abbreviation minute_ns :: int where "minute_ns \<equiv> 60000000000"
abbreviation hour_ns :: int where "hour_ns \<equiv> 3600000000000"

definition Minutes :: "int \<Rightarrow> rat" where
  "Minutes d = fl64 (fl64 (of_int (quot_go d minute_ns)) +
     fl64 (fl64 (of_int (rem_go d minute_ns)) / 60000000000))"

lemma Minutes_whole:
  assumes "0 \<le> n" "n < 2 ^ 53"
  shows "Minutes (n * minute_ns) = of_int n"
proof -
  have "\<bar>n\<bar> < 2 ^ 53" using assms by simp
  then have "fl64 (of_int n) = of_int n" by (rule fl64.fl_of_int)
  then show ?thesis using assms by (simp add: Minutes_def quot_go_nonneg rem_go_nonneg fl64.fl_0)
qed

text \<open>
  \<open>Seconds\<close> is \<open>float64(d/Second) + float64(d%Second)/1e9\<close>; the product of such a float with
  \<open>interval '1 second'\<close> is a number of microseconds rounded to the nearest integer.
\<close>

definition Seconds :: "int \<Rightarrow> rat" where
  "Seconds d = fl64 (fl64 (of_int (quot_go d second_ns)) +
     fl64 (fl64 (of_int (rem_go d second_ns)) / 1000000000))"

definition interval_us :: "rat \<Rightarrow> int" where
  "interval_us f = rne (fl64 (1000000 * f))"

lemma interval_us_Seconds_whole:
  assumes "0 \<le> n" "n < 2 ^ 33"
  shows "interval_us (Seconds (n * second_ns)) = n * 1000000"
proof -
  have "\<bar>n\<bar> < 2 ^ 53" "\<bar>1000000 * n\<bar> < 2 ^ 53" using assms by simp_all
  then have n: "fl64 (of_int n) = of_int n" and u: "fl64 (of_int (1000000 * n)) = of_int (1000000 * n)"
    by (simp_all only: fl64.fl_of_int)
  have "Seconds (n * second_ns) = of_int n"
    using assms n by (simp add: Seconds_def quot_go_nonneg rem_go_nonneg fl64.fl_0)
  moreover have "1000000 * of_int n = (of_int (1000000 * n) :: rat)" by simp
  ultimately have "interval_us (Seconds (n * second_ns)) = rne (of_int (1000000 * n))"
    unfolding interval_us_def by (simp only: u)
  also have "\<dots> = 1000000 * n" by (rule rne_of_int)
  finally show ?thesis by simp
qed

text \<open>
  Up to \<open>2^16\<close> minutes (45 days) the floating-point comparison \<open>d.Minutes() >= float64(n)\<close> is exact:
  the largest fraction below one minute is \<open>1 - 1/(60e9)\<close>, which lies below the \<open>float64\<close>
  \<open>1 - 2^-36\<close>, and adding a whole number of minutes stays on the \<open>2^-36\<close> grid.
\<close>

lemma Minutes_ge_iff:
  assumes d: "0 \<le> d" "d < 2 ^ 63" and n: "0 \<le> n" "n \<le> 2 ^ 16"
  shows "Minutes d \<ge> of_int n \<longleftrightarrow> n * minute_ns \<le> d"
proof -
  let ?q = "d div minute_ns" and ?r = "d mod minute_ns"
  let ?f = "fl64 (of_int ?r / 60000000000)"
  have q: "0 \<le> ?q" "?q < 2 ^ 53" and r: "0 \<le> ?r" "?r \<le> minute_ns - 1" using d by auto
  have M: "Minutes d = fl64 (of_int ?q + ?f)"
    using d q r by (simp add: Minutes_def quot_go_nonneg rem_go_nonneg fl64.fl_of_int)
  have f0: "0 \<le> ?f" by (rule fl64.fl_nonneg) (use r in simp)
  have iff: "n * minute_ns \<le> d \<longleftrightarrow> n \<le> ?q"
    using div_mult_mod_eq[of d minute_ns] r by linarith
  show ?thesis
  proof (cases "n \<le> ?q")
    case True
    have "fl64 (of_int n) \<le> fl64 (of_int ?q + ?f)"
      by (rule fl64.fl_mono) (use True f0 in \<open>simp add: add_increasing2\<close>)
    then show ?thesis using True iff n M by (simp add: fl64.fl_of_int)
  next
    case False
    let ?p = "of_int (n * 2 ^ 36 - 1) / 2 ^ 36 :: rat"
    have "(of_int ?r :: rat) \<le> of_int (minute_ns - 1)" using r(2) by (simp only: of_int_le_iff)
    then have "of_int ?r / 60000000000 \<le> (of_int (2 ^ 36 - 1) / 2 ^ 36 :: rat)" by simp
    then have "?f \<le> fl64 (of_int (2 ^ 36 - 1) / 2 ^ 36)" by (rule fl64.fl_mono)
    also have "\<dots> = of_int (2 ^ 36 - 1) / 2 ^ 36" by (rule fl64.fl_dyadic) simp
    finally have "?f \<le> of_int (2 ^ 36 - 1) / 2 ^ 36" .
    moreover have "(of_int ?q :: rat) \<le> of_int (n - 1)" using False by (simp only: of_int_le_iff)
    ultimately have "of_int ?q + ?f \<le> ?p" by (simp add: field_simps)
    then have "Minutes d \<le> fl64 ?p" unfolding M by (rule fl64.fl_mono)
    also have "fl64 ?p = ?p" by (rule fl64.fl_dyadic) (use n False q in simp)
    also have "?p < of_int n" by (simp add: field_simps)
    finally show ?thesis using iff False by simp
  qed
qed

section \<open>strconv and fmt\<close>

text \<open>Decimal digits, \<open>strconv.ParseInt(s, 10, 64)\<close> (and \<open>strconv.Atoi\<close>, the same on a 64-bit platform).\<close>

definition digit_val :: "char \<Rightarrow> nat option" where
  "digit_val c = (let n = of_char c :: nat in if 48 \<le> n \<and> n \<le> 57 then Some (n - 48) else None)"

fun parse_digits :: "nat \<Rightarrow> string \<Rightarrow> nat option" where
  "parse_digits acc [] = Some acc"
| "parse_digits acc (c # cs) =
     (case digit_val c of None \<Rightarrow> None | Some v \<Rightarrow> parse_digits (10 * acc + v) cs)"

definition ParseInt :: "string \<Rightarrow> int option" where
  "ParseInt s =
     (let (neg, ds) = (case s of
          [] \<Rightarrow> (False, [])
        | c # cs \<Rightarrow> if c = CHR ''-'' then (True, cs) else if c = CHR ''+'' then (False, cs) else (False, s))
      in if ds = [] then None
         else (case parse_digits 0 ds of
             None \<Rightarrow> None
           | Some n \<Rightarrow> let i = (if neg then - int n else int n) in if in_int64 i then Some i else None))"

text \<open>The same with integers throughout, for evaluation.\<close>

fun parse_digits_int :: "int \<Rightarrow> string \<Rightarrow> int option" where
  "parse_digits_int acc [] = Some acc"
| "parse_digits_int acc (c # cs) =
     (case digit_val c of None \<Rightarrow> None | Some v \<Rightarrow> parse_digits_int (10 * acc + int v) cs)"

lemma parse_digits_int: "parse_digits_int (int acc) s = map_option int (parse_digits acc s)"
  by (induction acc s rule: parse_digits.induct) (auto split: option.splits)

lemma ParseInt_code [code]:
  "ParseInt s =
     (let (neg, ds) = (case s of
          [] \<Rightarrow> (False, [])
        | c # cs \<Rightarrow> if c = CHR ''-'' then (True, cs) else if c = CHR ''+'' then (False, cs) else (False, s))
      in if ds = [] then None
         else (case parse_digits_int 0 ds of
             None \<Rightarrow> None
           | Some n \<Rightarrow> let i = (if neg then - n else n) in if in_int64 i then Some i else None))"
  using parse_digits_int[of 0]
  by (auto simp: ParseInt_def Let_def split: option.splits prod.splits)

text \<open>\<open>fmt\<close>'s \<open>%d\<close>.\<close>

fun show_nat :: "nat \<Rightarrow> string" where
  "show_nat n = (if n < 10 then [char_of (48 + n)] else show_nat (n div 10) @ [char_of (48 + n mod 10)])"

declare show_nat.simps [simp del]

definition show_int :: "int \<Rightarrow> string" where
  "show_int i = (if i < 0 then CHR ''-'' # show_nat (nat (- i)) else show_nat (nat i))"

lemma digit_val_char_of [simp]: "d < 10 \<Longrightarrow> digit_val (char_of (48 + d)) = Some d"
  by (simp add: digit_val_def)

lemma digit_val_sign [simp]: "digit_val CHR ''-'' = None" "digit_val CHR ''+'' = None"
  by (simp_all add: digit_val_def)

lemma parse_digits_append:
  "parse_digits acc (xs @ ys) = Option.bind (parse_digits acc xs) (\<lambda>a. parse_digits a ys)"
  by (induction acc xs rule: parse_digits.induct) (auto split: option.splits)

lemma parse_show_nat [simp]: "parse_digits 0 (show_nat n) = Some n"
proof (induction n rule: show_nat.induct)
  case (1 n)
  then show ?case
    by (subst show_nat.simps) (auto simp: parse_digits_append)
qed

lemma show_nat_nonempty [simp]: "show_nat n \<noteq> []"
  by (subst show_nat.simps) simp

lemma hd_show_nat: "hd (show_nat n) \<noteq> CHR ''-'' \<and> hd (show_nat n) \<noteq> CHR ''+''"
proof (induction n rule: show_nat.induct)
  case (1 n)
  have "char_of (48 + n) \<noteq> CHR ''-'' \<and> char_of (48 + n) \<noteq> CHR ''+''" if "n < 10"
    using digit_val_char_of[OF that] by (metis digit_val_sign option.distinct(1))
  with 1 show ?case by (subst (1 2) show_nat.simps) auto
qed

lemma ParseInt_show_int [simp]: "in_int64 i \<Longrightarrow> ParseInt (show_int i) = Some i"
  using hd_show_nat[of "nat i"] parse_show_nat[of "nat i"]
  by (cases "show_nat (nat i)")
     (auto simp: ParseInt_def show_int_def Let_def simp del: parse_digits.simps)

end
