(* ===== verification/Store_Types.thy ===== *)
theory Store_Types
  imports Go_Num
begin

text \<open>
  The data model of the projects service: \<open>services/projects/store/store.go\<close> and
  \<open>services/projects/store/errors.go\<close>.  Structs are records, pointers to a value are options,
  \<open>time.Time\<close> is an integer number of microseconds, \<open>time.Duration\<close> an integer number of
  nanoseconds.  The error types of the package are the constructors of \<open>goerr\<close>, beside the
  errors of \<open>database/sql\<close> (\<open>ErrSql\<close>), of \<open>fmt.Errorf\<close> without and with \<open>%w\<close>
  (\<open>Errorf\<close>, \<open>Wrap\<close>) and of the callbacks a caller passes in (\<open>ErrCallback\<close>).
\<close>

section \<open>Errors\<close>

text \<open>What \<open>database/sql\<close> and the driver report.\<close>

datatype sqlerr =
    NoRows
  | UniqueViolation string
  | ForeignKeyViolation
  | CheckViolation
  | OutOfRange
  | ConnFailure

datatype goerr =
    ErrRegionAlreadyExists string
  | ErrRegionNotFound string
  | ErrCellAlreadyExists string
  | ErrCellNotFound string
  | ErrProjectNotFound string
  | ErrProjectAlreadyExists string
  | ErrInvalidProjectName string
  | ErrBranchAlreadyExists string
  | ErrBranchNotFound string
  | ErrTooManyRecords int
  | ErrProjectNotEmpty string
  | ErrTooManyBranches string int
  | ErrOrgBranchLimitExceeded string int
  | ErrOrgProjectLimitExceeded string int
  | ErrBranchRateLimitExceeded string int
  | ErrProjectRateLimitExceeded string int
  | ErrProjectBusy string
  | ErrMaxDepthExceeded string int
  | ErrInvalidHierarchy string string
  | ErrGithubInstallationAlreadyExists string int
  | ErrGithubInstallationNotFound string string
  | ErrGithubRepoMappingAlreadyExists string string
  | ErrGithubRepositoryAlreadyMapped int
  | ErrGithubRepoMappingNotFound string string int
  | ErrSql sqlerr
  | Errorf string
  | Wrap string goerr
  | ErrCallback string

text \<open>The \<open>StatusCode\<close> method: only the package's own error types have one.\<close>

fun status_code :: "goerr \<Rightarrow> nat option" where
  "status_code (ErrRegionAlreadyExists _) = Some 409"
| "status_code (ErrRegionNotFound _) = Some 404"
| "status_code (ErrCellAlreadyExists _) = Some 409"
| "status_code (ErrCellNotFound _) = Some 404"
| "status_code (ErrProjectNotFound _) = Some 404"
| "status_code (ErrProjectAlreadyExists _) = Some 409"
| "status_code (ErrInvalidProjectName _) = Some 400"
| "status_code (ErrBranchAlreadyExists _) = Some 409"
| "status_code (ErrBranchNotFound _) = Some 404"
| "status_code (ErrTooManyRecords _) = Some 500"
| "status_code (ErrProjectNotEmpty _) = Some 400"
| "status_code (ErrTooManyBranches _ _) = Some 400"
| "status_code (ErrOrgBranchLimitExceeded _ _) = Some 403"
| "status_code (ErrOrgProjectLimitExceeded _ _) = Some 403"
| "status_code (ErrBranchRateLimitExceeded _ _) = Some 429"
| "status_code (ErrProjectRateLimitExceeded _ _) = Some 429"
| "status_code (ErrProjectBusy _) = Some 429"
| "status_code (ErrMaxDepthExceeded _ _) = Some 400"
| "status_code (ErrInvalidHierarchy _ _) = Some 400"
| "status_code (ErrGithubInstallationAlreadyExists _ _) = Some 409"
| "status_code (ErrGithubInstallationNotFound _ _) = Some 404"
| "status_code (ErrGithubRepoMappingAlreadyExists _ _) = Some 409"
| "status_code (ErrGithubRepositoryAlreadyMapped _) = Some 409"
| "status_code (ErrGithubRepoMappingNotFound _ _ _) = Some 404"
| "status_code (ErrSql _) = None"
| "status_code (Errorf _) = None"
| "status_code (Wrap _ _) = None"
| "status_code (ErrCallback _) = None"

section \<open>Usage tiers and limits\<close>

datatype UsageTier = TierT1 | TierT2

text \<open>\<open>LimitKey\<close> is a string type; the known keys are constants.\<close>

type_synonym LimitKey = string

definition LimitMaxDescriptionLength :: LimitKey where "LimitMaxDescriptionLength = ''max_description_length''"
definition LimitMaxBranchesPerProject :: LimitKey where "LimitMaxBranchesPerProject = ''max_branches_per_project''"
definition LimitMaxInstancesPerBranch :: LimitKey where "LimitMaxInstancesPerBranch = ''max_instances_per_branch''"
definition LimitMinInstancesPerBranch :: LimitKey where "LimitMinInstancesPerBranch = ''min_instances_per_branch''"
definition LimitMaxStorageGBPerBranch :: LimitKey where "LimitMaxStorageGBPerBranch = ''max_storage_gb_per_branch''"
definition LimitMaxAllowedInstanceType :: LimitKey where "LimitMaxAllowedInstanceType = ''max_allowed_instance_type''"
definition LimitMaxBranchesPerHour :: LimitKey where "LimitMaxBranchesPerHour = ''max_branches_per_hour''"
definition LimitMaxBranchesPerOrg :: LimitKey where "LimitMaxBranchesPerOrg = ''max_branches_per_org''"
definition LimitMaxProjects :: LimitKey where "LimitMaxProjects = ''max_projects''"
definition LimitMaxProjectsPerHour :: LimitKey where "LimitMaxProjectsPerHour = ''max_projects_per_hour''"

lemmas limit_key_defs =
  LimitMaxDescriptionLength_def LimitMaxBranchesPerProject_def LimitMaxInstancesPerBranch_def
  LimitMinInstancesPerBranch_def LimitMaxStorageGBPerBranch_def LimitMaxAllowedInstanceType_def
  LimitMaxBranchesPerHour_def LimitMaxBranchesPerOrg_def LimitMaxProjects_def
  LimitMaxProjectsPerHour_def

definition IsValid :: "LimitKey \<Rightarrow> bool" where
  "IsValid k \<longleftrightarrow> k \<in> set [LimitMaxDescriptionLength, LimitMaxBranchesPerProject, LimitMaxBranchesPerOrg,
     LimitMaxInstancesPerBranch, LimitMinInstancesPerBranch, LimitMaxStorageGBPerBranch,
     LimitMaxAllowedInstanceType, LimitMaxBranchesPerHour, LimitMaxProjects, LimitMaxProjectsPerHour]"

definition DefaultMaxDescriptionLength :: int where "DefaultMaxDescriptionLength = 255"

fun tierDefaults :: "UsageTier \<Rightarrow> LimitKey \<rightharpoonup> int" where
  "tierDefaults TierT1 = map_of
     [(LimitMaxDescriptionLength, DefaultMaxDescriptionLength),
      (LimitMaxBranchesPerProject, 200),
      (LimitMaxBranchesPerOrg, 200),
      (LimitMaxInstancesPerBranch, 5),
      (LimitMinInstancesPerBranch, 1),
      (LimitMaxBranchesPerHour, 100),
      (LimitMaxProjects, 10),
      (LimitMaxProjectsPerHour, 5),
      (LimitMaxAllowedInstanceType, 2000),
      (LimitMaxStorageGBPerBranch, 250)]"
| "tierDefaults TierT2 = map_of
     [(LimitMaxDescriptionLength, DefaultMaxDescriptionLength),
      (LimitMaxBranchesPerProject, 1000),
      (LimitMaxBranchesPerOrg, 1000),
      (LimitMaxInstancesPerBranch, 5),
      (LimitMinInstancesPerBranch, 1),
      (LimitMaxBranchesPerHour, 100),
      (LimitMaxProjects, 100),
      (LimitMaxProjectsPerHour, 20),
      (LimitMaxAllowedInstanceType, 32000),
      (LimitMaxStorageGBPerBranch, 5000)]"

definition ParseUsageTier :: "string \<Rightarrow> UsageTier \<times> bool" where
  "ParseUsageTier s = (if s = ''t1'' then (TierT1, True) else if s = ''t2'' then (TierT2, True)
     else (TierT1, False))"

definition TierDefaultInt :: "UsageTier \<Rightarrow> LimitKey \<Rightarrow> int \<Rightarrow> int" where
  "TierDefaultInt tier key fallback = (case tierDefaults tier key of Some v \<Rightarrow> v | None \<Rightarrow> fallback)"

text \<open>
  A decoded limit value.  The decoder runs with \<open>UseNumber\<close>, so a JSON number is a \<open>json.Number\<close>
  holding its text, and every other JSON value has no \<open>Int64\<close> method.
\<close>

datatype jval = JNumber string | JOther

definition ResolveIntLimit :: "(LimitKey \<rightharpoonup> jval) \<Rightarrow> LimitKey \<Rightarrow> int \<Rightarrow> int" where
  "ResolveIntLimit overrides key def =
     (case overrides key of
        None \<Rightarrow> def
      | Some (JNumber s) \<Rightarrow> (case ParseInt s of Some i \<Rightarrow> i | None \<Rightarrow> def)
      | Some JOther \<Rightarrow> def)"

record OrgLimits =
  MaxBranchesPerOrg :: int
  MaxBranchesPerProject :: int
  MaxBranchesPerHour :: int

section \<open>Projects\<close>

record ScaleToZero =
  s2z_Enabled :: bool
  s2z_InactivityPeriod :: int

record ProjectScaleToZero =
  BaseBranches :: ScaleToZero
  ChildBranches :: ScaleToZero

record CIDREntry =
  cidr_CIDR :: string
  cidr_Description :: string

text \<open>A nil slice and an empty one differ for \<open>GetCIDRs\<close>.\<close>

record IPFiltering =
  ipf_Enabled :: bool
  ipf_CIDRs :: "CIDREntry list option"

record Project =
  p_ID :: string
  p_Name :: string
  p_CreatedAt :: int
  p_UpdatedAt :: int
  p_ScaleToZero :: ProjectScaleToZero
  p_IPFiltering :: IPFiltering

record UpdateProjectConfiguration =
  upc_Name :: "string option"
  upc_ScaleToZero :: "ProjectScaleToZero option"
  upc_IPFiltering :: "IPFiltering option"

record CreateProjectConfiguration =
  cpc_Name :: string
  cpc_ScaleToZero :: ProjectScaleToZero
  cpc_IPFiltering :: IPFiltering
  cpc_UsageTier :: string

definition GetBaseEnabled :: "ProjectScaleToZero option \<Rightarrow> bool option" where
  "GetBaseEnabled s = map_option (\<lambda>s. s2z_Enabled (BaseBranches s)) s"

definition GetChildEnabled :: "ProjectScaleToZero option \<Rightarrow> bool option" where
  "GetChildEnabled s = map_option (\<lambda>s. s2z_Enabled (ChildBranches s)) s"

definition GetBaseInactivityPeriod :: "ProjectScaleToZero option \<Rightarrow> int option" where
  "GetBaseInactivityPeriod s = (case s of None \<Rightarrow> None | Some s \<Rightarrow>
     if s2z_InactivityPeriod (BaseBranches s) = 0 then None
     else Some (s2z_InactivityPeriod (BaseBranches s)))"

definition GetChildInactivityPeriod :: "ProjectScaleToZero option \<Rightarrow> int option" where
  "GetChildInactivityPeriod s = (case s of None \<Rightarrow> None | Some s \<Rightarrow>
     if s2z_InactivityPeriod (ChildBranches s) = 0 then None
     else Some (s2z_InactivityPeriod (ChildBranches s)))"

definition GetEnabled :: "IPFiltering option \<Rightarrow> bool option" where
  "GetEnabled i = map_option ipf_Enabled i"

definition GetCIDRs :: "IPFiltering option \<Rightarrow> CIDREntry list option" where
  "GetCIDRs i = Option.bind i ipf_CIDRs"

definition CIDRStrings :: "IPFiltering option \<Rightarrow> string list" where
  "CIDRStrings i = (case i of None \<Rightarrow> [] | Some i \<Rightarrow>
     (case ipf_CIDRs i of None \<Rightarrow> [] | Some es \<Rightarrow> map cidr_CIDR es))"

text \<open>\<open>InactivityPeriod.Value\<close> stores whole minutes, \<open>Scan\<close> reads them back (int64 arithmetic wraps).\<close>

definition wrap64 :: "int \<Rightarrow> int" where
  "wrap64 i = (i + 2 ^ 63) mod 2 ^ 64 - 2 ^ 63"

definition InactivityPeriod_Value :: "int \<Rightarrow> int" where
  "InactivityPeriod_Value p = trunc_rat (Minutes p)"

definition InactivityPeriod_Scan :: "int \<Rightarrow> int" where
  "InactivityPeriod_Scan minutes = wrap64 (minutes * minute_ns)"

lemma wrap64_id: "in_int64 i \<Longrightarrow> wrap64 i = i"
  by (simp add: wrap64_def in_int64_def int64_min_def int64_max_def)

lemma in_int64_wrap64: "in_int64 (wrap64 i)"
  using pos_mod_bound[of "2 ^ 64" "i + 2 ^ 63"] pos_mod_sign[of "2 ^ 64" "i + 2 ^ 63"]
  by (simp add: wrap64_def in_int64_def int64_min_def int64_max_def)

section \<open>Regions, cells, branches\<close>

datatype Provider = ProviderAWS | ProviderGCP | ProviderAzure | ProviderCustom

definition ParseProvider :: "string \<Rightarrow> goerr + Provider" where
  "ParseProvider s =
     (if s = ''aws'' then Inr ProviderAWS
      else if s = ''gcp'' then Inr ProviderGCP
      else if s = ''azure'' then Inr ProviderAzure
      else if s = ''custom'' then Inr ProviderCustom
      else Inl (Errorf (''unknown provider '' @ s)))"

record RegionFlags =
  flag_PublicAccess :: bool
  flag_BackupsEnabled :: bool
  flag_Provider :: string

record Region =
  rg_ID :: string
  rg_PublicAccess :: bool
  rg_BackupsEnabled :: bool
  rg_Provider :: Provider
  rg_GatewayHostPort :: string
  rg_CreatedAt :: int
  rg_OrganizationID :: "string option"

record Cell =
  cl_ID :: string
  cl_RegionID :: string
  cl_CreatedAt :: int
  cl_ClustersGRPCURL :: string
  cl_Subdomain :: "string option"

record Branch =
  b_ID :: string
  b_ParentID :: "string option"
  b_Name :: string
  b_Description :: "string option"
  b_CreatedAt :: int
  b_UpdatedAt :: int
  b_Region :: string
  b_PublicAccess :: bool
  b_BackupsEnabled :: bool
  b_Depth :: int
  b_CellID :: string

record UpdateBranchConfiguration =
  ubc_Name :: "string option"
  ubc_Description :: "string option"

record CreateBranchConfiguration =
  cbc_Name :: string
  cbc_ParentID :: "string option"
  cbc_Description :: "string option"
  cbc_BackupRetentionPeriod :: int
  cbc_BackupsEnabled :: bool
  cbc_UsageTier :: string
  cbc_Limits :: "OrgLimits option"
  cbc_ProjectLockHeld :: bool

definition CanAddChild :: "Branch option \<Rightarrow> int \<Rightarrow> goerr + int" where
  "CanAddChild b maxDepth = (case b of
     None \<Rightarrow> Inr 1
   | Some b \<Rightarrow> if b_Depth b \<ge> maxDepth then Inl (ErrMaxDepthExceeded (b_ID b) maxDepth)
               else Inr (b_Depth b + 1))"

text \<open>The \<open>int32\<close> addition of \<open>CanAddChild\<close> cannot wrap: the guard bounds the depth strictly below an \<open>int32\<close>.\<close>

lemma CanAddChild_int32:
  assumes "in_int32 maxDepth" "\<And>p. b = Some p \<Longrightarrow> in_int32 (b_Depth p)" "CanAddChild b maxDepth = Inr d"
  shows "in_int32 d"
  using assms by (auto simp: CanAddChild_def in_int32_def split: option.splits if_splits)

section \<open>GitHub links and organization statuses\<close>

record GithubInstallation =
  gi_ID :: string
  gi_InstallationID :: int
  gi_Organization :: string
  gi_CreatedAt :: int
  gi_UpdatedAt :: int

record GithubRepoMapping =
  gm_ID :: string
  gm_GithubRepositoryID :: int
  gm_Project :: string
  gm_RootBranchID :: string
  gm_CreatedAt :: int
  gm_UpdatedAt :: int

record OrganizationStatus =
  os_OrganizationID :: string
  os_Disabled :: bool
  os_Version :: int
  os_UpdatedAt :: int
  os_SyncedAt :: "int option"
  os_Attempts :: int
  os_NextRetryAt :: int
  os_LastError :: string
  os_LeaseUntil :: "int option"

end
