(* ===== verification/Sql_Layer.thy ===== *)
theory Sql_Layer
  imports Store_Types
begin

text \<open>
  The part of \<open>database/sql\<close> the stores use, as a command type: a command runs in a session and
  returns an error or a value together with the session it leaves.  A session holds the committed
  database, the working copy of the open transaction, the clock that \<open>NOW()\<close> reads, the project
  locks another session holds exclusively, the state of the world the callbacks act on, and a schedule
  of faults.  Each statement consumes one entry of the schedule: \<open>ReqLost\<close> makes it fail without
  effect (a lost connection, a cancelled context, a statement the server refuses), \<open>ReplyLost\<close> makes
  the caller see an error although a statement outside a transaction, or a commit, took effect, and
  \<open>RowsCut n\<close> breaks the stream of rows of a query after \<open>n\<close> rows (any other statement fails
  without effect).  An error of the server or the connection ends the open transaction, and every later
  statement of it fails; \<open>sql.ErrNoRows\<close> does not.

  Four judgements compose along the structure of a command.  \<open>tx_triple P m Q\<close> is a Hoare triple on
  the working copy of a transaction, as long as it is open; it also says that the committed database is
  untouched.  The
  other three are about commands run outside a transaction: \<open>op_keeps I m\<close> (the committed database
  keeps the invariant \<open>I\<close>), \<open>quiet m\<close> (it is not changed) and \<open>atomic m\<close> (it is not changed when
  the command fails and no reply was lost).  The locale \<open>tx_body\<close> is the contract between the body of
  a transaction, which establishes the invariant on its working copy, and the transaction that commits
  it: the body owes a triple, the transaction then keeps the invariant, is atomic, and leaves either the
  old database or the one the body computed.
\<close>

datatype fault = NoFault | ReqLost | ReplyLost | RowsCut nat

record ('d, 'w) sess =
  committed :: 'd
  txn :: "'d option"
  faults :: "fault list"
  clock :: int
  locked :: "string list"
  world :: 'w

type_synonym ('d, 'w, 'a) go = "('d, 'w) sess \<Rightarrow> (goerr + 'a) \<times> ('d, 'w) sess"

text \<open>A statement reads and writes one database and returns a value or an SQL error.\<close>

type_synonym ('d, 'a) stmt = "'d \<Rightarrow> sqlerr + 'a \<times> 'd"

datatype querier = Pool | Tx

section \<open>Commands\<close>

definition ret :: "'a \<Rightarrow> ('d, 'w, 'a) go" where
  "ret x s = (Inr x, s)"

definition raise_err :: "goerr \<Rightarrow> ('d, 'w, 'a) go" where
  "raise_err e s = (Inl e, s)"

definition andthen :: "('d, 'w, 'a) go \<Rightarrow> ('a \<Rightarrow> ('d, 'w, 'b) go) \<Rightarrow> ('d, 'w, 'b) go" where
  "andthen m f s = (case m s of (Inl e, s') \<Rightarrow> (Inl e, s') | (Inr x, s') \<Rightarrow> f x s')"

definition map_err :: "(goerr \<Rightarrow> goerr) \<Rightarrow> ('d, 'w, 'a) go \<Rightarrow> ('d, 'w, 'a) go" where
  "map_err f m s = (case m s of (Inl e, s') \<Rightarrow> (Inl (f e), s') | (Inr x, s') \<Rightarrow> (Inr x, s'))"

definition lift_res :: "goerr + 'a \<Rightarrow> ('d, 'w, 'a) go" where
  "lift_res r s = (r, s)"

definition get_now :: "('d, 'w, int) go" where
  "get_now s = (Inr (clock s), s)"

text \<open>Whether another session holds the lock \<open>key\<close> exclusively, as the server answers inside a transaction.\<close>

definition try_lock :: "string \<Rightarrow> ('d, 'w, bool) go" where
  "try_lock key s = (Inr (key \<notin> set (locked s)), s)"

text \<open>An early \<open>return nil, err\<close> under a condition.\<close>

definition fail_if :: "bool \<Rightarrow> goerr \<Rightarrow> ('d, 'w, unit) go" where
  "fail_if c e s = (if c then Inl e else Inr (), s)"

definition pop_fault :: "('d, 'w) sess \<Rightarrow> fault \<times> ('d, 'w) sess" where
  "pop_fault s = (case faults s of [] \<Rightarrow> (NoFault, s) | f # fs \<Rightarrow> (f, s\<lparr>faults := fs\<rparr>))"

text \<open>A callback acts on the world, and returns what it leaves in the struct it was given a pointer to.\<close>

definition call_fn :: "('w \<Rightarrow> (goerr + 'a) \<times> 'w) \<Rightarrow> ('d, 'w, 'a) go" where
  "call_fn f s = (case f (world s) of (r, w) \<Rightarrow> (r, s\<lparr>world := w\<rparr>))"

section \<open>Statements and transactions\<close>

definition run_pool :: "('d, 'a) stmt \<Rightarrow> ('d, 'w) sess \<Rightarrow> (sqlerr + 'a) \<times> ('d, 'w) sess" where
  "run_pool st s0 = (case pop_fault s0 of (f, s) \<Rightarrow>
     (case f of
        ReqLost \<Rightarrow> (Inl ConnFailure, s)
      | RowsCut _ \<Rightarrow> (Inl ConnFailure, s)
      | NoFault \<Rightarrow> (case st (committed s) of
            Inl e \<Rightarrow> (Inl e, s) | Inr (x, d) \<Rightarrow> (Inr x, s\<lparr>committed := d\<rparr>))
      | ReplyLost \<Rightarrow> (case st (committed s) of
            Inl e \<Rightarrow> (Inl ConnFailure, s) | Inr (x, d) \<Rightarrow> (Inl ConnFailure, s\<lparr>committed := d\<rparr>))))"

definition run_tx :: "('d, 'a) stmt \<Rightarrow> ('d, 'w) sess \<Rightarrow> (sqlerr + 'a) \<times> ('d, 'w) sess" where
  "run_tx st s0 = (case pop_fault s0 of (f, s) \<Rightarrow>
     (case (f, txn s) of
        (NoFault, Some d0) \<Rightarrow> (case st d0 of
            Inl e \<Rightarrow> (Inl e, if e = NoRows then s else s\<lparr>txn := None\<rparr>)
          | Inr (x, d) \<Rightarrow> (Inr x, s\<lparr>txn := Some d\<rparr>))
      | _ \<Rightarrow> (Inl ConnFailure, s\<lparr>txn := None\<rparr>)))"

text \<open>\<open>exec q st conv\<close>: run a statement and turn its SQL error into the error the code returns.\<close>

definition exec :: "querier \<Rightarrow> ('d, 'a) stmt \<Rightarrow> (sqlerr \<Rightarrow> goerr) \<Rightarrow> ('d, 'w, 'a) go" where
  "exec q st conv s = (case (case q of Pool \<Rightarrow> run_pool st s | Tx \<Rightarrow> run_tx st s) of
     (Inl e, s') \<Rightarrow> (Inl (conv e), s') | (Inr x, s') \<Rightarrow> (Inr x, s'))"

text \<open>\<open>query q f conv\<close>: a statement that only reads.\<close>

definition reads :: "('d \<Rightarrow> sqlerr + 'a) \<Rightarrow> ('d, 'a) stmt" where
  "reads f d = (case f d of Inl e \<Rightarrow> Inl e | Inr x \<Rightarrow> Inr (x, d))"

definition query :: "querier \<Rightarrow> ('d \<Rightarrow> sqlerr + 'a) \<Rightarrow> (sqlerr \<Rightarrow> goerr) \<Rightarrow> ('d, 'w, 'a) go" where
  "query q f conv = exec q (reads f) conv"

text \<open>
  \<open>QueryContext\<close> and the loop \<open>for rows.Next()\<close>.  \<open>chk\<close> says whether the code asks \<open>rows.Err()\<close>
  after the loop, and how it wraps that error: when it does not ask, a stream that breaks is a shorter
  list.
\<close>

definition rows_err :: "(sqlerr \<Rightarrow> goerr) option \<Rightarrow> 'a list \<Rightarrow> goerr + 'a list" where
  "rows_err chk xs = (case chk of None \<Rightarrow> Inr xs | Some conv \<Rightarrow> Inl (conv ConnFailure))"

definition query_rows :: "(sqlerr \<Rightarrow> goerr) option \<Rightarrow> querier \<Rightarrow> ('d \<Rightarrow> 'a list) \<Rightarrow> (sqlerr \<Rightarrow> goerr) \<Rightarrow> ('d, 'w, 'a list) go" where
  "query_rows chk q f conv s0 = (case pop_fault s0 of
     (RowsCut n, s) \<Rightarrow> (case q of
        Pool \<Rightarrow> (rows_err chk (take n (f (committed s))), s)
      | Tx \<Rightarrow> (case txn s of
            None \<Rightarrow> (Inl (conv ConnFailure), s)
          | Some d \<Rightarrow> (rows_err chk (take n (f d)), s\<lparr>txn := None\<rparr>)))
   | _ \<Rightarrow> query q (\<lambda>d. Inr (f d)) conv s0)"

text \<open>A command whose error the code inspects.\<close>

definition with_res :: "('d, 'w, 'a) go \<Rightarrow> (goerr + 'a \<Rightarrow> ('d, 'w, 'b) go) \<Rightarrow> ('d, 'w, 'b) go" where
  "with_res m f s = (case m s of (r, s') \<Rightarrow> f r s')"

text \<open>\<open>QueryRow\<close> followed by \<open>Scan\<close>: no row is \<open>sql.ErrNoRows\<close>.\<close>

definition one_row :: "'a option \<Rightarrow> sqlerr + 'a" where
  "one_row r = (case r of None \<Rightarrow> Inl NoRows | Some x \<Rightarrow> Inr x)"

definition first_row :: "'a list \<Rightarrow> 'a option" where
  "first_row xs = (case xs of [] \<Rightarrow> None | x # _ \<Rightarrow> Some x)"

text \<open>The first of the rows a statement returns.\<close>

definition row_of :: "('d, 'a list) stmt \<Rightarrow> ('d, 'a) stmt" where
  "row_of st d = (case st d of Inl e \<Rightarrow> Inl e | Inr (xs, d') \<Rightarrow>
     (case first_row xs of None \<Rightarrow> Inl NoRows | Some x \<Rightarrow> Inr (x, d')))"

lemma first_row_SomeD: "first_row xs = Some x \<Longrightarrow> x \<in> set xs"
  by (cases xs) (simp_all add: first_row_def)

lemma first_row_None_iff: "first_row xs = None \<longleftrightarrow> xs = []"
  by (cases xs) (simp_all add: first_row_def)

lemma first_row_NoneD: "first_row xs = None \<Longrightarrow> xs = []"
  by (cases xs) (simp_all add: first_row_def)

lemma row_of_Inr: "row_of st d = Inr (x, d') \<longleftrightarrow> (\<exists>xs. st d = Inr (xs, d') \<and> first_row xs = Some x)"
  by (auto simp: row_of_def split: sum.splits option.splits)

definition begin_tx :: "('d, 'w, unit) go" where
  "begin_tx s0 = (case pop_fault s0 of (f, s) \<Rightarrow>
     if f = NoFault then (Inr (), s\<lparr>txn := Some (committed s)\<rparr>) else (Inl (ErrSql ConnFailure), s))"

definition commit :: "('d, 'w, unit) go" where
  "commit s0 = (case pop_fault s0 of (f, s) \<Rightarrow>
     (case txn s of
        None \<Rightarrow> (Inl (ErrSql ConnFailure), s)
      | Some d \<Rightarrow> (case f of
            NoFault \<Rightarrow> (Inr (), s\<lparr>committed := d, txn := None\<rparr>)
          | ReplyLost \<Rightarrow> (Inl (ErrSql ConnFailure), s\<lparr>committed := d, txn := None\<rparr>)
          | _ \<Rightarrow> (Inl (ErrSql ConnFailure), s\<lparr>txn := None\<rparr>))))"

text \<open>\<open>BeginTx\<close>, the body, and the deferred \<open>Rollback\<close>, which drops what was not committed.\<close>

definition with_tx :: "('d, 'w, 'a) go \<Rightarrow> ('d, 'w, 'a) go" where
  "with_tx m s = (case begin_tx s of
     (Inl e, s') \<Rightarrow> (Inl e, s')
   | (Inr _, s') \<Rightarrow> (case m s' of (r, s'') \<Rightarrow> (r, s''\<lparr>txn := None\<rparr>)))"

lemmas cmd_defs = ret_def raise_err_def andthen_def map_err_def lift_res_def get_now_def fail_if_def
  call_fn_def try_lock_def exec_def query_def run_pool_def run_tx_def pop_fault_def begin_tx_def commit_def with_tx_def

declare cmd_defs [go_defs]

text \<open>
  A transaction that commits once its body succeeded; \<open>k\<close> is what the code computes after the commit,
  \<open>fb\<close> and \<open>fc\<close> how it wraps the errors of \<open>BeginTx\<close> and \<open>Commit\<close>.
\<close>

definition in_tx_as ::
  "(goerr \<Rightarrow> goerr) \<Rightarrow> (goerr \<Rightarrow> goerr) \<Rightarrow> ('d, 'w, 'a) go \<Rightarrow> ('a \<Rightarrow> 'b) \<Rightarrow> ('d, 'w, 'b) go" where
  "in_tx_as fb fc body k s = (case begin_tx s of
     (Inl e, s') \<Rightarrow> (Inl (fb e), s')
   | (Inr _, s') \<Rightarrow> (case andthen body (\<lambda>x. andthen (map_err fc commit) (\<lambda>_. ret (k x))) s' of
        (r, s'') \<Rightarrow> (r, s''\<lparr>txn := None\<rparr>)))"

abbreviation in_tx :: "('d, 'w, 'a) go \<Rightarrow> ('a \<Rightarrow> 'b) \<Rightarrow> ('d, 'w, 'b) go" where
  "in_tx \<equiv> in_tx_as (\<lambda>e. e) (\<lambda>e. e)"

text \<open>A session with no transaction open and no fault to come: what a client sees when nothing breaks.\<close>

definition calm :: "('d, 'w) sess \<Rightarrow> bool" where
  "calm s \<longleftrightarrow> txn s = None \<and> faults s = []"

definition no_reply_lost :: "('d, 'w) sess \<Rightarrow> bool" where
  "no_reply_lost s \<longleftrightarrow> ReplyLost \<notin> set (faults s)"

section \<open>A Hoare triple on the working copy\<close>

definition holds_tx :: "('d \<Rightarrow> bool) \<Rightarrow> ('d, 'w) sess \<Rightarrow> bool" where
  "holds_tx P s \<longleftrightarrow> (\<forall>d. txn s = Some d \<longrightarrow> P d)"

definition tx_triple :: "('d \<Rightarrow> bool) \<Rightarrow> ('d, 'w, 'a) go \<Rightarrow> ('a \<Rightarrow> 'd \<Rightarrow> bool) \<Rightarrow> bool" where
  "tx_triple P m Q \<longleftrightarrow> (\<forall>s r s'. holds_tx P s \<longrightarrow> m s = (r, s') \<longrightarrow>
     committed s' = committed s \<and> set (faults s') \<subseteq> set (faults s) \<and>
     (\<forall>x. r = Inr x \<longrightarrow> holds_tx (Q x) s'))"

lemma tx_tripleI:
  assumes "\<And>s r s'. holds_tx P s \<Longrightarrow> m s = (r, s') \<Longrightarrow>
     committed s' = committed s \<and> set (faults s') \<subseteq> set (faults s) \<and>
     (\<forall>x. r = Inr x \<longrightarrow> holds_tx (Q x) s')"
  shows "tx_triple P m Q"
  unfolding tx_triple_def using assms by (intro allI impI)

lemma tx_tripleD:
  assumes "tx_triple P m Q" "holds_tx P s" "m s = (r, s')"
  shows "committed s' = committed s" "set (faults s') \<subseteq> set (faults s)"
    "r = Inr x \<Longrightarrow> holds_tx (Q x) s'"
  using assms(1)[unfolded tx_triple_def, rule_format, OF assms(2,3)] by auto

lemma tx_weaken:
  assumes "tx_triple P m Q" "\<And>d. P' d \<Longrightarrow> P d" "\<And>x d. Q x d \<Longrightarrow> Q' x d"
  shows "tx_triple P' m Q'"
proof (rule tx_tripleI)
  fix s r s'
  assume "holds_tx P' s" and run: "m s = (r, s')"
  then have "holds_tx P s" using assms(2) by (simp add: holds_tx_def)
  from tx_tripleD[OF assms(1) this run] assms(3)
  show "committed s' = committed s \<and> set (faults s') \<subseteq> set (faults s) \<and>
     (\<forall>x. r = Inr x \<longrightarrow> holds_tx (Q' x) s')" by (simp add: holds_tx_def)
qed

lemma tx_ret [tx_intros]: "(\<And>d. P d \<Longrightarrow> Q x d) \<Longrightarrow> tx_triple P (ret x) Q"
  by (simp add: tx_triple_def holds_tx_def ret_def)

lemma tx_raise_err [tx_intros]: "tx_triple P (raise_err e) Q"
  by (simp add: tx_triple_def raise_err_def)

lemma tx_lift_res [tx_intros]: "(\<And>d x. P d \<Longrightarrow> r = Inr x \<Longrightarrow> Q x d) \<Longrightarrow> tx_triple P (lift_res r) Q"
  by (auto simp: tx_triple_def holds_tx_def lift_res_def split: sum.splits)

lemma tx_get_now [tx_intros]: "(\<And>d t. P d \<Longrightarrow> Q t d) \<Longrightarrow> tx_triple P get_now Q"
  by (simp add: tx_triple_def holds_tx_def get_now_def)

lemma tx_fail_if [tx_intros]: "(\<And>d. P d \<Longrightarrow> \<not> c \<Longrightarrow> Q () d) \<Longrightarrow> tx_triple P (fail_if c e) Q"
  by (auto simp: tx_triple_def holds_tx_def fail_if_def)

lemma tx_call_fn [tx_intros]: "(\<And>d x. P d \<Longrightarrow> Q x d) \<Longrightarrow> tx_triple P (call_fn f) Q"
  by (auto simp: tx_triple_def holds_tx_def call_fn_def split: prod.splits)

lemma tx_try_lock [tx_intros]: "(\<And>d b. P d \<Longrightarrow> Q b d) \<Longrightarrow> tx_triple P (try_lock key) Q"
  by (simp add: tx_triple_def holds_tx_def try_lock_def)

lemma tx_andthen:
  assumes "tx_triple P m R" "\<And>x. tx_triple (R x) (f x) Q"
  shows "tx_triple P (andthen m f) Q"
proof (rule tx_tripleI)
  fix s r s'
  assume s: "holds_tx P s" and run: "andthen m f s = (r, s')"
  obtain r1 s1 where m: "m s = (r1, s1)" by fastforce
  note m1 = tx_tripleD[OF assms(1) s m]
  show "committed s' = committed s \<and> set (faults s') \<subseteq> set (faults s) \<and>
     (\<forall>x. r = Inr x \<longrightarrow> holds_tx (Q x) s')"
  proof (cases r1)
    case (Inl e)
    then show ?thesis using run m m1 by (auto simp: andthen_def)
  next
    case (Inr x)
    have "f x s1 = (r, s')" using run m Inr by (simp add: andthen_def)
    from tx_tripleD[OF assms(2) m1(3)[OF Inr] this] show ?thesis using m1(1,2) by auto
  qed
qed

lemma tx_map_err [tx_intros]:
  assumes "tx_triple P m Q"
  shows "tx_triple P (map_err f m) Q"
proof (rule tx_tripleI)
  fix s r s'
  assume s: "holds_tx P s" and run: "map_err f m s = (r, s')"
  obtain r1 s1 where m: "m s = (r1, s1)" by fastforce
  have "s1 = s'" "\<And>x. r = Inr x \<Longrightarrow> r1 = Inr x"
    using run m by (auto simp: map_err_def split: sum.splits)
  then show "committed s' = committed s \<and> set (faults s') \<subseteq> set (faults s) \<and>
     (\<forall>x. r = Inr x \<longrightarrow> holds_tx (Q x) s')"
    using tx_tripleD[OF assms s m] by blast
qed

lemma tx_exec [tx_intros]:
  assumes "\<And>d x d'. P d \<Longrightarrow> st d = Inr (x, d') \<Longrightarrow> Q x d'"
  shows "tx_triple P (exec Tx st conv) Q"
  using assms
  by (auto simp: tx_triple_def holds_tx_def exec_def run_tx_def pop_fault_def
      split: prod.splits sum.splits list.splits fault.splits option.splits if_splits)

lemma tx_query [tx_intros]:
  assumes "\<And>d x. P d \<Longrightarrow> f d = Inr x \<Longrightarrow> Q x d"
  shows "tx_triple P (query Tx f conv) Q"
  unfolding query_def by (rule tx_exec) (use assms in \<open>auto simp: reads_def split: sum.splits\<close>)

lemma tx_query_rows [tx_intros]:
  assumes "\<And>d. P d \<Longrightarrow> Q (f d) d"
  shows "tx_triple P (query_rows chk Tx f conv) Q"
proof (rule tx_tripleI)
  fix s r s'
  assume s: "holds_tx P s" and run: "query_rows chk Tx f conv s = (r, s')"
  have q: "tx_triple P (query Tx (\<lambda>d. Inr (f d)) conv) Q" by (rule tx_query) (use assms in auto)
  show "committed s' = committed s \<and> set (faults s') \<subseteq> set (faults s) \<and>
     (\<forall>x. r = Inr x \<longrightarrow> holds_tx (Q x) s')"
  proof (cases "\<exists>n fs. faults s = RowsCut n # fs")
    case True
    then show ?thesis using run
      by (auto simp: query_rows_def pop_fault_def holds_tx_def split: option.splits if_splits)
  next
    case False
    then have "query Tx (\<lambda>d. Inr (f d)) conv s = (r, s')"
      using run by (auto simp: query_rows_def pop_fault_def split: list.splits fault.splits)
    from tx_tripleD[OF q s this] show ?thesis by blast
  qed
qed

lemma tx_if [tx_intros]:
  assumes "c \<Longrightarrow> tx_triple P m Q" "\<not> c \<Longrightarrow> tx_triple P n Q"
  shows "tx_triple P (if c then m else n) Q"
  using assms by simp

lemma tx_option [tx_intros]:
  assumes "v = None \<Longrightarrow> tx_triple P n Q" "\<And>x. v = Some x \<Longrightarrow> tx_triple P (f x) Q"
  shows "tx_triple P (case v of None \<Rightarrow> n | Some x \<Rightarrow> f x) Q"
  using assms by (simp split: option.split)

text \<open>A command that runs its statements inside the transaction only.\<close>

definition confined :: "('d, 'w, 'a) go \<Rightarrow> bool" where
  "confined m \<longleftrightarrow> tx_triple (\<lambda>_. True) m (\<lambda>_ _. True)"

lemma confined_simple [confined_intros]:
  "confined (ret x)" "confined (raise_err e)" "confined (lift_res r)" "confined get_now" "confined (fail_if c e)"
  "confined (call_fn g)" "confined (exec Tx st conv)" "confined (query Tx f conv')" "confined (query_rows chk Tx h conv'')"
  "confined (try_lock key)"
  unfolding confined_def by (rule tx_raise_err | (rule tx_intros, simp))+

lemma confined_andthen [confined_intros]:
  "confined m \<Longrightarrow> (\<And>x. confined (f x)) \<Longrightarrow> confined (andthen m f)"
  unfolding confined_def by (rule tx_andthen)

lemma confined_map_err [confined_intros]: "confined m \<Longrightarrow> confined (map_err f m)"
  unfolding confined_def by (rule tx_map_err)

lemma confined_if [confined_intros]: "confined m \<Longrightarrow> confined n \<Longrightarrow> confined (if c then m else n)"
  by simp

lemma confined_option [confined_intros]:
  "confined n \<Longrightarrow> (\<And>x. confined (f x)) \<Longrightarrow> confined (case v of None \<Rightarrow> n | Some x \<Rightarrow> f x)"
  by (simp split: option.split)

section \<open>Commands outside a transaction\<close>

definition op_keeps :: "('d \<Rightarrow> bool) \<Rightarrow> ('d, 'w, 'a) go \<Rightarrow> bool" where
  "op_keeps I m \<longleftrightarrow> (\<forall>s r s'. txn s = None \<longrightarrow> I (committed s) \<longrightarrow> m s = (r, s') \<longrightarrow>
     txn s' = None \<and> I (committed s'))"

definition quiet :: "('d, 'w, 'a) go \<Rightarrow> bool" where
  "quiet m \<longleftrightarrow> (\<forall>s r s'. txn s = None \<longrightarrow> m s = (r, s') \<longrightarrow>
     txn s' = None \<and> committed s' = committed s \<and> set (faults s') \<subseteq> set (faults s))"

definition atomic :: "('d, 'w, 'a) go \<Rightarrow> bool" where
  "atomic m \<longleftrightarrow> (\<forall>s e s'. txn s = None \<longrightarrow> no_reply_lost s \<longrightarrow> m s = (Inl e, s') \<longrightarrow>
     committed s' = committed s)"

lemma op_keepsD: "op_keeps I m \<Longrightarrow> txn s = None \<Longrightarrow> I (committed s) \<Longrightarrow> m s = (r, s') \<Longrightarrow>
    txn s' = None \<and> I (committed s')"
  by (rule op_keeps_def[THEN iffD1, rule_format])

lemma quietD: "quiet m \<Longrightarrow> txn s = None \<Longrightarrow> m s = (r, s') \<Longrightarrow>
    txn s' = None \<and> committed s' = committed s \<and> set (faults s') \<subseteq> set (faults s)"
  by (rule quiet_def[THEN iffD1, rule_format])

lemma quiet_op_keeps: "quiet m \<Longrightarrow> op_keeps I m"
  unfolding op_keeps_def by (auto dest: quietD)

lemma quiet_atomic: "quiet m \<Longrightarrow> atomic m"
  unfolding atomic_def by (auto dest: quietD)

lemma quiet_simple [quiet_intros]:
  "quiet (ret x)" "quiet (raise_err e)" "quiet (lift_res r)" "quiet get_now" "quiet (fail_if c e)"
  "quiet (call_fn f)"
  by (auto simp: quiet_def cmd_defs split: prod.splits)

lemma quiet_andthen [quiet_intros]:
  assumes "quiet m" "\<And>x. quiet (f x)"
  shows "quiet (andthen m f)"
  unfolding quiet_def
proof (intro allI impI)
  fix s :: "('a, 'b) sess" and r s'
  assume s: "txn s = None" and run: "andthen m f s = (r, s')"
  obtain r1 s1 where m: "m s = (r1, s1)" by fastforce
  note m1 = quietD[OF assms(1) s m]
  show "txn s' = None \<and> committed s' = committed s \<and> set (faults s') \<subseteq> set (faults s)"
  proof (cases r1)
    case (Inl e)
    then show ?thesis using run m m1 by (simp add: andthen_def)
  next
    case (Inr x)
    then have "f x s1 = (r, s')" using run m by (simp add: andthen_def)
    from quietD[OF assms(2) _ this] m1 show ?thesis by auto
  qed
qed

lemma quiet_map_err [quiet_intros]:
  assumes "quiet m"
  shows "quiet (map_err f m)"
  unfolding quiet_def
proof (intro allI impI)
  fix s :: "('a, 'b) sess" and r s'
  assume s: "txn s = None" and run: "map_err f m s = (r, s')"
  obtain r1 s1 where m: "m s = (r1, s1)" by fastforce
  have "s1 = s'" using run m by (auto simp: map_err_def split: sum.splits)
  then show "txn s' = None \<and> committed s' = committed s \<and> set (faults s') \<subseteq> set (faults s)"
    using quietD[OF assms s m] by simp
qed

lemma quiet_query [quiet_intros]: "quiet (query Pool f conv)"
  by (auto simp: quiet_def query_def exec_def run_pool_def reads_def pop_fault_def
      split: prod.splits sum.splits list.splits fault.splits)

lemma quiet_query_rows [quiet_intros]: "quiet (query_rows chk Pool f conv :: ('d, 'w, 'a list) go)"
proof -
  have q: "quiet (query Pool (\<lambda>d. Inr (f d)) conv :: ('d, 'w, 'a list) go)" by (rule quiet_query)
  show ?thesis unfolding quiet_def
  proof (intro allI impI)
    fix s :: "('d, 'w) sess" and r s'
    assume s: "txn s = None" and run: "query_rows chk Pool f conv s = (r, s')"
    show "txn s' = None \<and> committed s' = committed s \<and> set (faults s') \<subseteq> set (faults s)"
    proof (cases "\<exists>n fs. faults s = RowsCut n # fs")
      case True
      then show ?thesis using run s by (auto simp: query_rows_def pop_fault_def)
    next
      case False
      then have "query Pool (\<lambda>d. Inr (f d)) conv s = (r, s')"
        using run by (auto simp: query_rows_def pop_fault_def split: list.splits fault.splits)
      from quietD[OF q s this] show ?thesis .
    qed
  qed
qed

lemma quiet_with_res [quiet_intros]:
  assumes "quiet m" "\<And>r. quiet (f r)"
  shows "quiet (with_res m f)"
  unfolding quiet_def
proof (intro allI impI)
  fix s :: "('a, 'b) sess" and r s'
  assume s: "txn s = None" and run: "with_res m f s = (r, s')"
  obtain r1 s1 where m: "m s = (r1, s1)" by fastforce
  have "f r1 s1 = (r, s')" using run m by (simp add: with_res_def)
  from quietD[OF assms(2) _ this] quietD[OF assms(1) s m]
  show "txn s' = None \<and> committed s' = committed s \<and> set (faults s') \<subseteq> set (faults s)" by auto
qed

lemma quiet_sum [quiet_intros]:
  "(\<And>x. quiet (f x)) \<Longrightarrow> (\<And>x. quiet (g x)) \<Longrightarrow> quiet (case v of Inl x \<Rightarrow> f x | Inr x \<Rightarrow> g x)"
  by (simp split: sum.split)

lemma quiet_if [quiet_intros]: "quiet m \<Longrightarrow> quiet n \<Longrightarrow> quiet (if c then m else n)"
  by simp

lemma quiet_option [quiet_intros]:
  "quiet n \<Longrightarrow> (\<And>x. quiet (f x)) \<Longrightarrow> quiet (case v of None \<Rightarrow> n | Some x \<Rightarrow> f x)"
  by (simp split: option.split)

lemma quiet_prod [quiet_intros]: "(\<And>x y. quiet (f x y)) \<Longrightarrow> quiet (case v of (x, y) \<Rightarrow> f x y)"
  by (simp split: prod.split)

text \<open>A transaction that never commits, and pool statements that write.\<close>

lemma begin_tx_cases:
  assumes "begin_tx s = (r, s1)"
  shows "committed s1 = committed s \<and> set (faults s1) \<subseteq> set (faults s) \<and>
     (r = Inr () \<and> txn s1 = Some (committed s) \<or> (\<exists>e. r = Inl e) \<and> txn s1 = txn s)"
  using assms by (auto simp: begin_tx_def pop_fault_def split: list.splits if_splits)

lemma quiet_with_tx [quiet_intros]:
  assumes "confined m"
  shows "quiet (with_tx m)"
  unfolding quiet_def
proof (intro allI impI)
  fix s :: "('a, 'b) sess" and r s'
  assume s: "txn s = None" and run: "with_tx m s = (r, s')"
  obtain r1 s1 where b: "begin_tx s = (r1, s1)" by fastforce
  obtain r2 s2 where m: "m s1 = (r2, s2)" by fastforce
  note b1 = begin_tx_cases[OF b]
  show "txn s' = None \<and> committed s' = committed s \<and> set (faults s') \<subseteq> set (faults s)"
  proof (cases r1)
    case (Inl e)
    then show ?thesis using run b b1 s by (simp add: with_tx_def)
  next
    case (Inr x)
    have "holds_tx (\<lambda>_. True) s1" by (simp add: holds_tx_def)
    moreover have "s' = s2\<lparr>txn := None\<rparr>" using run b m Inr by (simp add: with_tx_def)
    ultimately show ?thesis using tx_tripleD(1,2)[OF assms[unfolded confined_def] _ m] b1 by auto
  qed
qed

lemma op_keeps_exec:
  assumes "\<And>d x d'. I d \<Longrightarrow> st d = Inr (x, d') \<Longrightarrow> I d'"
  shows "op_keeps I (exec Pool st conv)"
  unfolding op_keeps_def
  by (auto simp: exec_def run_pool_def pop_fault_def dest: assms
      split: prod.splits sum.splits list.splits fault.splits)

lemma atomic_exec: "atomic (exec Pool st conv)"
  by (auto simp: atomic_def no_reply_lost_def exec_def run_pool_def pop_fault_def
      split: prod.splits sum.splits list.splits fault.splits)

lemma op_keeps_andthen:
  assumes "op_keeps I m" "\<And>x. op_keeps I (f x)"
  shows "op_keeps I (andthen m f)"
  unfolding op_keeps_def
proof (intro allI impI)
  fix s :: "('a, 'b) sess" and r s'
  assume s: "txn s = None" "I (committed s)" and run: "andthen m f s = (r, s')"
  obtain r1 s1 where m: "m s = (r1, s1)" by fastforce
  note m1 = op_keepsD[OF assms(1) s m]
  show "txn s' = None \<and> I (committed s')"
  proof (cases r1)
    case (Inl e)
    then show ?thesis using run m m1 by (simp add: andthen_def)
  next
    case (Inr x)
    then have "f x s1 = (r, s')" using run m by (simp add: andthen_def)
    from op_keepsD[OF assms(2) _ _ this] m1 show ?thesis by simp
  qed
qed

lemma op_keeps_if: "op_keeps I m \<Longrightarrow> op_keeps I n \<Longrightarrow> op_keeps I (if c then m else n)"
  by simp

lemma op_keeps_option:
  "op_keeps I n \<Longrightarrow> (\<And>x. op_keeps I (f x)) \<Longrightarrow> op_keeps I (case v of None \<Rightarrow> n | Some x \<Rightarrow> f x)"
  by (simp split: option.split)

lemma atomic_if: "atomic m \<Longrightarrow> atomic n \<Longrightarrow> atomic (if c then m else n)"
  by simp

lemma atomic_option:
  "atomic n \<Longrightarrow> (\<And>x. atomic (f x)) \<Longrightarrow> atomic (case v of None \<Rightarrow> n | Some x \<Rightarrow> f x)"
  by (simp split: option.split)

text \<open>Reads before an atomic command keep it atomic; so do reads after it that cannot fail.\<close>

lemma atomic_quiet_andthen:
  assumes "quiet m" "\<And>x. atomic (f x)"
  shows "atomic (andthen m f)"
  unfolding atomic_def
proof (intro allI impI)
  fix s :: "('a, 'b) sess" and e s'
  assume s: "txn s = None" "no_reply_lost s" and run: "andthen m f s = (Inl e, s')"
  obtain r1 s1 where m: "m s = (r1, s1)" by fastforce
  note m1 = quietD[OF assms(1) s(1) m]
  show "committed s' = committed s"
  proof (cases r1)
    case (Inl e')
    then show ?thesis using run m m1 by (simp add: andthen_def)
  next
    case (Inr x)
    have "f x s1 = (Inl e, s')" using run m Inr by (simp add: andthen_def)
    moreover have "no_reply_lost s1" using s(2) m1 by (auto simp: no_reply_lost_def)
    ultimately show ?thesis using assms(2)[of x] m1 unfolding atomic_def by metis
  qed
qed

text \<open>A write whose result decides an error afterwards: the error has to mean that nothing was written.\<close>

lemma atomic_exec_andthen:
  fixes f :: "'x \<Rightarrow> ('d, 'w, 'a) go"
  assumes "\<And>x. quiet (f x)"
    and none: "\<And>d x d' s e s'. st d = Inr (x, d') \<Longrightarrow> f x s = (Inl e, s') \<Longrightarrow> d' = d"
  shows "atomic (andthen (exec Pool st conv) f)"
  unfolding atomic_def
proof (intro allI impI)
  fix s :: "('d, 'w) sess" and e s'
  assume s: "txn s = None" "no_reply_lost s" and run: "andthen (exec Pool st conv) f s = (Inl e, s')"
  obtain r1 s1 where m: "exec Pool st conv s = (r1, s1)" by fastforce
  show "committed s' = committed s"
  proof (cases r1)
    case (Inl e')
    then show ?thesis using run m s atomic_exec[of st conv] by (auto simp: andthen_def atomic_def)
  next
    case (Inr x)
    have f: "f x s1 = (Inl e, s')" using run m Inr by (simp add: andthen_def)
    have e: "txn s1 = None" "st (committed s) = Inr (x, committed s1)"
      using m Inr s by (auto simp: exec_def run_pool_def pop_fault_def
          split: prod.splits sum.splits list.splits fault.splits)
    show ?thesis using quietD[OF assms(1) e(1) f] none[OF e(2) f] by simp
  qed
qed

text \<open>A write whose error is looked at: what follows the error only reads.\<close>

lemma atomic_exec_with_res:
  fixes f :: "goerr + 'x \<Rightarrow> ('d, 'w, 'a) go"
  assumes err: "\<And>e. quiet (f (Inl e))" and ok: "\<And>x s e s'. f (Inr x) s \<noteq> (Inl e, s')"
  shows "atomic (with_res (exec Pool st conv) f)"
  unfolding atomic_def
proof (intro allI impI)
  fix s :: "('d, 'w) sess" and e s'
  assume s: "txn s = None" "no_reply_lost s" and run: "with_res (exec Pool st conv) f s = (Inl e, s')"
  obtain r1 s1 where m: "exec Pool st conv s = (r1, s1)" by fastforce
  have f: "f r1 s1 = (Inl e, s')" using run m by (simp add: with_res_def)
  then obtain e1 where r1: "r1 = Inl e1" using ok by (cases r1) auto
  have "txn s1 = None" "committed s1 = committed s"
    using m r1 s by (auto simp: exec_def run_pool_def pop_fault_def no_reply_lost_def
        split: prod.splits sum.splits list.splits fault.splits)
  then show "committed s' = committed s" using quietD[OF err _ f[unfolded r1]] by simp
qed

lemma op_keeps_exec_with_res:
  fixes f :: "goerr + 'x \<Rightarrow> ('d, 'w, 'a) go"
  assumes st: "\<And>d x d'. I d \<Longrightarrow> st d = Inr (x, d') \<Longrightarrow> I d'" and f: "\<And>r. quiet (f r)"
  shows "op_keeps I (with_res (exec Pool st conv) f)"
  unfolding op_keeps_def
proof (intro allI impI)
  fix s :: "('d, 'w) sess" and r s'
  assume s: "txn s = None" "I (committed s)" and run: "with_res (exec Pool st conv) f s = (r, s')"
  obtain r1 s1 where m: "exec Pool st conv s = (r1, s1)" by fastforce
  have "f r1 s1 = (r, s')" using run m by (simp add: with_res_def)
  from quietD[OF f _ this] op_keepsD[OF op_keeps_exec[of I st conv, OF st] s m]
  show "txn s' = None \<and> I (committed s')" by simp
qed

lemma fail_if_Inl: "fail_if c err s = (Inl e, s') \<Longrightarrow> c"
  by (simp add: fail_if_def split: if_splits)

section \<open>Commands when nothing breaks\<close>

lemma sess_self [simp]: "s\<lparr>committed := committed s\<rparr> = (s :: ('d, 'w) sess)"
  "txn s = t \<Longrightarrow> s\<lparr>txn := t\<rparr> = s" "s\<lparr>world := world s\<rparr> = s"
  by (cases s; simp)+

lemma calm_query_pool [calm_simps]:
  "faults s = [] \<Longrightarrow> query Pool f conv s =
     (case f (committed s) of Inl e \<Rightarrow> (Inl (conv e), s) | Inr x \<Rightarrow> (Inr x, s))"
  by (simp add: query_def exec_def run_pool_def pop_fault_def reads_def split: sum.split)

lemma calm_query_tx [calm_simps]:
  "faults s = [] \<Longrightarrow> txn s = Some d \<Longrightarrow> query Tx f conv s =
     (case f d of Inl e \<Rightarrow> (Inl (conv e), if e = NoRows then s else s\<lparr>txn := None\<rparr>) | Inr x \<Rightarrow> (Inr x, s))"
  by (simp add: query_def exec_def run_tx_def pop_fault_def reads_def split: sum.split)

lemma calm_query_rows [calm_simps]:
  "faults s = [] \<Longrightarrow> query_rows chk q f conv s = query q (\<lambda>d. Inr (f d)) conv s"
  by (simp add: query_rows_def pop_fault_def)

lemma calm_exec_pool [calm_simps]:
  "faults s = [] \<Longrightarrow> exec Pool st conv s = (case st (committed s) of
     Inl e \<Rightarrow> (Inl (conv e), s) | Inr (x, d) \<Rightarrow> (Inr x, s\<lparr>committed := d\<rparr>))"
  by (simp add: exec_def run_pool_def pop_fault_def split: sum.split prod.split)

lemma calm_exec_tx [calm_simps]:
  "faults s = [] \<Longrightarrow> txn s = Some d \<Longrightarrow> exec Tx st conv s = (case st d of
     Inl e \<Rightarrow> (Inl (conv e), if e = NoRows then s else s\<lparr>txn := None\<rparr>)
   | Inr (x, d') \<Rightarrow> (Inr x, s\<lparr>txn := Some d'\<rparr>))"
  by (simp add: exec_def run_tx_def pop_fault_def split: sum.split prod.split)

lemma calm_with_tx [calm_simps]:
  "faults s = [] \<Longrightarrow> with_tx m s = (case m (s\<lparr>txn := Some (committed s)\<rparr>) of (r, s') \<Rightarrow> (r, s'\<lparr>txn := None\<rparr>))"
  by (simp add: with_tx_def begin_tx_def pop_fault_def)

lemma calm_in_tx [calm_simps]:
  "faults s = [] \<Longrightarrow> in_tx_as fb fc m k s =
     (case andthen m (\<lambda>x. andthen (map_err fc commit) (\<lambda>_. ret (k x))) (s\<lparr>txn := Some (committed s)\<rparr>) of
        (r, s') \<Rightarrow> (r, s'\<lparr>txn := None\<rparr>))"
  by (simp add: in_tx_as_def begin_tx_def pop_fault_def)

lemma calm_commit [calm_simps]:
  "faults s = [] \<Longrightarrow> txn s = Some d \<Longrightarrow> commit s = (Inr (), s\<lparr>committed := d, txn := None\<rparr>)"
  by (simp add: commit_def pop_fault_def)

lemmas plain_simps [calm_simps] = ret_def raise_err_def andthen_def map_err_def lift_res_def get_now_def
  fail_if_def call_fn_def try_lock_def one_row_def with_res_def row_of_def

section \<open>The contract of a transaction body\<close>

locale tx_body =
  fixes I :: "'d \<Rightarrow> bool" and body :: "('d, 'w, 'a) go"
  assumes body_triple: "I d0 \<Longrightarrow> tx_triple (\<lambda>d. d = d0) body (\<lambda>_ d. I d)"
    and body_confined: "confined body"
begin

text \<open>What a committed transaction does: fail and leave the database alone, or install what the body computed.\<close>

lemma run_cases:
  assumes s: "txn s = None" and run: "in_tx_as fb fc body k s = (r, s')"
  shows "txn s' = None \<and>
    (committed s' = committed s \<and> (\<exists>e. r = Inl e) \<or>
     (\<exists>s1 x s2 d. begin_tx s = (Inr (), s1) \<and> body s1 = (Inr x, s2) \<and> txn s2 = Some d \<and>
        committed s' = d \<and> (r = Inr (k x) \<or> (\<exists>e. r = Inl e) \<and> ReplyLost \<in> set (faults s))))"
proof -
  obtain r1 s1 where b: "begin_tx s = (r1, s1)" by fastforce
  obtain r2 s2 where m: "body s1 = (r2, s2)" by fastforce
  note b1 = begin_tx_cases[OF b]
  have "holds_tx (\<lambda>_. True) s1" by (simp add: holds_tx_def)
  note m1 = tx_tripleD(1,2)[OF body_confined[unfolded confined_def] this m]
  show ?thesis
  proof (cases r1)
    case (Inl e)
    then show ?thesis using run b b1 s by (auto simp: in_tx_as_def)
  next
    case (Inr u)
    show ?thesis
    proof (cases r2)
      case (Inl e)
      then show ?thesis using run b m m1 b1 \<open>r1 = Inr u\<close>
        by (auto simp: in_tx_as_def andthen_def)
    next
      case x: (Inr x)
      obtain r3 s3 where c: "commit s2 = (r3, s3)" by fastforce
      have c1: "committed s3 = committed s2 \<and> (\<exists>e. r3 = Inl e) \<or>
          (\<exists>d. txn s2 = Some d \<and> committed s3 = d \<and>
            (r3 = Inr () \<or> (\<exists>e. r3 = Inl e) \<and> ReplyLost \<in> set (faults s2)))"
        using c by (auto simp: commit_def pop_fault_def split: list.splits fault.splits option.splits)
      have "s' = s3\<lparr>txn := None\<rparr>" "r = (case r3 of Inl e \<Rightarrow> Inl (fc e) | Inr _ \<Rightarrow> Inr (k x))"
        using run b m c Inr x
        by (auto simp: in_tx_as_def andthen_def map_err_def ret_def split: sum.splits)
      then show ?thesis using c1 m1 b1 m b Inr x by auto
    qed
  qed
qed

lemma run_keeps: "op_keeps I (in_tx_as fb fc body k)"
  unfolding op_keeps_def
proof (intro allI impI)
  fix s :: "('d, 'w) sess" and r s'
  assume s: "txn s = None" and I: "I (committed s)" and run: "in_tx_as fb fc body k s = (r, s')"
  have "I (committed s')" if *: "begin_tx s = (Inr (), s1)" "body s1 = (Inr x, s2)"
    "txn s2 = Some (committed s')" for s1 x s2
  proof -
    have "holds_tx (\<lambda>d. d = committed s) s1" using begin_tx_cases[OF *(1)] by (simp add: holds_tx_def)
    from tx_tripleD(3)[OF body_triple[OF I] this *(2) refl] *(3) show ?thesis by (simp add: holds_tx_def)
  qed
  then show "txn s' = None \<and> I (committed s')" using run_cases[OF s run] I by metis
qed

text \<open>A stronger postcondition of the body holds of what a successful transaction committed.\<close>

lemma run_post:
  assumes "txn s = None" "in_tx_as fb fc body k s = (Inr y, s')" "tx_triple (\<lambda>d. d = committed s) body Q"
  shows "\<exists>x. y = k x \<and> Q x (committed s')"
proof -
  from run_cases[OF assms(1,2)] obtain s1 x s2 where
    b: "begin_tx s = (Inr (), s1)" "body s1 = (Inr x, s2)" "txn s2 = Some (committed s')" "y = k x" by auto
  have "holds_tx (\<lambda>d. d = committed s) s1" using begin_tx_cases[OF b(1)] by (simp add: holds_tx_def)
  from tx_tripleD(3)[OF assms(3) this b(2) refl] b show ?thesis by (auto simp: holds_tx_def)
qed

lemma run_atomic: "atomic (in_tx_as fb fc body k)"
  unfolding atomic_def no_reply_lost_def using run_cases by blast

end

end
