(* ===== verification/Store_Schema.thy ===== *)
theory Store_Schema
  imports Sql_Layer
begin

text \<open>
  The database of the projects service after its migrations
  (\<open>services/projects/store/sqlstore/migrations\<close>), and the effect of the SQL statements the store sends.
  A table is a list of rows; the write statements enforce the check constraints, the primary keys and
  unique indexes, and the foreign keys with their \<open>ON DELETE\<close> actions, in the order Postgres does.

  \<open>schema_ok\<close> collects what the schema guarantees.  \<open>app_ok\<close> is what the schema does not say and the Go
  code maintains: a branch tree whose depths count from the root and stay within the configured bound,
  active branches only in active projects, branches only in cells their organization may use, and GitHub
  links that point into their own project.
\<close>

datatype status = StatusActive | StatusTerminated

record project_row =
  pr_id :: string
  pr_org :: string
  pr_name :: string
  pr_created :: int
  pr_updated :: int
  pr_base_enabled :: bool
  pr_base_minutes :: int
  pr_child_enabled :: bool
  pr_child_minutes :: int
  pr_ipf_enabled :: bool
  pr_ipf_cidrs :: "CIDREntry list"
  pr_status :: status
  pr_status_changed :: int

record branch_row =
  br_id :: string
  br_project :: string
  br_name :: string
  br_created :: int
  br_updated :: int
  br_parent :: "string option"
  br_desc :: "string option"
  br_cell :: string
  br_depth :: int
  br_status :: status
  br_status_changed :: int

text \<open>Of \<open>backups\<close> only the key columns occur in the store's statements.\<close>

record backup_row =
  bk_id :: string
  bk_project :: string
  bk_branch :: "string option"

record limits_row =
  ol_org :: string
  ol_project :: string
  ol_limits :: "LimitKey \<rightharpoonup> jval"

record db =
  t_regions :: "Region list"
  t_cells :: "Cell list"
  t_projects :: "project_row list"
  t_branches :: "branch_row list"
  t_backups :: "backup_row list"
  t_github_installations :: "GithubInstallation list"
  t_github_repositories :: "GithubRepoMapping list"
  t_organization_limits :: "limits_row list"
  t_organization_statuses :: "OrganizationStatus list"

definition empty_db :: db where
  "empty_db = \<lparr>t_regions = [], t_cells = [], t_projects = [], t_branches = [], t_backups = [],
     t_github_installations = [], t_github_repositories = [], t_organization_limits = [],
     t_organization_statuses = []\<rparr>"

type_synonym ('w, 'a) cmd = "(db, 'w, 'a) go"

abbreviation pr_active :: "project_row \<Rightarrow> bool" where "pr_active r \<equiv> pr_status r = StatusActive"
abbreviation br_active :: "branch_row \<Rightarrow> bool" where "br_active r \<equiv> br_status r = StatusActive"
abbreviation anyrow :: "'r \<Rightarrow> bool" where "anyrow \<equiv> \<lambda>_. True"

lemma db_self [simp]:
  "d\<lparr>t_regions := t_regions d\<rparr> = d" "d\<lparr>t_cells := t_cells d\<rparr> = d"
  "d\<lparr>t_projects := t_projects d\<rparr> = d" "d\<lparr>t_branches := t_branches d\<rparr> = d"
  "d\<lparr>t_github_repositories := t_github_repositories d\<rparr> = (d :: db)"
  by (cases d; simp)+

section \<open>Statements\<close>

text \<open>The check constraint \<open>subdomain ~ '^[a-z0-9]([a-z0-9-]{0,61}[a-z0-9])?$'\<close>.\<close>

definition lower_alnum :: "char \<Rightarrow> bool" where
  "lower_alnum c \<longleftrightarrow> (let n = of_char c :: nat in 97 \<le> n \<and> n \<le> 122 \<or> 48 \<le> n \<and> n \<le> 57)"

definition subdomain_label :: "string \<Rightarrow> bool" where
  "subdomain_label s \<longleftrightarrow> s \<noteq> [] \<and> length s \<le> 63 \<and> lower_alnum (hd s) \<and> lower_alnum (last s) \<and>
     list_all (\<lambda>c. lower_alnum c \<or> c = CHR ''-'') s"

definition ins_region :: "Region \<Rightarrow> (db, Region) stmt" where
  "ins_region r d =
     (if list_ex (\<lambda>x. rg_ID x = rg_ID r) (t_regions d) then Inl (UniqueViolation ''regions_pkey'')
      else Inr (r, d\<lparr>t_regions := t_regions d @ [r]\<rparr>))"

definition del_regions :: "(Region \<Rightarrow> bool) \<Rightarrow> (db, nat) stmt" where
  "del_regions p d =
     (if list_ex (\<lambda>r. p r \<and> list_ex (\<lambda>c. cl_RegionID c = rg_ID r) (t_cells d)) (t_regions d)
      then Inl ForeignKeyViolation
      else Inr (count_where p (t_regions d), d\<lparr>t_regions := delete_where p (t_regions d)\<rparr>))"

definition ins_cell :: "Cell \<Rightarrow> (db, Cell) stmt" where
  "ins_cell c d =
     (if (case cl_Subdomain c of None \<Rightarrow> False | Some s \<Rightarrow> \<not> subdomain_label s) then Inl CheckViolation
      else if list_ex (\<lambda>x. cl_ID x = cl_ID c) (t_cells d) then Inl (UniqueViolation ''cells_pkey'')
      else if \<not> list_ex (\<lambda>r. rg_ID r = cl_RegionID c) (t_regions d) then Inl ForeignKeyViolation
      else Inr (c, d\<lparr>t_cells := t_cells d @ [c]\<rparr>))"

definition del_cells :: "(Cell \<Rightarrow> bool) \<Rightarrow> (db, nat) stmt" where
  "del_cells p d =
     (if list_ex (\<lambda>c. p c \<and> list_ex (\<lambda>b. br_cell b = cl_ID c) (t_branches d)) (t_cells d)
      then Inl ForeignKeyViolation
      else Inr (count_where p (t_cells d), d\<lparr>t_cells := delete_where p (t_cells d)\<rparr>))"

abbreviation org_name :: "project_row \<Rightarrow> string \<times> string" where
  "org_name r \<equiv> (pr_org r, pr_name r)"

definition minutes_ok :: "project_row \<Rightarrow> bool" where
  "minutes_ok r \<longleftrightarrow> in_int32 (pr_base_minutes r) \<and> in_int32 (pr_child_minutes r)"

definition ins_project :: "project_row \<Rightarrow> (db, project_row) stmt" where
  "ins_project r d =
     (if \<not> minutes_ok r then Inl OutOfRange
      else if list_ex (\<lambda>x. pr_id x = pr_id r) (t_projects d) then Inl (UniqueViolation ''projects_pkey'')
      else if pr_active r \<and> list_ex (\<lambda>x. pr_active x \<and> org_name x = org_name r) (t_projects d)
        then Inl (UniqueViolation ''unique_org_project_active'')
      else Inr (r, d\<lparr>t_projects := t_projects d @ [r]\<rparr>))"

text \<open>\<open>UPDATE projects SET f WHERE p RETURNING *\<close>.\<close>

definition upd_projects :: "(project_row \<Rightarrow> bool) \<Rightarrow> (project_row \<Rightarrow> project_row) \<Rightarrow> (db, project_row list) stmt" where
  "upd_projects p f d =
     (let t = update_where p f (t_projects d) in
      if list_ex (\<lambda>r. p r \<and> \<not> minutes_ok (f r)) (t_projects d) then Inl OutOfRange
      else if \<not> unique_on org_name pr_active t then Inl (UniqueViolation ''unique_org_project_active'')
      else Inr (map f (filter p (t_projects d)), d\<lparr>t_projects := t\<rparr>))"

definition del_projects :: "(project_row \<Rightarrow> bool) \<Rightarrow> (db, nat) stmt" where
  "del_projects p d =
     (if list_ex (\<lambda>r. p r \<and> (list_ex (\<lambda>b. br_project b = pr_id r) (t_branches d) \<or>
                            list_ex (\<lambda>k. bk_project k = pr_id r) (t_backups d))) (t_projects d)
      then Inl ForeignKeyViolation
      else Inr (count_where p (t_projects d),
        d\<lparr>t_projects := delete_where p (t_projects d),
          t_github_repositories := delete_where
            (\<lambda>m. list_ex (\<lambda>r. p r \<and> pr_id r = gm_Project m) (t_projects d)) (t_github_repositories d)\<rparr>))"

abbreviation proj_name :: "branch_row \<Rightarrow> string \<times> string" where
  "proj_name b \<equiv> (br_project b, br_name b)"

definition ins_branch :: "branch_row \<Rightarrow> (db, branch_row) stmt" where
  "ins_branch b d =
     (if \<not> br_depth b > 0 then Inl CheckViolation
      else if list_ex (\<lambda>x. br_id x = br_id b) (t_branches d) then Inl (UniqueViolation ''branches_pkey'')
      else if br_active b \<and> list_ex (\<lambda>x. br_active x \<and> proj_name x = proj_name b) (t_branches d)
        then Inl (UniqueViolation ''unique_project_branch_name_active'')
      else if \<not> list_ex (\<lambda>r. pr_id r = br_project b) (t_projects d) then Inl ForeignKeyViolation
      else if \<not> list_ex (\<lambda>c. cl_ID c = br_cell b) (t_cells d) then Inl ForeignKeyViolation
      else if (case br_parent b of None \<Rightarrow> False | Some q \<Rightarrow> \<not> (q = br_id b \<or> list_ex (\<lambda>x. br_id x = q) (t_branches d)))
        then Inl ForeignKeyViolation
      else Inr (b, d\<lparr>t_branches := t_branches d @ [b]\<rparr>))"

definition upd_branches :: "(branch_row \<Rightarrow> bool) \<Rightarrow> (branch_row \<Rightarrow> branch_row) \<Rightarrow> (db, branch_row list) stmt" where
  "upd_branches p f d =
     (let t = update_where p f (t_branches d) in
      if \<not> unique_on proj_name br_active t then Inl (UniqueViolation ''unique_project_branch_name_active'')
      else Inr (map f (filter p (t_branches d)), d\<lparr>t_branches := t\<rparr>))"

text \<open>
  Deleting branches clears the parent of the surviving children and the branch of the surviving
  backups, and removes the GitHub links rooted at them.
\<close>

definition clear_parent :: "string list \<Rightarrow> branch_row \<Rightarrow> branch_row" where
  "clear_parent gone b = (case br_parent b of
     None \<Rightarrow> b | Some q \<Rightarrow> if q \<in> set gone then b\<lparr>br_parent := None\<rparr> else b)"

definition clear_branch :: "string list \<Rightarrow> backup_row \<Rightarrow> backup_row" where
  "clear_branch gone k = (case bk_branch k of
     None \<Rightarrow> k | Some q \<Rightarrow> if q \<in> set gone then k\<lparr>bk_branch := None\<rparr> else k)"

definition del_branches :: "(branch_row \<Rightarrow> bool) \<Rightarrow> (db, nat) stmt" where
  "del_branches p d =
     (let gone = map br_id (filter p (t_branches d)) in
      Inr (count_where p (t_branches d),
        d\<lparr>t_branches := map (clear_parent gone) (delete_where p (t_branches d)),
          t_backups := map (clear_branch gone) (t_backups d),
          t_github_repositories := delete_where (\<lambda>m. gm_RootBranchID m \<in> set gone) (t_github_repositories d)\<rparr>))"

definition del_backups :: "(backup_row \<Rightarrow> bool) \<Rightarrow> (db, nat) stmt" where
  "del_backups p d = Inr (count_where p (t_backups d), d\<lparr>t_backups := delete_where p (t_backups d)\<rparr>)"

abbreviation org_inst :: "GithubInstallation \<Rightarrow> string \<times> int" where
  "org_inst g \<equiv> (gi_Organization g, gi_InstallationID g)"

definition ins_installation :: "GithubInstallation \<Rightarrow> (db, GithubInstallation) stmt" where
  "ins_installation g d =
     (if list_ex (\<lambda>x. gi_ID x = gi_ID g) (t_github_installations d)
        then Inl (UniqueViolation ''github_installations_pkey'')
      else if list_ex (\<lambda>x. org_inst x = org_inst g) (t_github_installations d)
        then Inl (UniqueViolation ''github_installations_unique_org_installation'')
      else if list_ex (\<lambda>x. gi_InstallationID x = gi_InstallationID g) (t_github_installations d)
        then Inl (UniqueViolation ''github_installations_unique_installation_id'')
      else Inr (g, d\<lparr>t_github_installations := t_github_installations d @ [g]\<rparr>))"

definition upd_installations ::
  "(GithubInstallation \<Rightarrow> bool) \<Rightarrow> (GithubInstallation \<Rightarrow> GithubInstallation) \<Rightarrow> (db, GithubInstallation list) stmt" where
  "upd_installations p f d =
     (let t = update_where p f (t_github_installations d) in
      if \<not> unique_on org_inst anyrow t
        then Inl (UniqueViolation ''github_installations_unique_org_installation'')
      else if \<not> unique_on gi_InstallationID anyrow t
        then Inl (UniqueViolation ''github_installations_unique_installation_id'')
      else Inr (map f (filter p (t_github_installations d)), d\<lparr>t_github_installations := t\<rparr>))"

definition del_installations :: "(GithubInstallation \<Rightarrow> bool) \<Rightarrow> (db, nat) stmt" where
  "del_installations p d = Inr (count_where p (t_github_installations d),
     d\<lparr>t_github_installations := delete_where p (t_github_installations d)\<rparr>)"

definition ins_repo :: "GithubRepoMapping \<Rightarrow> (db, GithubRepoMapping) stmt" where
  "ins_repo m d =
     (if list_ex (\<lambda>x. gm_ID x = gm_ID m) (t_github_repositories d)
        then Inl (UniqueViolation ''github_repositories_pkey'')
      else if list_ex (\<lambda>x. gm_Project x = gm_Project m) (t_github_repositories d)
        then Inl (UniqueViolation ''github_repositories_unique_project_id'')
      else if list_ex (\<lambda>x. gm_GithubRepositoryID x = gm_GithubRepositoryID m) (t_github_repositories d)
        then Inl (UniqueViolation ''github_repositories_unique_repo_id'')
      else if \<not> list_ex (\<lambda>r. pr_id r = gm_Project m) (t_projects d) then Inl ForeignKeyViolation
      else if \<not> list_ex (\<lambda>b. br_id b = gm_RootBranchID m) (t_branches d) then Inl ForeignKeyViolation
      else Inr (m, d\<lparr>t_github_repositories := t_github_repositories d @ [m]\<rparr>))"

definition upd_repos ::
  "(GithubRepoMapping \<Rightarrow> bool) \<Rightarrow> (GithubRepoMapping \<Rightarrow> GithubRepoMapping) \<Rightarrow> (db, GithubRepoMapping list) stmt" where
  "upd_repos p f d =
     (let t = update_where p f (t_github_repositories d) in
      if \<not> unique_on gm_GithubRepositoryID anyrow t
        then Inl (UniqueViolation ''github_repositories_unique_repo_id'')
      else if list_ex (\<lambda>m. \<not> list_ex (\<lambda>b. br_id b = gm_RootBranchID m) (t_branches d)) t
        then Inl ForeignKeyViolation
      else Inr (map f (filter p (t_github_repositories d)), d\<lparr>t_github_repositories := t\<rparr>))"

definition del_repos :: "(GithubRepoMapping \<Rightarrow> bool) \<Rightarrow> (db, nat) stmt" where
  "del_repos p d = Inr (count_where p (t_github_repositories d),
     d\<lparr>t_github_repositories := delete_where p (t_github_repositories d)\<rparr>)"

section \<open>What the schema guarantees\<close>

definition keys_ok :: "db \<Rightarrow> bool" where
  "keys_ok d \<longleftrightarrow>
     unique_on rg_ID anyrow (t_regions d) \<and> unique_on cl_ID anyrow (t_cells d) \<and>
     unique_on pr_id anyrow (t_projects d) \<and> unique_on br_id anyrow (t_branches d) \<and>
     unique_on gi_ID anyrow (t_github_installations d) \<and> unique_on gm_ID anyrow (t_github_repositories d) \<and>
     unique_on (\<lambda>r. (ol_org r, ol_project r)) anyrow (t_organization_limits d) \<and>
     unique_on os_OrganizationID anyrow (t_organization_statuses d)"

text \<open>The unique indexes, and the width of the integer columns.\<close>

definition indexes_ok :: "db \<Rightarrow> bool" where
  "indexes_ok d \<longleftrightarrow>
     (\<forall>r\<in>set (t_projects d). minutes_ok r) \<and>
     unique_on org_name pr_active (t_projects d) \<and>
     unique_on proj_name br_active (t_branches d) \<and>
     unique_on gi_InstallationID anyrow (t_github_installations d) \<and>
     unique_on gm_Project anyrow (t_github_repositories d) \<and>
     unique_on gm_GithubRepositoryID anyrow (t_github_repositories d)"

definition refs_ok :: "db \<Rightarrow> bool" where
  "refs_ok d \<longleftrightarrow>
     (\<forall>c\<in>set (t_cells d). \<exists>r\<in>set (t_regions d). rg_ID r = cl_RegionID c) \<and>
     (\<forall>b\<in>set (t_branches d). \<exists>r\<in>set (t_projects d). pr_id r = br_project b) \<and>
     (\<forall>b\<in>set (t_branches d). \<exists>c\<in>set (t_cells d). cl_ID c = br_cell b) \<and>
     (\<forall>k\<in>set (t_backups d). \<exists>r\<in>set (t_projects d). pr_id r = bk_project k) \<and>
     (\<forall>m\<in>set (t_github_repositories d). \<exists>r\<in>set (t_projects d). pr_id r = gm_Project m)"

definition schema_ok :: "db \<Rightarrow> bool" where
  "schema_ok d \<longleftrightarrow> keys_ok d \<and> indexes_ok d \<and> refs_ok d"

section \<open>What the code maintains\<close>

text \<open>Depths count from the root of the branch tree, inside one project, up to the configured maximum.\<close>

definition tree_ok :: "int \<Rightarrow> db \<Rightarrow> bool" where
  "tree_ok md d \<longleftrightarrow> (\<forall>b\<in>set (t_branches d).
     1 \<le> br_depth b \<and> br_depth b \<le> max 1 md \<and>
     (\<forall>q. br_parent b = Some q \<longrightarrow> (\<exists>a\<in>set (t_branches d).
        br_id a = q \<and> br_project a = br_project b \<and> br_depth b = br_depth a + 1)))"

definition live_ok :: "db \<Rightarrow> bool" where
  "live_ok d \<longleftrightarrow> (\<forall>b\<in>set (t_branches d). br_active b \<longrightarrow>
     (\<forall>r\<in>set (t_projects d). pr_id r = br_project b \<longrightarrow> pr_active r))"

definition usable :: "Region \<Rightarrow> string \<Rightarrow> bool" where
  "usable r org \<longleftrightarrow> rg_OrganizationID r = Some org \<or> rg_OrganizationID r = None"

definition tenancy_ok :: "db \<Rightarrow> bool" where
  "tenancy_ok d \<longleftrightarrow> (\<forall>b\<in>set (t_branches d). \<forall>p\<in>set (t_projects d). \<forall>c\<in>set (t_cells d). \<forall>r\<in>set (t_regions d).
     pr_id p = br_project b \<longrightarrow> cl_ID c = br_cell b \<longrightarrow> rg_ID r = cl_RegionID c \<longrightarrow> usable r (pr_org p))"

definition links_ok :: "db \<Rightarrow> bool" where
  "links_ok d \<longleftrightarrow> (\<forall>m\<in>set (t_github_repositories d). \<exists>b\<in>set (t_branches d).
     br_id b = gm_RootBranchID m \<and> br_project b = gm_Project m)"

definition app_ok :: "int \<Rightarrow> db \<Rightarrow> bool" where
  "app_ok md d \<longleftrightarrow> tree_ok md d \<and> live_ok d \<and> tenancy_ok d \<and> links_ok d"

definition store_inv :: "int \<Rightarrow> db \<Rightarrow> bool" where
  "store_inv md d \<longleftrightarrow> schema_ok d \<and> app_ok md d"

lemma store_inv_empty: "store_inv md empty_db"
  by (simp add: store_inv_def schema_ok_def keys_ok_def indexes_ok_def refs_ok_def app_ok_def tree_ok_def
      live_ok_def tenancy_ok_def links_ok_def empty_db_def)

section \<open>Every statement keeps both\<close>

lemmas schema_defs = keys_ok_def indexes_ok_def refs_ok_def
lemmas app_defs = tree_ok_def live_ok_def tenancy_ok_def links_ok_def

lemma store_invE:
  assumes "store_inv md d"
  shows "keys_ok d" "indexes_ok d" "refs_ok d" "tree_ok md d" "live_ok d" "tenancy_ok d" "links_ok d"
  using assms by (simp_all add: store_inv_def schema_ok_def app_ok_def)

lemma store_invI:
  assumes "keys_ok d" "indexes_ok d" "refs_ok d" "tree_ok md d" "live_ok d" "tenancy_ok d" "links_ok d"
  shows "store_inv md d"
  using assms by (simp add: store_inv_def schema_ok_def app_ok_def)

lemmas row_simps = list_ex_iff unique_on_snoc set_delete_where set_update_where

lemma ins_region_inv:
  assumes "store_inv md d" "ins_region r d = Inr (x, d')"
  shows "store_inv md d'"
proof -
  note inv = store_invE[OF assms(1)]
  have d': "d' = d\<lparr>t_regions := t_regions d @ [r]\<rparr>" and new: "\<forall>x\<in>set (t_regions d). rg_ID x \<noteq> rg_ID r"
    using assms(2) by (auto simp: ins_region_def list_ex_iff split: if_splits)
  show ?thesis
  proof (rule store_invI)
    show "keys_ok d'" using inv(1) new by (simp add: keys_ok_def d' unique_on_snoc)
    show "refs_ok d'" using inv(3) by (auto simp: refs_ok_def d')
    show "tenancy_ok d'" using inv(3,6) new unfolding tenancy_ok_def refs_ok_def d' by fastforce
  qed (use inv in \<open>simp_all add: d' indexes_ok_def app_defs\<close>)
qed

lemma del_regions_inv:
  assumes "store_inv md d" "del_regions p d = Inr (x, d')"
  shows "store_inv md d'"
proof -
  note inv = store_invE[OF assms(1)]
  have d': "d' = d\<lparr>t_regions := delete_where p (t_regions d)\<rparr>"
    and free: "\<forall>r\<in>set (t_regions d). p r \<longrightarrow> (\<forall>c\<in>set (t_cells d). cl_RegionID c \<noteq> rg_ID r)"
    using assms(2) by (auto simp: del_regions_def list_ex_iff split: if_splits)
  show ?thesis
  proof (rule store_invI)
    show "keys_ok d'" using inv(1) by (simp add: keys_ok_def d' unique_on_delete)
    show "refs_ok d'" using inv(3) free by (simp add: refs_ok_def d' set_delete_where) metis
    show "tenancy_ok d'" using inv(6) by (auto simp: tenancy_ok_def d' set_delete_where)
  qed (use inv in \<open>simp_all add: d' indexes_ok_def app_defs\<close>)
qed

lemma ins_cell_inv:
  assumes "store_inv md d" "ins_cell c d = Inr (x, d')"
  shows "store_inv md d'"
proof -
  note inv = store_invE[OF assms(1)]
  have d': "d' = d\<lparr>t_cells := t_cells d @ [c]\<rparr>" and new: "\<forall>x\<in>set (t_cells d). cl_ID x \<noteq> cl_ID c"
    and ref: "\<exists>r\<in>set (t_regions d). rg_ID r = cl_RegionID c"
    using assms(2) by (auto simp: ins_cell_def list_ex_iff split: if_splits)
  show ?thesis
  proof (rule store_invI)
    show "keys_ok d'" using inv(1) new by (simp add: keys_ok_def d' unique_on_snoc)
    show "refs_ok d'" using inv(3) ref by (auto simp: refs_ok_def d')
    show "tenancy_ok d'" using inv(3,6) new unfolding tenancy_ok_def refs_ok_def d' by fastforce
  qed (use inv in \<open>simp_all add: d' indexes_ok_def app_defs\<close>)
qed

lemma del_cells_inv:
  assumes "store_inv md d" "del_cells p d = Inr (x, d')"
  shows "store_inv md d'"
proof -
  note inv = store_invE[OF assms(1)]
  have d': "d' = d\<lparr>t_cells := delete_where p (t_cells d)\<rparr>"
    and free: "\<forall>c\<in>set (t_cells d). p c \<longrightarrow> (\<forall>b\<in>set (t_branches d). br_cell b \<noteq> cl_ID c)"
    using assms(2) by (auto simp: del_cells_def list_ex_iff split: if_splits)
  show ?thesis
  proof (rule store_invI)
    show "keys_ok d'" using inv(1) by (simp add: keys_ok_def d' unique_on_delete)
    show "refs_ok d'" using inv(3) free by (simp add: refs_ok_def d' set_delete_where) metis
    show "tenancy_ok d'" using inv(6) by (auto simp: tenancy_ok_def d' set_delete_where)
  qed (use inv in \<open>simp_all add: d' indexes_ok_def app_defs\<close>)
qed

lemma ins_project_inv:
  assumes "store_inv md d" "ins_project r d = Inr (x, d')"
  shows "store_inv md d'"
proof -
  note inv = store_invE[OF assms(1)]
  have d': "d' = d\<lparr>t_projects := t_projects d @ [r]\<rparr>"
    and new: "\<forall>x\<in>set (t_projects d). pr_id x \<noteq> pr_id r"
    and uniq: "pr_active r \<longrightarrow> (\<forall>x\<in>set (t_projects d). pr_active x \<longrightarrow> org_name x \<noteq> org_name r)"
    and mins: "minutes_ok r"
    using assms(2) by (auto simp: ins_project_def list_ex_iff split: if_splits)
  have nobr: "\<forall>b\<in>set (t_branches d). br_project b \<noteq> pr_id r"
    using inv(3) new by (auto simp: refs_ok_def)
  show ?thesis
  proof (rule store_invI)
    show "keys_ok d'" using inv(1) new by (simp add: keys_ok_def d' unique_on_snoc)
    show "indexes_ok d'" using inv(2) uniq mins by (simp add: indexes_ok_def d' unique_on_snoc)
    show "refs_ok d'" using inv(3) by (auto simp: refs_ok_def d')
    show "live_ok d'" using inv(5) nobr by (auto simp: live_ok_def d')
    show "tenancy_ok d'" using inv(6) nobr by (auto simp: tenancy_ok_def d')
  qed (use inv in \<open>simp_all add: d' app_defs\<close>)
qed


lemma upd_projects_inv:
  assumes "store_inv md d" "upd_projects p f d = Inr (x, d')"
    and ids: "\<And>r. p r \<Longrightarrow> pr_id (f r) = pr_id r \<and> pr_org (f r) = pr_org r"
    and live: "\<And>r b. r \<in> set (t_projects d) \<Longrightarrow> p r \<Longrightarrow> pr_active r \<Longrightarrow> \<not> pr_active (f r) \<Longrightarrow>
      b \<in> set (t_branches d) \<Longrightarrow> br_project b = pr_id r \<Longrightarrow> \<not> br_active b"
  shows "store_inv md d'"
proof -
  note inv = store_invE[OF assms(1)]
  have d': "d' = d\<lparr>t_projects := update_where p f (t_projects d)\<rparr>"
    and uniq: "unique_on org_name pr_active (update_where p f (t_projects d))"
    and mins: "\<forall>r\<in>set (t_projects d). p r \<longrightarrow> minutes_ok (f r)"
    using assms(2) by (auto simp: upd_projects_def Let_def list_ex_iff split: if_splits)
  have ex: "(\<exists>r\<in>set (update_where p f (t_projects d)). pr_id r = i) = (\<exists>r\<in>set (t_projects d). pr_id r = i)" for i
    using ids by (auto simp: set_update_where)
  show ?thesis
  proof (rule store_invI)
    show "keys_ok d'" using inv(1) ids unfolding keys_ok_def d'
      by (auto intro!: unique_on_update_mono)
    show "indexes_ok d'" using inv(2) uniq mins by (auto simp: indexes_ok_def d' set_update_where)
    show "refs_ok d'" using inv(3) by (simp add: refs_ok_def d' ex)
    show "live_ok d'" using inv(5) ids live unfolding live_ok_def d'
      by (auto simp: set_update_where) metis
    show "tenancy_ok d'" using inv(6) ids unfolding tenancy_ok_def d'
      by (auto simp: set_update_where)
  qed (use inv in \<open>simp_all add: d' app_defs\<close>)
qed

lemma del_projects_inv:
  assumes "store_inv md d" "del_projects p d = Inr (x, d')"
  shows "store_inv md d'"
proof -
  note inv = store_invE[OF assms(1)]
  let ?gone = "\<lambda>m. list_ex (\<lambda>r. p r \<and> pr_id r = gm_Project m) (t_projects d)"
  have d': "d' = d\<lparr>t_projects := delete_where p (t_projects d),
        t_github_repositories := delete_where ?gone (t_github_repositories d)\<rparr>"
    and free: "\<forall>r\<in>set (t_projects d). p r \<longrightarrow> (\<forall>b\<in>set (t_branches d). br_project b \<noteq> pr_id r) \<and>
        (\<forall>k\<in>set (t_backups d). bk_project k \<noteq> pr_id r)"
    using assms(2) by (auto simp: del_projects_def list_ex_iff split: if_splits)
  show ?thesis
  proof (rule store_invI)
    show "keys_ok d'" using inv(1) by (simp add: keys_ok_def d' unique_on_delete)
    show "indexes_ok d'" using inv(2) by (auto simp: indexes_ok_def d' unique_on_delete set_delete_where)
    have kept: "\<exists>r\<in>set (t_projects d'). pr_id r = i" if "\<exists>r\<in>set (t_projects d). pr_id r = i"
        "\<forall>r\<in>set (t_projects d). p r \<longrightarrow> pr_id r \<noteq> i" for i
      using that by (auto simp: d' set_delete_where)
    note refs = inv(3)[unfolded refs_ok_def]
    show "refs_ok d'" unfolding refs_ok_def
    proof (intro conjI ballI)
      fix b assume "b \<in> set (t_branches d')"
      then have "b \<in> set (t_branches d)" by (simp add: d')
      then show "\<exists>r\<in>set (t_projects d'). pr_id r = br_project b" using refs free by (intro kept) metis+
    next
      fix k assume "k \<in> set (t_backups d')"
      then have "k \<in> set (t_backups d)" by (simp add: d')
      then show "\<exists>r\<in>set (t_projects d'). pr_id r = bk_project k" using refs free by (intro kept) metis+
    next
      fix m assume "m \<in> set (t_github_repositories d')"
      then have "m \<in> set (t_github_repositories d)" "\<not> ?gone m" by (simp_all add: d' set_delete_where)
      then show "\<exists>r\<in>set (t_projects d'). pr_id r = gm_Project m" using refs by (intro kept) (auto simp: list_ex_iff)
    qed (use refs in \<open>simp_all add: d'\<close>)
    show "live_ok d'" using inv(5) by (auto simp: live_ok_def d' set_delete_where)
    show "tenancy_ok d'" using inv(6) by (auto simp: tenancy_ok_def d' set_delete_where)
    show "links_ok d'" using inv(7) by (auto simp: links_ok_def d' set_delete_where)
  qed (use inv in \<open>simp_all add: d' app_defs\<close>)
qed

lemma ins_branch_inv:
  assumes "store_inv md d" "ins_branch b d = Inr (x, d')"
    and depth: "1 \<le> br_depth b" "br_depth b \<le> max 1 md"
    and parent: "\<And>q. br_parent b = Some q \<Longrightarrow> \<exists>a\<in>set (t_branches d).
      br_id a = q \<and> br_project a = br_project b \<and> br_depth b = br_depth a + 1"
    and live: "\<And>r. r \<in> set (t_projects d) \<Longrightarrow> pr_id r = br_project b \<Longrightarrow> pr_active r"
    and tenancy: "\<And>p c r. p \<in> set (t_projects d) \<Longrightarrow> c \<in> set (t_cells d) \<Longrightarrow> r \<in> set (t_regions d) \<Longrightarrow>
      pr_id p = br_project b \<Longrightarrow> cl_ID c = br_cell b \<Longrightarrow> rg_ID r = cl_RegionID c \<Longrightarrow> usable r (pr_org p)"
  shows "store_inv md d'"
proof -
  note inv = store_invE[OF assms(1)]
  have d': "d' = d\<lparr>t_branches := t_branches d @ [b]\<rparr>"
    and new: "\<forall>x\<in>set (t_branches d). br_id x \<noteq> br_id b"
    and uniq: "br_active b \<longrightarrow> (\<forall>x\<in>set (t_branches d). br_active x \<longrightarrow> proj_name x \<noteq> proj_name b)"
    and refs: "\<exists>r\<in>set (t_projects d). pr_id r = br_project b" "\<exists>c\<in>set (t_cells d). cl_ID c = br_cell b"
    using assms(2) by (auto simp: ins_branch_def list_ex_iff split: if_splits)
  show ?thesis
  proof (rule store_invI)
    show "keys_ok d'" using inv(1) new by (simp add: keys_ok_def d' unique_on_snoc)
    show "indexes_ok d'" using inv(2) uniq by (simp add: indexes_ok_def d' unique_on_snoc)
    show "refs_ok d'" using inv(3) refs by (auto simp: refs_ok_def d')
    show "tree_ok md d'" using inv(4) depth parent by (fastforce simp: tree_ok_def d')
    show "live_ok d'" using inv(5) live by (auto simp: live_ok_def d')
    show "tenancy_ok d'" using inv(6) tenancy by (auto simp: tenancy_ok_def d')
    show "links_ok d'" using inv(7) by (auto simp: links_ok_def d')
  qed
qed

lemma upd_branches_inv:
  assumes "store_inv md d" "upd_branches p f d = Inr (x, d')"
    and cols: "\<And>b. p b \<Longrightarrow> br_id (f b) = br_id b \<and> br_project (f b) = br_project b \<and>
      br_parent (f b) = br_parent b \<and> br_cell (f b) = br_cell b \<and> br_depth (f b) = br_depth b"
    and stat: "\<And>b. p b \<Longrightarrow> br_active (f b) \<Longrightarrow> br_active b"
  shows "store_inv md d'"
proof -
  note inv = store_invE[OF assms(1)]
  let ?g = "\<lambda>b. if p b then f b else b"
  have d': "d' = d\<lparr>t_branches := update_where p f (t_branches d)\<rparr>"
    and uniq: "unique_on proj_name br_active (update_where p f (t_branches d))"
    using assms(2) by (auto simp: upd_branches_def Let_def split: if_splits)
  have S: "set (t_branches d') = ?g ` set (t_branches d)" by (simp add: d' set_update_where)
  have g: "br_id (?g b) = br_id b" "br_project (?g b) = br_project b" "br_parent (?g b) = br_parent b"
    "br_cell (?g b) = br_cell b" "br_depth (?g b) = br_depth b" "br_active (?g b) \<Longrightarrow> br_active b" for b
    using cols[of b] stat[of b] by (auto split: if_splits)
  show ?thesis
  proof (rule store_invI)
    show "keys_ok d'" using inv(1) cols unfolding keys_ok_def d'
      by (auto intro!: unique_on_update_mono)
    show "indexes_ok d'" using inv(2) uniq by (simp add: indexes_ok_def d')
    show "refs_ok d'" using inv(3) unfolding refs_ok_def S ball_simps g(1-5) by (simp add: d')
    show "tree_ok md d'" using inv(4) unfolding tree_ok_def S ball_simps bex_simps g(1-5) .
    show "live_ok d'" unfolding live_ok_def
    proof (intro ballI impI)
      fix b r assume "b \<in> set (t_branches d')" and act: "br_active b"
        and r: "r \<in> set (t_projects d')" "pr_id r = br_project b"
      then obtain c where c: "c \<in> set (t_branches d)" "b = ?g c" unfolding S by blast
      then have "br_active c" "br_project b = br_project c" using g(6)[of c] g(2)[of c] act by (simp_all only:)
      with inv(5) c r show "pr_active r" unfolding live_ok_def by (simp add: d')
    qed
    show "tenancy_ok d'" using inv(6) unfolding tenancy_ok_def S ball_simps g(1-5) by (simp add: d')
    show "links_ok d'" using inv(7) unfolding links_ok_def S bex_simps g(1-5) by (simp add: d')
  qed
qed

lemma clear_parent_cols [simp]:
  "br_id (clear_parent g b) = br_id b" "br_project (clear_parent g b) = br_project b"
  "br_cell (clear_parent g b) = br_cell b" "br_depth (clear_parent g b) = br_depth b"
  "br_status (clear_parent g b) = br_status b" "br_name (clear_parent g b) = br_name b"
  by (simp_all add: clear_parent_def split: option.split)

lemma clear_branch_project [simp]: "bk_project (clear_branch g k) = bk_project k"
  by (simp add: clear_branch_def split: option.split)

lemma unique_on_map:
  assumes "\<And>r. k (f r) = k r" "\<And>r. p (f r) = p r"
  shows "unique_on k p (map f t) = unique_on k p t"
proof -
  have "map k (filter p (map f t)) = map k (filter p t)"
    by (induction t) (simp_all add: assms)
  then show ?thesis by (simp add: unique_on_def)
qed

lemma del_branches_inv:
  assumes "store_inv md d" "del_branches p d = Inr (x, d')"
  shows "store_inv md d'"
proof -
  note inv = store_invE[OF assms(1)]
  let ?gone = "map br_id (filter p (t_branches d))"
  have d': "d' = d\<lparr>t_branches := map (clear_parent ?gone) (delete_where p (t_branches d)),
          t_backups := map (clear_branch ?gone) (t_backups d),
          t_github_repositories := delete_where (\<lambda>m. gm_RootBranchID m \<in> set ?gone) (t_github_repositories d)\<rparr>"
    using assms(2) by (simp add: del_branches_def Let_def)
  have par: "br_parent (clear_parent ?gone b) = Some q \<longleftrightarrow> br_parent b = Some q \<and> q \<notin> set ?gone" for b q
    by (auto simp: clear_parent_def split: option.splits)
  have keep: "a \<in> set (t_branches d) \<Longrightarrow> br_id a \<notin> set ?gone \<Longrightarrow> \<not> p a" for a by auto
  show ?thesis
  proof (rule store_invI)
    show "keys_ok d'" using inv(1) by (simp add: keys_ok_def d' unique_on_delete unique_on_map)
    show "indexes_ok d'" using inv(2) by (simp add: indexes_ok_def d' unique_on_delete unique_on_map)
    show "refs_ok d'" using inv(3) by (simp add: refs_ok_def d' set_delete_where)
    show "tree_ok md d'" unfolding tree_ok_def
    proof (intro ballI conjI allI impI)
      fix b q assume "b \<in> set (t_branches d')" and q: "br_parent b = Some q"
      then obtain c where c: "c \<in> set (t_branches d)" "b = clear_parent ?gone c"
        by (auto simp: d' set_delete_where)
      then have "br_parent c = Some q" and qg: "q \<notin> set ?gone" using q par by auto
      with inv(4) c obtain a where a: "a \<in> set (t_branches d)" "br_id a = q" "br_project a = br_project c"
        "br_depth c = br_depth a + 1" unfolding tree_ok_def by blast
      then have "clear_parent ?gone a \<in> set (t_branches d')"
        using keep qg by (auto simp: d' set_delete_where)
      with a c show "\<exists>a\<in>set (t_branches d'). br_id a = q \<and> br_project a = br_project b \<and> br_depth b = br_depth a + 1"
        by (intro bexI[of _ "clear_parent ?gone a"]) simp_all
    qed (use inv(4) in \<open>auto simp: tree_ok_def d' set_delete_where\<close>)
    show "live_ok d'" using inv(5) by (auto simp: live_ok_def d' set_delete_where)
    show "tenancy_ok d'" using inv(6) by (auto simp: tenancy_ok_def d' set_delete_where)
    show "links_ok d'" using inv(7) keep unfolding links_ok_def d'
      by (simp add: set_delete_where) metis
  qed
qed


lemma del_backups_inv:
  assumes "store_inv md d" "del_backups p d = Inr (x, d')"
  shows "store_inv md d'"
proof -
  note inv = store_invE[OF assms(1)]
  have d': "d' = d\<lparr>t_backups := delete_where p (t_backups d)\<rparr>" using assms(2) by (simp add: del_backups_def)
  show ?thesis
  proof (rule store_invI)
    show "keys_ok d'" using inv(1) by (simp add: keys_ok_def d' unique_on_delete)
    show "indexes_ok d'" using inv(2) by (simp add: indexes_ok_def d' unique_on_delete set_delete_where)
    show "refs_ok d'" using inv(3) by (simp add: refs_ok_def d' set_delete_where)
    show "links_ok d'" using inv(7) by (simp add: links_ok_def d' set_delete_where)
  qed (use inv in \<open>simp_all add: d' tree_ok_def live_ok_def tenancy_ok_def\<close>)
qed

lemma ins_installation_inv:
  assumes "store_inv md d" "ins_installation g d = Inr (x, d')"
  shows "store_inv md d'"
proof -
  note inv = store_invE[OF assms(1)]
  have d': "d' = d\<lparr>t_github_installations := t_github_installations d @ [g]\<rparr>"
    and new: "\<forall>x\<in>set (t_github_installations d). gi_ID x \<noteq> gi_ID g"
      "\<forall>x\<in>set (t_github_installations d). gi_InstallationID x \<noteq> gi_InstallationID g"
    using assms(2) by (auto simp: ins_installation_def list_ex_iff split: if_splits)
  show ?thesis
  proof (rule store_invI)
    show "keys_ok d'" using inv(1) new by (simp add: keys_ok_def d' unique_on_snoc)
    show "indexes_ok d'" using inv(2) new by (simp add: indexes_ok_def d' unique_on_snoc)
  qed (use inv in \<open>simp_all add: d' refs_ok_def app_defs\<close>)
qed

lemma upd_installations_inv:
  assumes "store_inv md d" "upd_installations p f d = Inr (x, d')"
    and ids: "\<And>g. p g \<Longrightarrow> gi_ID (f g) = gi_ID g"
  shows "store_inv md d'"
proof -
  note inv = store_invE[OF assms(1)]
  have d': "d' = d\<lparr>t_github_installations := update_where p f (t_github_installations d)\<rparr>"
    and uniq: "unique_on gi_InstallationID anyrow (update_where p f (t_github_installations d))"
    using assms(2) by (auto simp: upd_installations_def Let_def split: if_splits)
  show ?thesis
  proof (rule store_invI)
    show "keys_ok d'" using inv(1) ids unfolding keys_ok_def d' by (auto intro!: unique_on_update_mono)
    show "indexes_ok d'" using inv(2) uniq by (simp add: indexes_ok_def d')
  qed (use inv in \<open>simp_all add: d' refs_ok_def app_defs\<close>)
qed

lemma del_installations_inv:
  assumes "store_inv md d" "del_installations p d = Inr (x, d')"
  shows "store_inv md d'"
proof -
  note inv = store_invE[OF assms(1)]
  have d': "d' = d\<lparr>t_github_installations := delete_where p (t_github_installations d)\<rparr>" using assms(2) by (simp add: del_installations_def)
  show ?thesis
  proof (rule store_invI)
    show "keys_ok d'" using inv(1) by (simp add: keys_ok_def d' unique_on_delete)
    show "indexes_ok d'" using inv(2) by (simp add: indexes_ok_def d' unique_on_delete set_delete_where)
    show "refs_ok d'" using inv(3) by (simp add: refs_ok_def d' set_delete_where)
    show "links_ok d'" using inv(7) by (simp add: links_ok_def d' set_delete_where)
  qed (use inv in \<open>simp_all add: d' tree_ok_def live_ok_def tenancy_ok_def\<close>)
qed

lemma ins_repo_inv:
  assumes "store_inv md d" "ins_repo m d = Inr (x, d')"
    and link: "\<exists>b\<in>set (t_branches d). br_id b = gm_RootBranchID m \<and> br_project b = gm_Project m"
  shows "store_inv md d'"
proof -
  note inv = store_invE[OF assms(1)]
  have d': "d' = d\<lparr>t_github_repositories := t_github_repositories d @ [m]\<rparr>"
    and new: "\<forall>x\<in>set (t_github_repositories d). gm_ID x \<noteq> gm_ID m"
      "\<forall>x\<in>set (t_github_repositories d). gm_Project x \<noteq> gm_Project m"
      "\<forall>x\<in>set (t_github_repositories d). gm_GithubRepositoryID x \<noteq> gm_GithubRepositoryID m"
    and ref: "\<exists>r\<in>set (t_projects d). pr_id r = gm_Project m"
    using assms(2) by (auto simp: ins_repo_def list_ex_iff split: if_splits)
  show ?thesis
  proof (rule store_invI)
    show "keys_ok d'" using inv(1) new by (simp add: keys_ok_def d' unique_on_snoc)
    show "indexes_ok d'" using inv(2) new by (simp add: indexes_ok_def d' unique_on_snoc)
    show "refs_ok d'" using inv(3) ref by (auto simp: refs_ok_def d')
    show "links_ok d'" using inv(7) link by (auto simp: links_ok_def d')
  qed (use inv in \<open>simp_all add: d' tree_ok_def live_ok_def tenancy_ok_def\<close>)
qed

lemma upd_repos_inv:
  assumes "store_inv md d" "upd_repos p f d = Inr (x, d')"
    and ids: "\<And>m. p m \<Longrightarrow> gm_ID (f m) = gm_ID m \<and> gm_Project (f m) = gm_Project m"
    and link: "\<And>m. m \<in> set (t_github_repositories d) \<Longrightarrow> p m \<Longrightarrow>
      \<exists>b\<in>set (t_branches d). br_id b = gm_RootBranchID (f m) \<and> br_project b = gm_Project m"
  shows "store_inv md d'"
proof -
  note inv = store_invE[OF assms(1)]
  have d': "d' = d\<lparr>t_github_repositories := update_where p f (t_github_repositories d)\<rparr>"
    and uniq: "unique_on gm_GithubRepositoryID anyrow (update_where p f (t_github_repositories d))"
    using assms(2) by (auto simp: upd_repos_def Let_def split: if_splits)
  show ?thesis
  proof (rule store_invI)
    show "keys_ok d'" using inv(1) ids unfolding keys_ok_def d' by (auto intro!: unique_on_update_mono)
    show "indexes_ok d'" using inv(2) uniq ids unfolding indexes_ok_def d'
      by (auto intro!: unique_on_update_mono)
    show "refs_ok d'" using inv(3) ids by (auto simp: refs_ok_def d' set_update_where)
    show "links_ok d'" using inv(7) ids link by (auto simp: links_ok_def d' set_update_where)
  qed (use inv in \<open>simp_all add: d' tree_ok_def live_ok_def tenancy_ok_def\<close>)
qed

lemma del_repos_inv:
  assumes "store_inv md d" "del_repos p d = Inr (x, d')"
  shows "store_inv md d'"
proof -
  note inv = store_invE[OF assms(1)]
  have d': "d' = d\<lparr>t_github_repositories := delete_where p (t_github_repositories d)\<rparr>" using assms(2) by (simp add: del_repos_def)
  show ?thesis
  proof (rule store_invI)
    show "keys_ok d'" using inv(1) by (simp add: keys_ok_def d' unique_on_delete)
    show "indexes_ok d'" using inv(2) by (simp add: indexes_ok_def d' unique_on_delete set_delete_where)
    show "refs_ok d'" using inv(3) by (simp add: refs_ok_def d' set_delete_where)
    show "links_ok d'" using inv(7) by (simp add: links_ok_def d' set_delete_where)
  qed (use inv in \<open>simp_all add: d' tree_ok_def live_ok_def tenancy_ok_def\<close>)
qed

text \<open>The limits and status tables take part in no reference: only their own key matters.\<close>

lemma set_limits_inv:
  assumes "store_inv md d" "unique_on (\<lambda>r. (ol_org r, ol_project r)) anyrow t"
  shows "store_inv md (d\<lparr>t_organization_limits := t\<rparr>)"
  using store_invE[OF assms(1)] assms(2) by (intro store_invI) (simp_all add: schema_defs app_defs)

lemma set_statuses_inv:
  assumes "store_inv md d" "unique_on os_OrganizationID anyrow t"
  shows "store_inv md (d\<lparr>t_organization_statuses := t\<rparr>)"
  using store_invE[OF assms(1)] assms(2) by (intro store_invI) (simp_all add: schema_defs app_defs)

end
