(* ===== verification/Store_Regions.thy ===== *)
theory Store_Regions
  imports Store_Schema
begin

text \<open>
  Regions and cells of \<open>services/projects/store/sqlstore/store_sql.go\<close>.  A region belongs to one
  organization or, with no organization, is open to all of them; a cell belongs to a region.  The
  collation of the database's text columns is a parameter (\<open>coll\<close>) of the two queries with
  \<open>ORDER BY id\<close>; a query without \<open>ORDER BY\<close> returns the rows in the order of the table.  The queries
  on regions and cells never ask \<open>rows.Err()\<close>.
\<close>

section \<open>Operations\<close>

definition IsConstraintError :: "sqlerr \<Rightarrow> string \<Rightarrow> bool" where
  "IsConstraintError e constraint \<longleftrightarrow> e = UniqueViolation constraint"

definition or_no_rows :: "goerr \<Rightarrow> sqlerr \<Rightarrow> goerr" where
  "or_no_rows notFound e = (if e = NoRows then notFound else ErrSql e)"

definition ListRegions :: "(string \<Rightarrow> 'k::linorder) \<Rightarrow> string \<Rightarrow> ('w, Region list) cmd" where
  "ListRegions coll organizationID = query_rows None Pool
     (\<lambda>d. sort_key (\<lambda>r. coll (rg_ID r)) (filter (\<lambda>r. usable r organizationID) (t_regions d))) ErrSql"

definition ListAllRegions :: "(string \<Rightarrow> 'k::linorder) \<Rightarrow> ('w, Region list) cmd" where
  "ListAllRegions coll = query_rows None Pool (\<lambda>d. sort_key (\<lambda>r. coll (rg_ID r)) (t_regions d)) ErrSql"

definition region_conv :: "string \<Rightarrow> sqlerr \<Rightarrow> goerr" where
  "region_conv regionID e =
     (if IsConstraintError e ''regions_pkey'' then ErrRegionAlreadyExists regionID else ErrSql e)"

definition CreateRegion :: "string \<Rightarrow> RegionFlags \<Rightarrow> string \<Rightarrow> ('w, Region) cmd" where
  "CreateRegion regionID flags hostport =
     andthen (lift_res (ParseProvider (flag_Provider flags))) (\<lambda>provider.
     andthen get_now (\<lambda>now.
     exec Pool (ins_region \<lparr>rg_ID = regionID, rg_PublicAccess = flag_PublicAccess flags,
         rg_BackupsEnabled = flag_BackupsEnabled flags, rg_Provider = provider,
         rg_GatewayHostPort = hostport, rg_CreatedAt = now, rg_OrganizationID = None\<rparr>)
       (region_conv regionID)))"

definition CreateOrganizationRegion :: "string \<Rightarrow> string \<Rightarrow> RegionFlags \<Rightarrow> string \<Rightarrow> ('w, Region) cmd" where
  "CreateOrganizationRegion organizationID regionID flags hostport =
     andthen (lift_res (ParseProvider (flag_Provider flags))) (\<lambda>provider.
     andthen get_now (\<lambda>now.
     exec Pool (ins_region \<lparr>rg_ID = regionID, rg_PublicAccess = flag_PublicAccess flags,
         rg_BackupsEnabled = flag_BackupsEnabled flags, rg_Provider = provider,
         rg_GatewayHostPort = hostport, rg_CreatedAt = now, rg_OrganizationID = Some organizationID\<rparr>)
       (region_conv regionID)))"

definition DeleteRegion :: "string \<Rightarrow> ('w, unit) cmd" where
  "DeleteRegion regionID =
     andthen (exec Pool (del_regions (\<lambda>r. rg_ID r = regionID))
       (\<lambda>e. Wrap ''failed to delete region'' (ErrSql e))) (\<lambda>count.
     fail_if (count = 0) (ErrRegionNotFound regionID))"

definition GetRegion :: "string \<Rightarrow> string \<Rightarrow> ('w, Region) cmd" where
  "GetRegion organizationID regionID =
     query Pool (\<lambda>d. one_row (find (\<lambda>r. rg_ID r = regionID \<and> usable r organizationID) (t_regions d)))
       (or_no_rows (ErrRegionNotFound regionID))"

text \<open>\<open>cells c INNER JOIN regions r ON c.region_id = r.id\<close>, restricted by \<open>p\<close>.\<close>

definition cells_join :: "(Cell \<Rightarrow> Region \<Rightarrow> bool) \<Rightarrow> db \<Rightarrow> Cell list" where
  "cells_join p d = concat (map (\<lambda>c. map (\<lambda>_. c)
     (filter (\<lambda>r. cl_RegionID c = rg_ID r \<and> p c r) (t_regions d))) (t_cells d))"

definition ListCells :: "string \<Rightarrow> string \<Rightarrow> ('w, Cell list) cmd" where
  "ListCells organizationID regionID = query_rows None Pool
     (cells_join (\<lambda>c r. cl_RegionID c = regionID \<and> usable r organizationID)) ErrSql"

definition ListAllCells :: "('w, Cell list) cmd" where
  "ListAllCells = query_rows None Pool t_cells ErrSql"

definition CreateCell :: "string \<Rightarrow> string \<Rightarrow> string \<Rightarrow> string option \<Rightarrow> ('w, Cell) cmd" where
  "CreateCell regionID cellID grpcURL subdomain =
     andthen get_now (\<lambda>now.
     exec Pool (ins_cell \<lparr>cl_ID = cellID, cl_RegionID = regionID, cl_CreatedAt = now,
         cl_ClustersGRPCURL = grpcURL, cl_Subdomain = subdomain\<rparr>)
       (\<lambda>e. if IsConstraintError e ''cells_pkey'' then ErrCellAlreadyExists cellID else ErrSql e))"

text \<open>\<open>getCell\<close> of the code, named apart from \<open>GetCell\<close> as there.\<close>

definition getCell :: "string \<Rightarrow> string \<Rightarrow> ('w, Cell) cmd" where
  "getCell organizationID cellID = query Tx
     (\<lambda>d. one_row (first_row (cells_join (\<lambda>c r. cl_ID c = cellID \<and> usable r organizationID) d)))
     (or_no_rows (ErrCellNotFound cellID))"

definition GetCell :: "string \<Rightarrow> string \<Rightarrow> ('w, Cell) cmd" where
  "GetCell organizationID cellID = with_tx (getCell organizationID cellID)"

definition DeleteCell :: "string \<Rightarrow> ('w, unit) cmd" where
  "DeleteCell cellID =
     andthen (exec Pool (del_cells (\<lambda>c. cl_ID c = cellID))
       (\<lambda>e. Wrap ''failed to delete cell'' (ErrSql e))) (\<lambda>count.
     fail_if (count = 0) (ErrCellNotFound cellID))"

section \<open>The invariant and atomicity\<close>

lemma confined_getCell [confined_intros]: "confined (getCell org cellID)"
  unfolding getCell_def by (intro confined_intros)

lemma quiet_ListRegions [quiet_intros]: "quiet (ListRegions coll org)"
  unfolding ListRegions_def by (intro quiet_intros)

lemma quiet_ListAllRegions [quiet_intros]: "quiet (ListAllRegions coll)"
  unfolding ListAllRegions_def by (intro quiet_intros)

lemma quiet_GetRegion [quiet_intros]: "quiet (GetRegion org regionID)"
  unfolding GetRegion_def by (intro quiet_intros)

lemma quiet_ListCells [quiet_intros]: "quiet (ListCells org regionID)"
  unfolding ListCells_def by (intro quiet_intros)

lemma quiet_ListAllCells [quiet_intros]: "quiet ListAllCells"
  unfolding ListAllCells_def by (intro quiet_intros)

lemma quiet_GetCell [quiet_intros]: "quiet (GetCell org cellID)"
  unfolding GetCell_def by (intro quiet_intros confined_getCell)

lemma keeps_CreateRegion: "op_keeps (store_inv md) (CreateRegion regionID flags hostport)"
  unfolding CreateRegion_def
  by (intro op_keeps_andthen op_keeps_exec quiet_op_keeps quiet_simple) (rule ins_region_inv)

lemma keeps_CreateOrganizationRegion:
  "op_keeps (store_inv md) (CreateOrganizationRegion org regionID flags hostport)"
  unfolding CreateOrganizationRegion_def
  by (intro op_keeps_andthen op_keeps_exec quiet_op_keeps quiet_simple) (rule ins_region_inv)

lemma keeps_DeleteRegion: "op_keeps (store_inv md) (DeleteRegion regionID)"
  unfolding DeleteRegion_def
  by (intro op_keeps_andthen op_keeps_exec quiet_op_keeps quiet_simple) (rule del_regions_inv)

lemma keeps_CreateCell: "op_keeps (store_inv md) (CreateCell regionID cellID url sub)"
  unfolding CreateCell_def
  by (intro op_keeps_andthen op_keeps_exec quiet_op_keeps quiet_simple) (rule ins_cell_inv)

lemma keeps_DeleteCell: "op_keeps (store_inv md) (DeleteCell cellID)"
  unfolding DeleteCell_def
  by (intro op_keeps_andthen op_keeps_exec quiet_op_keeps quiet_simple) (rule del_cells_inv)

lemma atomic_CreateRegion: "atomic (CreateRegion regionID flags hostport)"
  unfolding CreateRegion_def by (intro atomic_quiet_andthen quiet_simple atomic_exec)

lemma atomic_CreateOrganizationRegion: "atomic (CreateOrganizationRegion org regionID flags hostport)"
  unfolding CreateOrganizationRegion_def by (intro atomic_quiet_andthen quiet_simple atomic_exec)

lemma atomic_CreateCell: "atomic (CreateCell regionID cellID url sub)"
  unfolding CreateCell_def by (intro atomic_quiet_andthen quiet_simple atomic_exec)

lemma atomic_DeleteRegion: "atomic (DeleteRegion regionID)"
  unfolding DeleteRegion_def
  by (rule atomic_exec_andthen[OF quiet_simple(5)])
    (auto simp: del_regions_def delete_where_none split: if_splits dest: fail_if_Inl)

lemma atomic_DeleteCell: "atomic (DeleteCell cellID)"
  unfolding DeleteCell_def
  by (rule atomic_exec_andthen[OF quiet_simple(5)])
    (auto simp: del_cells_def delete_where_none split: if_splits dest: fail_if_Inl)

section \<open>Tenancy of regions and cells\<close>

lemma set_cells_join:
  "set (cells_join p d) = {c \<in> set (t_cells d). \<exists>r\<in>set (t_regions d). cl_RegionID c = rg_ID r \<and> p c r}"
  by (auto simp: cells_join_def)

text \<open>What \<open>getCell\<close> promises its callers inside a transaction.\<close>

lemma tx_getCell:
  "tx_triple P (getCell org cellID) (\<lambda>c d. P d \<and> cl_ID c = cellID \<and> c \<in> set (t_cells d) \<and>
     (\<exists>r\<in>set (t_regions d). cl_RegionID c = rg_ID r \<and> usable r org))"
  unfolding getCell_def
  by (rule tx_query) (auto simp: one_row_def set_cells_join dest!: first_row_SomeD split: option.splits)

end
