(* ===== verification/Store_Limits.thy ===== *)
theory Store_Limits
  imports Store_Regions
begin

text \<open>
  Limit overrides, the counts they are compared with and the two checks that guard the creation of
  projects and branches (\<open>store_sql.go\<close>).  An override row holds a JSON object; \<open>valueJSON\<close> is the
  result of \<open>json.Marshal\<close> on the value given to \<open>SetOrgLimit\<close>.  Times are microseconds and
  \<open>NOW()\<close> is the clock of the session.
\<close>

abbreviation hour_us :: int where "hour_us \<equiv> 3600000000"

section \<open>Operations\<close>

text \<open>The loop over the rows: at most one of them is the organization's own row.\<close>

definition limits_step ::
  "limits_row \<Rightarrow> (LimitKey \<rightharpoonup> jval) \<times> (LimitKey \<rightharpoonup> jval) \<Rightarrow> (LimitKey \<rightharpoonup> jval) \<times> (LimitKey \<rightharpoonup> jval)" where
  "limits_step row acc = (if ol_project row = '''' then (ol_limits row, snd acc) else (fst acc, ol_limits row))"

definition merge_limits :: "limits_row list \<Rightarrow> (LimitKey \<rightharpoonup> jval)" where
  "merge_limits rows = (case fold limits_step rows (Map.empty, Map.empty) of (orgLimits, projectLimits) \<Rightarrow> orgLimits ++ projectLimits)"

definition getOrgLimits :: "querier \<Rightarrow> string \<Rightarrow> string \<Rightarrow> ('w, LimitKey \<rightharpoonup> jval) cmd" where
  "getOrgLimits q orgID projectID =
     andthen (query_rows (Some (\<lambda>e. Wrap ''iterate org limits'' (ErrSql e))) q (\<lambda>d. filter (\<lambda>r. ol_org r = orgID \<and> (ol_project r = '''' \<or> ol_project r = projectID))
         (t_organization_limits d)) (\<lambda>e. Wrap ''query org limits'' (ErrSql e))) (\<lambda>rows.
     ret (merge_limits rows))"

definition GetOrgLimits :: "string \<Rightarrow> string \<Rightarrow> ('w, LimitKey \<rightharpoonup> jval) cmd" where
  "GetOrgLimits orgID projectID = getOrgLimits Pool orgID projectID"

definition limits_at :: "string \<Rightarrow> string \<Rightarrow> limits_row \<Rightarrow> bool" where
  "limits_at orgID projectID r \<longleftrightarrow> ol_org r = orgID \<and> ol_project r = projectID"

text \<open>\<open>INSERT ... ON CONFLICT (organization_id, project_id) DO UPDATE\<close>.\<close>

definition upsert_limit :: "string \<Rightarrow> string \<Rightarrow> LimitKey \<Rightarrow> jval \<Rightarrow> (db, unit) stmt" where
  "upsert_limit orgID projectID key v d = Inr ((), d\<lparr>t_organization_limits :=
     (if list_ex (limits_at orgID projectID) (t_organization_limits d)
      then update_where (limits_at orgID projectID) (\<lambda>r. r\<lparr>ol_limits := (ol_limits r)(key \<mapsto> v)\<rparr>) (t_organization_limits d)
      else t_organization_limits d @ [\<lparr>ol_org = orgID, ol_project = projectID, ol_limits = [key \<mapsto> v]\<rparr>])\<rparr>)"

definition SetOrgLimit :: "string \<Rightarrow> string \<Rightarrow> LimitKey \<Rightarrow> goerr + jval \<Rightarrow> ('w, unit) cmd" where
  "SetOrgLimit orgID projectID key valueJSON =
     andthen (fail_if (\<not> IsValid key) (Errorf (''unknown limit key '' @ key))) (\<lambda>_.
     andthen (map_err (Wrap ''marshal limit value'') (lift_res valueJSON)) (\<lambda>v.
     exec Pool (upsert_limit orgID projectID key v) (\<lambda>e. Wrap ''set org limit'' (ErrSql e))))"

definition DeleteOrgLimit :: "string \<Rightarrow> string \<Rightarrow> LimitKey \<Rightarrow> ('w, unit) cmd" where
  "DeleteOrgLimit orgID projectID key =
     exec Pool (\<lambda>d. Inr ((), d\<lparr>t_organization_limits :=
       update_where (limits_at orgID projectID) (\<lambda>r. r\<lparr>ol_limits := (ol_limits r)(key := None)\<rparr>)
         (t_organization_limits d)\<rparr>)) (\<lambda>e. Wrap ''delete org limit'' (ErrSql e))"

subsection \<open>Counts\<close>

text \<open>\<open>branches b INNER JOIN projects p ON b.project_id = p.id\<close>, restricted by \<open>p\<close>.\<close>

definition count_join :: "(branch_row \<Rightarrow> project_row \<Rightarrow> bool) \<Rightarrow> db \<Rightarrow> int" where
  "count_join p d = int (sum_list (map (\<lambda>b.
     count_where (\<lambda>r. br_project b = pr_id r \<and> p b r) (t_projects d)) (t_branches d)))"

definition count_query :: "string \<Rightarrow> querier \<Rightarrow> (int \<Rightarrow> db \<Rightarrow> int) \<Rightarrow> ('w, int) cmd" where
  "count_query what q f = andthen get_now (\<lambda>now. query q (\<lambda>d. Inr (f now d)) (\<lambda>e. Wrap what (ErrSql e)))"

definition CountActiveProjectBranches :: "string \<Rightarrow> ('w, int) cmd" where
  "CountActiveProjectBranches projectID = count_query ''count active project branches'' Pool
     (\<lambda>now d. int (count_where (\<lambda>b. br_project b = projectID \<and> br_active b) (t_branches d)))"

definition CountOrganizationBranches :: "string \<Rightarrow> ('w, int) cmd" where
  "CountOrganizationBranches organizationID = count_query ''count organization branches'' Pool
     (\<lambda>now. count_join (\<lambda>b p. pr_org p = organizationID))"

definition CountActiveOrgBranches :: "string \<Rightarrow> ('w, int) cmd" where
  "CountActiveOrgBranches organizationID = count_query ''count active org branches'' Pool
     (\<lambda>now. count_join (\<lambda>b p. pr_org p = organizationID \<and> br_active b))"

definition countActiveOrgProjects :: "querier \<Rightarrow> string \<Rightarrow> ('w, int) cmd" where
  "countActiveOrgProjects q organizationID = count_query ''count active org projects'' q
     (\<lambda>now d. int (count_where (\<lambda>p. pr_org p = organizationID \<and> pr_active p) (t_projects d)))"

definition CountActiveOrgProjects :: "string \<Rightarrow> ('w, int) cmd" where
  "CountActiveOrgProjects organizationID = countActiveOrgProjects Pool organizationID"

definition CountBranchesCreatedInLastHour :: "string \<Rightarrow> ('w, int) cmd" where
  "CountBranchesCreatedInLastHour organizationID = count_query ''count branches created in last hour'' Pool
     (\<lambda>now. count_join (\<lambda>b p. pr_org p = organizationID \<and> br_created b > now - hour_us))"

definition countProjectsCreatedInLastHour :: "querier \<Rightarrow> string \<Rightarrow> ('w, int) cmd" where
  "countProjectsCreatedInLastHour q organizationID = count_query ''count projects created in last hour'' q
     (\<lambda>now d. int (count_where (\<lambda>p. pr_org p = organizationID \<and> pr_created p > now - hour_us) (t_projects d)))"

definition CountProjectsCreatedInLastHour :: "string \<Rightarrow> ('w, int) cmd" where
  "CountProjectsCreatedInLastHour organizationID = countProjectsCreatedInLastHour Pool organizationID"

subsection \<open>The two checks\<close>

definition enforceProjectCreationLimits :: "querier \<Rightarrow> string \<Rightarrow> string \<Rightarrow> ('w, unit) cmd" where
  "enforceProjectCreationLimits q organizationID usageTier =
     (let tier = fst (ParseUsageTier usageTier) in
      andthen (if tier \<noteq> TierT1 then map_err (Wrap ''get org limits'') (getOrgLimits q organizationID '''')
               else ret Map.empty) (\<lambda>overrides.
      let maxProjects = ResolveIntLimit overrides LimitMaxProjects (TierDefaultInt tier LimitMaxProjects 0);
          maxPerHour = ResolveIntLimit overrides LimitMaxProjectsPerHour (TierDefaultInt tier LimitMaxProjectsPerHour 0) in
      andthen (if maxProjects \<noteq> 0 then
          andthen (map_err (Wrap ''count active org projects'') (countActiveOrgProjects q organizationID)) (\<lambda>count.
          fail_if (count \<ge> maxProjects) (ErrOrgProjectLimitExceeded organizationID maxProjects))
        else ret ()) (\<lambda>_.
      if maxPerHour \<noteq> 0 then
        andthen (map_err (Wrap ''count projects created in last hour'') (countProjectsCreatedInLastHour q organizationID)) (\<lambda>count.
        fail_if (count \<ge> maxPerHour) (ErrProjectRateLimitExceeded organizationID maxPerHour))
      else ret ())))"

definition enforceBranchCreationLimits :: "string \<Rightarrow> string \<Rightarrow> OrgLimits \<Rightarrow> ('w, unit) cmd" where
  "enforceBranchCreationLimits organizationID projectID limits =
     andthen (map_err (Wrap ''count active org branches'') (CountActiveOrgBranches organizationID)) (\<lambda>count.
     andthen (fail_if (count \<ge> MaxBranchesPerOrg limits)
       (ErrOrgBranchLimitExceeded organizationID (MaxBranchesPerOrg limits))) (\<lambda>_.
     andthen (map_err (Wrap ''count branches created in last hour'') (CountBranchesCreatedInLastHour organizationID)) (\<lambda>count.
     andthen (fail_if (count \<ge> MaxBranchesPerHour limits)
       (ErrBranchRateLimitExceeded organizationID (MaxBranchesPerHour limits))) (\<lambda>_.
     andthen (map_err (Wrap ''count active project branches'') (CountActiveProjectBranches projectID)) (\<lambda>count.
     fail_if (count \<ge> MaxBranchesPerProject limits)
       (ErrTooManyBranches projectID (MaxBranchesPerProject limits)))))))"

section \<open>The invariant and atomicity\<close>

lemma quiet_count_query [quiet_intros]: "quiet (count_query what Pool f)"
  unfolding count_query_def by (intro quiet_intros)

lemma tx_count_query [tx_intros]:
  "tx_triple P (count_query what Tx f) (\<lambda>n d. P d \<and> (\<exists>now. n = f now d))"
  unfolding count_query_def
  by (rule tx_andthen[where R = "\<lambda>_. P"]) (auto intro!: tx_intros)

lemma confined_count_query [confined_intros]: "confined (count_query what Tx f)"
  unfolding count_query_def by (intro confined_intros)

lemma confined_enforceProjectCreationLimits [confined_intros]: "confined (enforceProjectCreationLimits Tx org usageTier)"
  unfolding enforceProjectCreationLimits_def getOrgLimits_def countActiveOrgProjects_def
    countProjectsCreatedInLastHour_def Let_def
  by (intro confined_intros)

lemma quiet_getOrgLimits [quiet_intros]: "quiet (getOrgLimits Pool org pid)"
  unfolding getOrgLimits_def by (intro quiet_intros)

lemma quiet_GetOrgLimits [quiet_intros]: "quiet (GetOrgLimits org pid)"
  unfolding GetOrgLimits_def by (intro quiet_intros)

lemmas count_defs = CountActiveProjectBranches_def CountOrganizationBranches_def CountActiveOrgBranches_def
  countActiveOrgProjects_def CountActiveOrgProjects_def CountBranchesCreatedInLastHour_def
  countProjectsCreatedInLastHour_def CountProjectsCreatedInLastHour_def

lemma quiet_counts [quiet_intros]:
  "quiet (CountActiveProjectBranches pid)" "quiet (CountOrganizationBranches org)"
  "quiet (CountActiveOrgBranches org)" "quiet (CountActiveOrgProjects org)"
  "quiet (CountBranchesCreatedInLastHour org)" "quiet (CountProjectsCreatedInLastHour org)"
  unfolding count_defs by (rule quiet_count_query)+

lemma quiet_enforceBranchCreationLimits [quiet_intros]: "quiet (enforceBranchCreationLimits org pid l)"
  unfolding enforceBranchCreationLimits_def by (intro quiet_intros)

lemma limits_keys: "store_inv md d \<Longrightarrow> unique_on (\<lambda>r. (ol_org r, ol_project r)) anyrow (t_organization_limits d)"
  by (simp add: store_inv_def schema_ok_def keys_ok_def)

lemma upsert_limit_keys:
  assumes "unique_on (\<lambda>r. (ol_org r, ol_project r)) anyrow (t_organization_limits d)"
    "upsert_limit org pid key w d = Inr (u, d')"
  shows "unique_on (\<lambda>r. (ol_org r, ol_project r)) anyrow (t_organization_limits d')"
  using assms by (auto simp: upsert_limit_def list_ex_iff limits_at_def unique_on_snoc
      intro!: unique_on_update_mono)

lemma keeps_SetOrgLimit: "op_keeps (store_inv md) (SetOrgLimit org pid key v)"
proof -
  have "store_inv md d'" if "store_inv md d" "upsert_limit org pid key w d = Inr (u, d')" for d d' u w
  proof -
    have "d' = d\<lparr>t_organization_limits := t_organization_limits d'\<rparr>"
      using that(2) by (auto simp: upsert_limit_def)
    then show ?thesis
      using set_limits_inv[OF that(1) upsert_limit_keys[OF limits_keys[OF that(1)] that(2)]] by metis
  qed
  then show ?thesis unfolding SetOrgLimit_def
    by (intro op_keeps_andthen op_keeps_exec quiet_op_keeps quiet_intros)
qed

lemma keeps_DeleteOrgLimit: "op_keeps (store_inv md) (DeleteOrgLimit org pid key)"
  unfolding DeleteOrgLimit_def
  by (rule op_keeps_exec) (auto intro!: set_limits_inv unique_on_update_mono dest: limits_keys)

lemma atomic_SetOrgLimit: "atomic (SetOrgLimit org pid key v)"
  unfolding SetOrgLimit_def by (intro atomic_quiet_andthen quiet_intros atomic_exec)

lemma atomic_DeleteOrgLimit: "atomic (DeleteOrgLimit org pid key)"
  unfolding DeleteOrgLimit_def by (rule atomic_exec)

section \<open>Which override applies\<close>

text \<open>The override an organization and a project see for a key: the project's row first, then the organization's.\<close>

definition row_limit :: "limits_row list \<Rightarrow> string \<Rightarrow> string \<Rightarrow> LimitKey \<Rightarrow> jval option" where
  "row_limit t orgID projectID key =
     (case find (limits_at orgID projectID) t of None \<Rightarrow> None | Some r \<Rightarrow> ol_limits r key)"

definition effective :: "limits_row list \<Rightarrow> string \<Rightarrow> string \<Rightarrow> LimitKey \<Rightarrow> jval option" where
  "effective t orgID projectID key =
     coalesce_opt (row_limit t orgID projectID key) (row_limit t orgID '''' key)"

lemma fold_limits_step:
  assumes "distinct (map ol_project rows)" "set (map ol_project rows) \<subseteq> {'''', pid}"
  shows "fold limits_step rows (a, b) =
    ((case find (\<lambda>r. ol_project r = '''') rows of None \<Rightarrow> a | Some r \<Rightarrow> ol_limits r),
     (case find (\<lambda>r. ol_project r \<noteq> '''') rows of None \<Rightarrow> b | Some r \<Rightarrow> ol_limits r))"
  using assms
proof (induction rows arbitrary: a b)
  case (Cons r rows)
  have n: "find (\<lambda>x. ol_project x = '''') rows = None" if "ol_project r = ''''"
    unfolding find_None_iff using Cons.prems(1) that by (metis distinct.simps(2) image_eqI list.set_map list.simps(9))
  have m: "find (\<lambda>x. ol_project x \<noteq> '''') rows = None" if r: "ol_project r \<noteq> ''''"
    unfolding find_None_iff
  proof (rule notI, elim exE conjE)
    fix x assume x: "x \<in> set rows" "ol_project x \<noteq> ''''"
    then have "ol_project x = ol_project r" using Cons.prems(2) r by auto
    then have "ol_project r \<in> set (map ol_project rows)" using x(1) by (metis imageI list.set_map)
    then show False using Cons.prems(1) by simp
  qed
  show ?case using Cons n m by (simp add: limits_step_def)
qed simp

lemma merge_limits_effective:
  assumes "unique_on (\<lambda>r. (ol_org r, ol_project r)) anyrow t"
  shows "merge_limits (filter (\<lambda>r. ol_org r = org \<and> (ol_project r = '''' \<or> ol_project r = pid)) t) = effective t org pid"
proof -
  let ?F = "\<lambda>r. ol_org r = org \<and> (ol_project r = '''' \<or> ol_project r = pid)"
  have "distinct (map (\<lambda>r. (ol_org r, ol_project r)) (filter ?F t))"
    using assms by (simp add: unique_on_def distinct_map_filter)
  then have d: "distinct (map ol_project (filter ?F t))"
    by (auto simp: distinct_map inj_on_def)
  have o: "find (\<lambda>r. ol_project r = '''') (filter ?F t) = find (limits_at org '''') t"
    unfolding find_filter by (rule arg_cong[where f = "\<lambda>p. find p t"]) (auto simp: limits_at_def)
  have p: "find (\<lambda>r. ol_project r \<noteq> '''') (filter ?F t) = (if pid = '''' then None else find (limits_at org pid) t)"
  proof (cases "pid = ''''")
    case False
    then have "(\<lambda>x. ?F x \<and> ol_project x \<noteq> '''') = limits_at org pid" by (auto simp: limits_at_def)
    then show ?thesis using False by (simp add: find_filter)
  qed (simp add: find_filter find_None_iff)
  show ?thesis
    unfolding merge_limits_def
    by (subst fold_limits_step[OF d, of pid])
      (auto simp: o p effective_def row_limit_def fun_eq_iff map_add_def coalesce_opt_def split: option.splits)
qed

lemma getOrgLimits_effective:
  assumes "faults s = []" "txn s = None" "store_inv md (committed s)"
  shows "getOrgLimits Pool org pid s = (Inr (effective (t_organization_limits (committed s)) org pid), s)"
  using assms merge_limits_effective[OF limits_keys[OF assms(3)]]
  by (simp add: getOrgLimits_def calm_simps)

lemma row_limit_upsert:
  assumes "unique_on (\<lambda>r. (ol_org r, ol_project r)) anyrow (t_organization_limits d)"
    "upsert_limit org pid key v d = Inr (u, d')"
  shows "row_limit (t_organization_limits d') o' p' k =
    (if o' = org \<and> p' = pid \<and> k = key then Some v else row_limit (t_organization_limits d) o' p' k)"
proof -
  let ?f = "\<lambda>x. x\<lparr>ol_limits := (ol_limits x)(key \<mapsto> v)\<rparr>"
  have q: "find (limits_at a b) (update_where (limits_at org pid) ?f t) =
      map_option (\<lambda>x. if limits_at org pid x then ?f x else x) (find (limits_at a b) t)" for t a b
    by (rule find_update_where) (simp add: limits_at_def)
  show ?thesis
  proof (cases "list_ex (limits_at org pid) (t_organization_limits d)")
    case True
    then obtain r where r: "find (limits_at org pid) (t_organization_limits d) = Some r"
      using find_NoneD[of "limits_at org pid"] by (cases "find (limits_at org pid) (t_organization_limits d)")
        (auto simp: list_ex_iff)
    show ?thesis
    proof (cases "o' = org \<and> p' = pid")
      case hit: True
      then show ?thesis using assms(2) True r find_SomeD[OF r]
        by (auto simp: upsert_limit_def row_limit_def q)
    next
      case miss: False
      let ?t = "t_organization_limits d"
      have "find (limits_at o' p') ?t = Some x \<Longrightarrow> \<not> limits_at org pid x" for x
        using miss by (auto simp: limits_at_def dest!: find_SomeD)
      then have "find (limits_at o' p') (update_where (limits_at org pid) ?f ?t) = find (limits_at o' p') ?t"
        unfolding q by (cases "find (limits_at o' p') ?t") simp_all
      moreover have "d' = d\<lparr>t_organization_limits := update_where (limits_at org pid) ?f ?t\<rparr>"
        using assms(2) True by (simp add: upsert_limit_def)
      ultimately have "row_limit (t_organization_limits d') o' p' k = row_limit ?t o' p' k"
        by (simp add: row_limit_def)
      with miss show ?thesis by argo
    qed
  next
    case False
    then have "find (limits_at org pid) (t_organization_limits d) = None"
      by (auto simp: find_None_iff list_ex_iff)
    then show ?thesis using assms(2) False
      by (auto simp: upsert_limit_def row_limit_def find_append limits_at_def split: option.splits if_splits)
  qed
qed

text \<open>
  The limit \<open>enforceProjectCreationLimits\<close> compares with: the tier's default, which a stored override
  of the organization replaces in every tier but T1.
\<close>

definition project_limit :: "db \<Rightarrow> string \<Rightarrow> string \<Rightarrow> LimitKey \<Rightarrow> int" where
  "project_limit d orgID usageTier key =
     (let tier = fst (ParseUsageTier usageTier) in
      ResolveIntLimit (if tier = TierT1 then Map.empty else effective (t_organization_limits d) orgID '''') key
        (TierDefaultInt tier key 0))"

definition active_projects :: "db \<Rightarrow> string \<Rightarrow> int" where
  "active_projects d orgID = int (count_where (\<lambda>p. pr_org p = orgID \<and> pr_active p) (t_projects d))"

definition recent_projects :: "int \<Rightarrow> db \<Rightarrow> string \<Rightarrow> int" where
  "recent_projects now d orgID = int (count_where (\<lambda>p. pr_org p = orgID \<and> pr_created p > now - hour_us) (t_projects d))"

lemma merge_limits_org:
  "store_inv md d \<Longrightarrow> merge_limits (filter (\<lambda>r. ol_org r = org \<and> ol_project r = '''') (t_organization_limits d)) =
     effective (t_organization_limits d) org ''''"
  using merge_limits_effective[OF limits_keys, where pid = "''''"] by simp

lemma tx_getOrgLimits:
  "tx_triple P (getOrgLimits Tx org '''') (\<lambda>m d. P d \<and> (store_inv md d \<longrightarrow> m = effective (t_organization_limits d) org ''''))"
  unfolding getOrgLimits_def
  by (rule tx_andthen[where R = "\<lambda>rows d. P d \<and>
      rows = filter (\<lambda>r. ol_org r = org \<and> ol_project r = '''') (t_organization_limits d)"])
    (auto intro!: tx_intros simp: merge_limits_org)

lemma tx_getOverrides:
  fixes usageTier
  defines "tier \<equiv> fst (ParseUsageTier usageTier)"
  shows "tx_triple (\<lambda>d. d = d0 \<and> store_inv md d)
    (if tier \<noteq> TierT1 then map_err (Wrap ''get org limits'') (getOrgLimits Tx org '''') else ret Map.empty)
    (\<lambda>m d. d = d0 \<and> (\<forall>key. ResolveIntLimit m key (TierDefaultInt tier key 0) = project_limit d org usageTier key))"
proof (intro tx_if tx_map_err)
  assume t: "tier \<noteq> TierT1"
  show "tx_triple (\<lambda>d. d = d0 \<and> store_inv md d) (getOrgLimits Tx org '''')
    (\<lambda>m d. d = d0 \<and> (\<forall>key. ResolveIntLimit m key (TierDefaultInt tier key 0) = project_limit d org usageTier key))"
    by (rule tx_weaken[OF tx_getOrgLimits[where md = md and P = "\<lambda>d. d = d0 \<and> store_inv md d"]])
      (use t in \<open>auto simp: project_limit_def tier_def\<close>)
qed (auto intro!: tx_ret simp: project_limit_def tier_def)

lemma tx_enforceProjectCreationLimits:
  "tx_triple (\<lambda>d. d = d0 \<and> store_inv md d) (enforceProjectCreationLimits Tx org usageTier) (\<lambda>_ d. d = d0 \<and>
     (project_limit d org usageTier LimitMaxProjects \<noteq> 0 \<longrightarrow>
        active_projects d org < project_limit d org usageTier LimitMaxProjects))"
proof -
  let ?lim = "\<lambda>m key. ResolveIntLimit m key (TierDefaultInt (fst (ParseUsageTier usageTier)) key 0)"
  let ?Q = "\<lambda>d. d = d0 \<and> (project_limit d org usageTier LimitMaxProjects \<noteq> 0 \<longrightarrow>
        active_projects d org < project_limit d org usageTier LimitMaxProjects)"
  have maxp: "tx_triple (\<lambda>d. d = d0 \<and> (\<forall>key. ?lim m key = project_limit d org usageTier key))
      (if ?lim m LimitMaxProjects \<noteq> 0 then
         andthen (map_err (Wrap ''count active org projects'') (countActiveOrgProjects Tx org)) (\<lambda>count.
         fail_if (count \<ge> ?lim m LimitMaxProjects) (ErrOrgProjectLimitExceeded org (?lim m LimitMaxProjects)))
       else ret ()) (\<lambda>_. ?Q)" for m
    unfolding countActiveOrgProjects_def
    by (rule tx_if) (auto intro!: tx_andthen[OF tx_map_err[OF tx_count_query]] tx_fail_if tx_ret simp: active_projects_def)
  have rate: "tx_triple ?Q
      (if ?lim m LimitMaxProjectsPerHour \<noteq> 0 then
        andthen (map_err (Wrap ''count projects created in last hour'') (countProjectsCreatedInLastHour Tx org)) (\<lambda>count.
        fail_if (count \<ge> ?lim m LimitMaxProjectsPerHour) (ErrProjectRateLimitExceeded org (?lim m LimitMaxProjectsPerHour)))
      else ret ()) (\<lambda>_. ?Q)" for m
    unfolding countProjectsCreatedInLastHour_def
    by (rule tx_if) (auto intro!: tx_andthen[OF tx_map_err[OF tx_count_query]] tx_fail_if tx_ret)
  show ?thesis
    unfolding enforceProjectCreationLimits_def Let_def
    by (rule tx_andthen[OF tx_getOverrides tx_andthen[OF maxp rate]])
qed

section \<open>The checks when nothing breaks\<close>

definition project_check :: "int \<Rightarrow> db \<Rightarrow> string \<Rightarrow> string \<Rightarrow> goerr + unit" where
  "project_check now d orgID usageTier =
     (let mp = project_limit d orgID usageTier LimitMaxProjects;
          mh = project_limit d orgID usageTier LimitMaxProjectsPerHour in
      if mp \<noteq> 0 \<and> active_projects d orgID \<ge> mp then Inl (ErrOrgProjectLimitExceeded orgID mp)
      else if mh \<noteq> 0 \<and> recent_projects now d orgID \<ge> mh then Inl (ErrProjectRateLimitExceeded orgID mh)
      else Inr ())"

lemma calm_enforceProjectCreationLimits:
  assumes "faults s = []" "txn s = Some d" "store_inv md d"
  shows "enforceProjectCreationLimits Tx org usageTier s = (project_check (clock s) d org usageTier, s)"
proof -
  have ov: "getOrgLimits Tx org '''' s = (Inr (effective (t_organization_limits d) org ''''), s)"
    using assms merge_limits_org[OF assms(3)] by (simp add: getOrgLimits_def calm_simps)
  show ?thesis using assms
    by (cases "fst (ParseUsageTier usageTier) = TierT1")
      (auto simp: enforceProjectCreationLimits_def Let_def calm_simps ov project_check_def project_limit_def
        countActiveOrgProjects_def countProjectsCreatedInLastHour_def count_query_def active_projects_def
        recent_projects_def)
qed

text \<open>A branch has one project, so the joins count branches.\<close>

lemma count_join_branches:
  assumes "store_inv md d"
  shows "count_join p d = int (count_where (\<lambda>b. \<exists>r\<in>set (t_projects d). br_project b = pr_id r \<and> p b r) (t_branches d))"
proof -
  have u: "unique_on pr_id anyrow (t_projects d)"
    using store_invE(1)[OF assms] by (simp add: keys_ok_def)
  have one: "count_where (\<lambda>r. k = pr_id r \<and> q r) t = (if \<exists>r\<in>set t. k = pr_id r \<and> q r then 1 else 0)"
    if "unique_on pr_id anyrow t" for k q t
    using that by (induction t) (auto simp: unique_on_Cons count_where_0_iff)
  have "sum_list (map (\<lambda>b. count_where (\<lambda>r. br_project b = pr_id r \<and> p b r) (t_projects d)) bs) =
      count_where (\<lambda>b. \<exists>r\<in>set (t_projects d). br_project b = pr_id r \<and> p b r) bs" for bs
    by (induction bs) (simp_all add: one[OF u])
  then show ?thesis by (simp add: count_join_def)
qed

definition branch_check :: "int \<Rightarrow> db \<Rightarrow> string \<Rightarrow> string \<Rightarrow> OrgLimits \<Rightarrow> goerr + unit" where
  "branch_check now d orgID projectID limits =
     (if count_join (\<lambda>b p. pr_org p = orgID \<and> br_active b) d \<ge> MaxBranchesPerOrg limits
        then Inl (ErrOrgBranchLimitExceeded orgID (MaxBranchesPerOrg limits))
      else if count_join (\<lambda>b p. pr_org p = orgID \<and> br_created b > now - hour_us) d \<ge> MaxBranchesPerHour limits
        then Inl (ErrBranchRateLimitExceeded orgID (MaxBranchesPerHour limits))
      else if int (count_where (\<lambda>b. br_project b = projectID \<and> br_active b) (t_branches d)) \<ge> MaxBranchesPerProject limits
        then Inl (ErrTooManyBranches projectID (MaxBranchesPerProject limits))
      else Inr ())"

lemma calm_enforceBranchCreationLimits:
  assumes "faults s = []"
  shows "enforceBranchCreationLimits org pid limits s = (branch_check (clock s) (committed s) org pid limits, s)"
  using assms by (simp add: enforceBranchCreationLimits_def calm_simps count_defs count_query_def branch_check_def)

end
