(* ===== verification/Store_Projects.thy ===== *)
theory Store_Projects
  imports Store_Limits
begin

text \<open>
  Projects of \<open>store_sql.go\<close>.  The identifier the code draws at random is the argument \<open>newID\<close>.
  \<open>json.Marshal\<close> and \<open>json.Unmarshal\<close> of the CIDR list are each other's inverse and do not fail on
  these values, so the column holds the list itself.  A callback of the caller is an argument that acts
  on the world; it is handed a pointer to the project and returns what it leaves there.
\<close>

section \<open>Operations\<close>

definition to_Project :: "project_row \<Rightarrow> Project" where
  "to_Project r = \<lparr>p_ID = pr_id r, p_Name = pr_name r, p_CreatedAt = pr_created r, p_UpdatedAt = pr_updated r,
     p_ScaleToZero = \<lparr>
       BaseBranches = \<lparr>s2z_Enabled = pr_base_enabled r, s2z_InactivityPeriod = InactivityPeriod_Scan (pr_base_minutes r)\<rparr>,
       ChildBranches = \<lparr>s2z_Enabled = pr_child_enabled r, s2z_InactivityPeriod = InactivityPeriod_Scan (pr_child_minutes r)\<rparr>\<rparr>,
     p_IPFiltering = \<lparr>ipf_Enabled = pr_ipf_enabled r, ipf_CIDRs = Some (pr_ipf_cidrs r)\<rparr>\<rparr>"

definition new_project_row :: "string \<Rightarrow> int \<Rightarrow> string \<Rightarrow> CreateProjectConfiguration \<Rightarrow> project_row" where
  "new_project_row newID now organizationID config = \<lparr>
     pr_id = newID, pr_org = organizationID, pr_name = cpc_Name config, pr_created = now, pr_updated = now,
     pr_base_enabled = s2z_Enabled (BaseBranches (cpc_ScaleToZero config)),
     pr_base_minutes = InactivityPeriod_Value (s2z_InactivityPeriod (BaseBranches (cpc_ScaleToZero config))),
     pr_child_enabled = s2z_Enabled (ChildBranches (cpc_ScaleToZero config)),
     pr_child_minutes = InactivityPeriod_Value (s2z_InactivityPeriod (ChildBranches (cpc_ScaleToZero config))),
     pr_ipf_enabled = ipf_Enabled (cpc_IPFiltering config),
     pr_ipf_cidrs = (case ipf_CIDRs (cpc_IPFiltering config) of None \<Rightarrow> [] | Some cidrs \<Rightarrow> cidrs),
     pr_status = StatusActive, pr_status_changed = now\<rparr>"

text \<open>\<open>pg_advisory_xact_lock\<close> waits for the organization's lock; then the checks and the insert.\<close>

definition CreateProject_body :: "string \<Rightarrow> string \<Rightarrow> CreateProjectConfiguration \<Rightarrow> ('w, project_row) cmd" where
  "CreateProject_body newID organizationID config =
     andthen (query Tx (\<lambda>_. Inr ()) (\<lambda>e. Wrap ''acquire org lock'' (ErrSql e))) (\<lambda>_.
     andthen (enforceProjectCreationLimits Tx organizationID (cpc_UsageTier config)) (\<lambda>_.
     andthen get_now (\<lambda>now.
     exec Tx (ins_project (new_project_row newID now organizationID config))
       (\<lambda>e. if IsConstraintError e ''unique_org_project_active'' then ErrProjectAlreadyExists (cpc_Name config)
            else ErrSql e))))"

definition CreateProject :: "string \<Rightarrow> string \<Rightarrow> CreateProjectConfiguration \<Rightarrow> ('w, Project) cmd" where
  "CreateProject newID organizationID config =
     andthen (fail_if (cpc_Name config = '''') (ErrInvalidProjectName (cpc_Name config))) (\<lambda>_.
     in_tx_as (Wrap ''begin tx'') (Wrap ''commit tx'') (CreateProject_body newID organizationID config) to_Project)"

definition DeleteProject_body :: "string \<Rightarrow> string \<Rightarrow> ('w, unit) cmd" where
  "DeleteProject_body organizationID projectID =
     andthen (query_rows None Tx (\<lambda>d. filter (\<lambda>b. br_project b = projectID \<and> br_active b) (t_branches d)) ErrSql) (\<lambda>branches.
     andthen (fail_if (branches \<noteq> []) (ErrProjectNotEmpty projectID)) (\<lambda>_.
     andthen (exec Tx (del_backups (\<lambda>k. bk_project k = projectID)) ErrSql) (\<lambda>_.
     andthen get_now (\<lambda>now.
     andthen (exec Tx (upd_projects (\<lambda>r. pr_id r = projectID \<and> pr_org r = organizationID)
         (\<lambda>r. r\<lparr>pr_status := StatusTerminated, pr_status_changed := now\<rparr>)) ErrSql) (\<lambda>rows.
     fail_if (rows = []) (ErrProjectNotFound projectID))))))"

definition DeleteProject :: "string \<Rightarrow> string \<Rightarrow> ('w, unit) cmd" where
  "DeleteProject organizationID projectID = in_tx (DeleteProject_body organizationID projectID) (\<lambda>_. ())"

definition getProject :: "string \<Rightarrow> string \<Rightarrow> ('w, Project) cmd" where
  "getProject organizationID projectID = query Tx
     (\<lambda>d. one_row (map_option to_Project
        (find (\<lambda>r. pr_id r = projectID \<and> pr_org r = organizationID \<and> pr_active r) (t_projects d))))
     (or_no_rows (ErrProjectNotFound projectID))"

definition GetProject :: "string \<Rightarrow> string \<Rightarrow> ('w, Project) cmd" where
  "GetProject organizationID projectID = with_tx (getProject organizationID projectID)"

definition ListOrganizationIDs :: "(string \<Rightarrow> 'k::linorder) \<Rightarrow> ('w, string list) cmd" where
  "ListOrganizationIDs coll = query_rows (Some ErrSql) Pool
     (\<lambda>d. sort_key coll (remdups (map pr_org (t_projects d)))) (\<lambda>e. Wrap ''list organization IDs'' (ErrSql e))"

definition ListProjects :: "string \<Rightarrow> ('w, Project list) cmd" where
  "ListProjects organizationID = query_rows (Some ErrSql) Pool
     (\<lambda>d. map to_Project (filter (\<lambda>r. pr_org r = organizationID \<and> pr_active r) (t_projects d))) ErrSql"

text \<open>The columns \<open>UPDATE projects\<close> sets.\<close>

definition apply_project_update :: "int \<Rightarrow> UpdateProjectConfiguration \<Rightarrow> project_row \<Rightarrow> project_row" where
  "apply_project_update now config r = r\<lparr>
     pr_updated := now,
     pr_name := coalesce (upc_Name config) (pr_name r),
     pr_base_enabled := coalesce (GetBaseEnabled (upc_ScaleToZero config)) (pr_base_enabled r),
     pr_base_minutes := coalesce (map_option InactivityPeriod_Value (GetBaseInactivityPeriod (upc_ScaleToZero config)))
       (pr_base_minutes r),
     pr_child_enabled := coalesce (GetChildEnabled (upc_ScaleToZero config)) (pr_child_enabled r),
     pr_child_minutes := coalesce (map_option InactivityPeriod_Value (GetChildInactivityPeriod (upc_ScaleToZero config)))
       (pr_child_minutes r),
     pr_ipf_enabled := coalesce (GetEnabled (upc_IPFiltering config)) (pr_ipf_enabled r),
     pr_ipf_cidrs := coalesce (GetCIDRs (upc_IPFiltering config)) (pr_ipf_cidrs r)\<rparr>"

definition update_project_conv :: "string \<Rightarrow> UpdateProjectConfiguration \<Rightarrow> sqlerr \<Rightarrow> goerr" where
  "update_project_conv projectID config e =
     (if e = NoRows then ErrProjectNotFound projectID
      else (case upc_Name config of
          Some name \<Rightarrow> if IsConstraintError e ''unique_org_project_active'' then ErrProjectAlreadyExists name else ErrSql e
        | None \<Rightarrow> ErrSql e))"

definition UpdateProject_body ::
  "string \<Rightarrow> string \<Rightarrow> UpdateProjectConfiguration \<Rightarrow> (Project \<Rightarrow> 'w \<Rightarrow> (goerr + Project) \<times> 'w) option \<Rightarrow> ('w, Project) cmd" where
  "UpdateProject_body organizationID projectID config updateFn =
     andthen (getProject organizationID projectID) (\<lambda>_.
     andthen get_now (\<lambda>now.
     andthen (if upc_Name config \<noteq> None \<or> upc_ScaleToZero config \<noteq> None \<or> upc_IPFiltering config \<noteq> None
         then exec Tx (row_of (upd_projects (\<lambda>r. pr_id r = projectID) (apply_project_update now config)))
           (update_project_conv projectID config)
         else query Tx (\<lambda>d. one_row (find (\<lambda>r. pr_id r = projectID) (t_projects d)))
           (update_project_conv projectID config)) (\<lambda>row.
     case updateFn of
       None \<Rightarrow> ret (to_Project row)
     | Some f \<Rightarrow> call_fn (f (to_Project row)))))"

definition UpdateProject ::
  "string \<Rightarrow> string \<Rightarrow> UpdateProjectConfiguration \<Rightarrow> (Project \<Rightarrow> 'w \<Rightarrow> (goerr + Project) \<times> 'w) option \<Rightarrow> ('w, Project) cmd" where
  "UpdateProject organizationID projectID config updateFn =
     in_tx (UpdateProject_body organizationID projectID config updateFn) (\<lambda>project. project)"

text \<open>The query of \<open>ValidateHierarchy\<close>: the first project, then the first branch, outside its parent.\<close>

definition hierarchy_gaps :: "string list \<Rightarrow> string list \<Rightarrow> string list \<Rightarrow> db \<Rightarrow> (string \<times> string) list" where
  "hierarchy_gaps organizationIds projectIds branchIds d =
     map (Pair ''project'') (filter (\<lambda>i. \<not> list_ex (\<lambda>r. pr_id r = i \<and> pr_org r \<in> set organizationIds) (t_projects d)) projectIds) @
     map (Pair ''branch'') (filter (\<lambda>i. \<not> list_ex (\<lambda>b. br_id b = i \<and> br_project b \<in> set projectIds) (t_branches d)) branchIds)"

definition ValidateHierarchy :: "string list \<Rightarrow> string list \<Rightarrow> string list \<Rightarrow> ('w, unit) cmd" where
  "ValidateHierarchy organizationIds projectIds branchIds =
     (if organizationIds = [] \<or> '''' \<in> set organizationIds then raise_err (ErrInvalidHierarchy ''organization'' '''')
      else if projectIds \<noteq> [] \<or> branchIds \<noteq> [] then
        with_res (query Pool (\<lambda>d. one_row (first_row (hierarchy_gaps organizationIds projectIds branchIds d))) ErrSql)
          (\<lambda>r. case r of
             Inr item \<Rightarrow> raise_err (ErrInvalidHierarchy (fst item) (snd item))
           | Inl e \<Rightarrow> if e = ErrSql NoRows then ret () else raise_err (ErrInvalidHierarchy '''' ''''))
      else ret ())"

definition CleanupTerminatedProjects :: "int \<Rightarrow> ('w, int) cmd" where
  "CleanupTerminatedProjects terminatedFor =
     andthen get_now (\<lambda>now.
     andthen (exec Pool (del_projects (\<lambda>r. pr_status r = StatusTerminated \<and>
         pr_status_changed r < now - interval_us (Seconds terminatedFor)))
       (\<lambda>e. Wrap ''delete terminated projects'' (ErrSql e))) (\<lambda>count.
     ret (int count)))"

section \<open>The invariant and atomicity\<close>

lemma confined_getProject [confined_intros]: "confined (getProject org pid)"
  unfolding getProject_def by (intro confined_intros)

lemma quiet_GetProject [quiet_intros]: "quiet (GetProject org pid)"
  unfolding GetProject_def by (intro quiet_intros confined_getProject)

lemma quiet_ListOrganizationIDs [quiet_intros]: "quiet (ListOrganizationIDs coll)"
  unfolding ListOrganizationIDs_def by (intro quiet_intros)

lemma quiet_ListProjects [quiet_intros]: "quiet (ListProjects org)"
  unfolding ListProjects_def by (intro quiet_intros)

lemma quiet_ValidateHierarchy [quiet_intros]: "quiet (ValidateHierarchy orgs pids bids)"
  unfolding ValidateHierarchy_def by (intro quiet_intros)

text \<open>What \<open>getProject\<close> promises its callers inside a transaction.\<close>

lemma tx_getProject:
  "tx_triple P (getProject org pid) (\<lambda>p d. P d \<and> (\<exists>r\<in>set (t_projects d).
     pr_id r = pid \<and> pr_org r = org \<and> pr_active r \<and> p = to_Project r))"
  unfolding getProject_def
  by (rule tx_query) (auto simp: one_row_def dest!: find_SomeD split: option.splits)

lemma triple_CreateProject:
  assumes "store_inv md d0"
  shows "tx_triple (\<lambda>d. d = d0) (CreateProject_body newID org config) (\<lambda>r d. store_inv md d \<and>
    (\<exists>now. r = new_project_row newID now org config \<and> ins_project r d0 = Inr (r, d)) \<and>
    (project_limit d0 org (cpc_UsageTier config) LimitMaxProjects \<noteq> 0 \<longrightarrow>
       active_projects d0 org < project_limit d0 org (cpc_UsageTier config) LimitMaxProjects))"
  unfolding CreateProject_body_def
  apply (rule tx_andthen[where R = "\<lambda>_ d. d = d0 \<and> store_inv md d"])
   apply (rule tx_query, use assms in simp)
  apply (rule tx_andthen[OF tx_enforceProjectCreationLimits])
  apply (rule tx_andthen, rule tx_get_now, assumption)
  apply (rule tx_exec)
  using assms ins_project_inv by (auto simp: ins_project_def split: if_splits)

lemma confined_projects [confined_intros]:
  "confined (CreateProject_body newID org config)" "confined (DeleteProject_body org pid)"
  "confined (UpdateProject_body org pid upd f)"
  unfolding CreateProject_body_def DeleteProject_body_def UpdateProject_body_def
  by (intro confined_intros)+

interpretation create_project: tx_body "store_inv md" "CreateProject_body newID org config"
  by unfold_locales (rule tx_weaken[OF triple_CreateProject], auto intro: confined_intros)

text \<open>Deleting a project: it has no active branch, and its backups are gone.\<close>

lemma triple_DeleteProject:
  assumes "store_inv md d0"
  shows "tx_triple (\<lambda>d. d = d0) (DeleteProject_body org pid) (\<lambda>_ d. store_inv md d \<and>
    (\<forall>b\<in>set (t_branches d0). br_project b = pid \<longrightarrow> \<not> br_active b) \<and>
    (\<exists>r\<in>set (t_projects d0). pr_id r = pid \<and> pr_org r = org) \<and>
    t_branches d = t_branches d0 \<and> t_backups d = delete_where (\<lambda>k. bk_project k = pid) (t_backups d0) \<and>
    (\<exists>now. t_projects d = update_where (\<lambda>r. pr_id r = pid \<and> pr_org r = org)
       (\<lambda>r. r\<lparr>pr_status := StatusTerminated, pr_status_changed := now\<rparr>) (t_projects d0)))"
proof -
  let ?free = "\<lambda>d. \<forall>b\<in>set (t_branches d). br_project b = pid \<longrightarrow> \<not> br_active b"
  let ?own = "\<lambda>r. pr_id r = pid \<and> pr_org r = org"
  let ?ends = "\<lambda>now r. r\<lparr>pr_status := StatusTerminated, pr_status_changed := now\<rparr>"
  let ?B = "\<lambda>d. store_inv md d \<and> ?free d \<and> t_branches d = t_branches d0 \<and> t_projects d = t_projects d0 \<and>
      t_backups d = delete_where (\<lambda>k. bk_project k = pid) (t_backups d0)"
  have upd: "store_inv md d'" if "?B d" "upd_projects ?own (?ends now) d = Inr (rows, d')" for d d' rows now
    by (rule upd_projects_inv[OF _ that(2)]) (use that(1) in auto)
  show ?thesis
    unfolding DeleteProject_body_def
    apply (rule tx_andthen[where R = "\<lambda>bs d. d = d0 \<and> (bs = [] \<longrightarrow> ?free d)"])
     apply (rule tx_query_rows, simp add: filter_empty_conv)
    apply (rule tx_andthen[where R = "\<lambda>_ d. d = d0 \<and> ?free d"])
     apply (rule tx_fail_if, simp)
    apply (rule tx_andthen[where R = "\<lambda>_. ?B"])
     apply (rule tx_exec)
    subgoal for x y d u d'
      using del_backups_inv[of md d "\<lambda>k. bk_project k = pid" u d'] assms by (auto simp: del_backups_def)
    apply (rule tx_andthen[where R = "\<lambda>now. ?B"], rule tx_get_now, assumption)
    subgoal for x y z now
      apply (rule tx_andthen[where R = "\<lambda>rows d. store_inv md d \<and> ?free d0 \<and> t_branches d = t_branches d0 \<and>
          t_backups d = delete_where (\<lambda>k. bk_project k = pid) (t_backups d0) \<and>
          t_projects d = update_where ?own (?ends now) (t_projects d0) \<and>
          rows = map (?ends now) (filter ?own (t_projects d0))"])
       apply (rule tx_exec)
      subgoal for d rows d'
        using upd[of d now rows d'] by (auto simp: upd_projects_def Let_def split: if_splits)
      by (rule tx_fail_if) (auto simp: filter_empty_conv)
    done
qed

interpretation delete_project: tx_body "store_inv md" "DeleteProject_body org pid"
  by unfold_locales (rule tx_weaken[OF triple_DeleteProject], auto intro: confined_intros)

lemma apply_project_update_cols [simp]:
  "pr_id (apply_project_update now config r) = pr_id r" "pr_org (apply_project_update now config r) = pr_org r"
  "pr_status (apply_project_update now config r) = pr_status r"
  "pr_created (apply_project_update now config r) = pr_created r"
  by (simp_all add: apply_project_update_def)

lemma triple_UpdateProject:
  assumes "store_inv md d0"
  shows "tx_triple (\<lambda>d. d = d0) (UpdateProject_body org pid config f) (\<lambda>_ d. store_inv md d \<and>
    (\<exists>r\<in>set (t_projects d0). pr_id r = pid \<and> pr_org r = org \<and> pr_active r) \<and>
    (d = d0 \<or> (\<exists>now. d = d0\<lparr>t_projects := update_where (\<lambda>r. pr_id r = pid) (apply_project_update now config) (t_projects d0)\<rparr>)))"
proof -
  let ?own = "\<lambda>d. \<exists>r\<in>set (t_projects d). pr_id r = pid \<and> pr_org r = org \<and> pr_active r"
  let ?Q = "\<lambda>d. store_inv md d \<and> ?own d0 \<and> (d = d0 \<or> (\<exists>now. d =
      d0\<lparr>t_projects := update_where (\<lambda>r. pr_id r = pid) (apply_project_update now config) (t_projects d0)\<rparr>))"
  let ?d = "\<lambda>now. d0\<lparr>t_projects := update_where (\<lambda>r. pr_id r = pid) (apply_project_update now config) (t_projects d0)\<rparr>"
  have upd: "store_inv md d' \<and> d' = ?d now"
    if "upd_projects (\<lambda>r. pr_id r = pid) (apply_project_update now config) d0 = Inr (rows, d')" for d' rows now
  proof
    show "store_inv md d'" by (rule upd_projects_inv[OF assms that]) auto
    show "d' = ?d now" using that by (simp add: upd_projects_def Let_def split: if_splits)
  qed
  show ?thesis
    unfolding UpdateProject_body_def
    apply (rule tx_andthen[OF tx_weaken[OF tx_getProject[where P = "\<lambda>d. d = d0"]]], assumption, assumption)
    apply (rule tx_andthen[where R = "\<lambda>_ d. d = d0 \<and> ?own d0"], rule tx_get_now, blast)
    apply (rule tx_andthen[where R = "\<lambda>_. ?Q"], rule tx_if, rule tx_exec)
    subgoal using upd by (auto simp: row_of_Inr)
     apply (rule tx_query, use assms in simp)
    by (auto intro!: tx_intros)
qed

interpretation update_project: tx_body "store_inv md" "UpdateProject_body org pid config f"
  by unfold_locales (rule tx_weaken[OF triple_UpdateProject], auto intro: confined_intros)

lemma keeps_CreateProject: "op_keeps (store_inv md) (CreateProject newID org config)"
  unfolding CreateProject_def by (intro op_keeps_andthen create_project.run_keeps quiet_op_keeps quiet_intros)

lemma atomic_CreateProject: "atomic (CreateProject newID org config)"
  unfolding CreateProject_def by (intro atomic_quiet_andthen create_project.run_atomic quiet_intros)

lemma keeps_CleanupTerminatedProjects: "op_keeps (store_inv md) (CleanupTerminatedProjects t)"
  unfolding CleanupTerminatedProjects_def
  by (intro op_keeps_andthen op_keeps_exec quiet_op_keeps quiet_intros) (rule del_projects_inv)

lemma atomic_CleanupTerminatedProjects: "atomic (CleanupTerminatedProjects t)"
  unfolding CleanupTerminatedProjects_def
  by (intro atomic_quiet_andthen atomic_exec_andthen quiet_intros) (simp add: ret_def)

lemma keeps_DeleteProject: "op_keeps (store_inv md) (DeleteProject org pid)"
  unfolding DeleteProject_def by (rule delete_project.run_keeps)

lemma atomic_DeleteProject: "atomic (DeleteProject org pid)"
  unfolding DeleteProject_def by (rule delete_project.run_atomic)

lemma keeps_UpdateProject: "op_keeps (store_inv md) (UpdateProject org pid config f)"
  unfolding UpdateProject_def by (rule update_project.run_keeps)

lemma atomic_UpdateProject: "atomic (UpdateProject org pid config f)"
  unfolding UpdateProject_def by (rule update_project.run_atomic)

section \<open>Properties\<close>

lemma calm_CreateProject:
  assumes "calm s" "store_inv md (committed s)"
  shows "CreateProject newID org config s =
    (let r = new_project_row newID (clock s) org config in
     if cpc_Name config = '''' then (Inl (ErrInvalidProjectName ''''), s)
     else (case project_check (clock s) (committed s) org (cpc_UsageTier config) of
         Inl e \<Rightarrow> (Inl e, s)
       | Inr _ \<Rightarrow> (case ins_project r (committed s) of
             Inl e \<Rightarrow> (Inl (if e = UniqueViolation ''unique_org_project_active'' then ErrProjectAlreadyExists (cpc_Name config)
                          else ErrSql e), s)
           | Inr (x, d) \<Rightarrow> (Inr (to_Project r), s\<lparr>committed := d\<rparr>))))"
proof -
  have ins: "ins_project r d = Inr (x, d') \<Longrightarrow> x = r" for r d x d' by (auto simp: ins_project_def split: if_splits)
  show ?thesis using assms
    by (auto simp: CreateProject_def CreateProject_body_def calm_def calm_simps Let_def IsConstraintError_def
        calm_enforceProjectCreationLimits[where md = md] split: sum.splits dest!: ins)
qed

lemma calm_GetProject:
  assumes "calm s"
  shows "GetProject org pid s =
    (case find (\<lambda>r. pr_id r = pid \<and> pr_org r = org \<and> pr_active r) (t_projects (committed s)) of
       None \<Rightarrow> (Inl (ErrProjectNotFound pid), s) | Some r \<Rightarrow> (Inr (to_Project r), s))"
  using assms
  by (auto simp: GetProject_def getProject_def calm_def calm_simps or_no_rows_def split: option.splits)

text \<open>Terminating projects never collides with an index or a column type.\<close>

lemma upd_projects_terminate:
  assumes "store_inv md d"
  shows "upd_projects p (\<lambda>r. r\<lparr>pr_status := StatusTerminated, pr_status_changed := now\<rparr>) d =
    Inr (map (\<lambda>r. r\<lparr>pr_status := StatusTerminated, pr_status_changed := now\<rparr>) (filter p (t_projects d)),
      d\<lparr>t_projects := update_where p (\<lambda>r. r\<lparr>pr_status := StatusTerminated, pr_status_changed := now\<rparr>) (t_projects d)\<rparr>)"
proof -
  let ?f = "\<lambda>r. r\<lparr>pr_status := StatusTerminated, pr_status_changed := now\<rparr>"
  have "\<forall>r\<in>set (t_projects d). minutes_ok (?f r)"
    using store_invE(2)[OF assms] by (simp add: indexes_ok_def minutes_ok_def)
  moreover have "unique_on org_name pr_active (update_where p ?f (t_projects d))"
    using store_invE(2)[OF assms] by (intro unique_on_update_mono) (simp_all add: indexes_ok_def)
  ultimately show ?thesis by (auto simp: upd_projects_def Let_def list_ex_iff)
qed

lemma calm_DeleteProject:
  assumes "calm s" "store_inv md (committed s)"
  shows "DeleteProject org pid s =
    (let d = committed s; own = (\<lambda>r. pr_id r = pid \<and> pr_org r = org) in
     if \<exists>b\<in>set (t_branches d). br_project b = pid \<and> br_active b then (Inl (ErrProjectNotEmpty pid), s)
     else if \<forall>r\<in>set (t_projects d). \<not> own r then (Inl (ErrProjectNotFound pid), s)
     else (Inr (), s\<lparr>committed := d\<lparr>t_backups := delete_where (\<lambda>k. bk_project k = pid) (t_backups d),
        t_projects := update_where own (\<lambda>r. r\<lparr>pr_status := StatusTerminated, pr_status_changed := clock s\<rparr>) (t_projects d)\<rparr>\<rparr>))"
proof -
  let ?d = "(committed s)\<lparr>t_backups := delete_where (\<lambda>k. bk_project k = pid) (t_backups (committed s))\<rparr>"
  have inv: "store_inv md ?d"
    using del_backups_inv[OF assms(2), of "\<lambda>k. bk_project k = pid"] by (simp add: del_backups_def)
  show ?thesis using assms
    by (auto simp: DeleteProject_def DeleteProject_body_def calm_def calm_simps Let_def del_backups_def
        upd_projects_terminate[OF inv] filter_empty_conv split: if_splits)
qed

text \<open>After the update of \<open>DeleteProject\<close> every row of the project is terminated: its identifier is a key.\<close>

lemma terminated_row:
  assumes u: "unique_on pr_id anyrow t" and own: "\<exists>r\<in>set t. pr_id r = pid \<and> pr_org r = org"
    and x: "x \<in> set (update_where (\<lambda>r. pr_id r = pid \<and> pr_org r = org)
      (\<lambda>r. r\<lparr>pr_status := StatusTerminated, pr_status_changed := now\<rparr>) t)" "pr_id x = pid"
  shows "pr_status x = StatusTerminated \<and> pr_status_changed x = now"
proof -
  obtain y where y: "y \<in> set t" "x = (if pr_id y = pid \<and> pr_org y = org
      then y\<lparr>pr_status := StatusTerminated, pr_status_changed := now\<rparr> else y)"
    using x(1) unfolding set_update_where by (elim imageE)
  have "pr_id y = pid" using x(2) y(2) by (simp split: if_splits)
  moreover from this have "pr_org y = org" using own unique_onD[OF u _ y(1)] by blast
  ultimately show ?thesis using y(2) by simp
qed

end
