(* ===== verification/Store_Branches.thy ===== *)
theory Store_Branches
  imports Store_Projects
begin

text \<open>
  Branches of \<open>store_sql.go\<close>.  \<open>maxDepth\<close> is the field of the store, \<open>newID\<close> the identifier the
  code draws at random.  The three callbacks (provision, update, deprovision) act on the world and are
  handed a pointer to the branch.  A struct that a query fills only in part keeps the zero value in the
  other fields, as in the code: \<open>ListBranches\<close> does not read \<open>depth\<close>, \<open>CreateBranch\<close> does not read
  \<open>backups_enabled\<close>, \<open>UpdateBranch\<close> does not read \<open>public_access\<close>.
\<close>

section \<open>Operations\<close>

text \<open>\<open>branches b JOIN cells c ON b.cell_id = c.id JOIN regions r ON c.region_id = r.id WHERE p b\<close>.\<close>

definition branches_join :: "(branch_row \<Rightarrow> bool) \<Rightarrow> db \<Rightarrow> (branch_row \<times> Region) list" where
  "branches_join p d = concat (map (\<lambda>b. concat (map (\<lambda>c. map (Pair b)
     (filter (\<lambda>r. cl_RegionID c = rg_ID r) (t_regions d)))
       (filter (\<lambda>c. br_cell b = cl_ID c) (t_cells d)))) (filter p (t_branches d)))"

definition to_Branch :: "branch_row \<times> Region \<Rightarrow> Branch" where
  "to_Branch x = (case x of (b, r) \<Rightarrow> \<lparr>b_ID = br_id b, b_ParentID = br_parent b, b_Name = br_name b,
     b_Description = br_desc b, b_CreatedAt = br_created b, b_UpdatedAt = br_updated b, b_Region = rg_ID r,
     b_PublicAccess = rg_PublicAccess r, b_BackupsEnabled = rg_BackupsEnabled r, b_Depth = br_depth b,
     b_CellID = br_cell b\<rparr>)"

definition ListBranches :: "string \<Rightarrow> string \<Rightarrow> ('w, Branch list) cmd" where
  "ListBranches organizationID projectID = with_tx (
     andthen (getProject organizationID projectID) (\<lambda>_.
     query_rows None Tx (\<lambda>d. map (\<lambda>x. (to_Branch x)\<lparr>b_Depth := 0\<rparr>)
       (branches_join (\<lambda>b. br_project b = projectID \<and> br_active b) d)) ErrSql))"

definition describeBranch :: "string \<Rightarrow> string \<Rightarrow> ('w, Branch) cmd" where
  "describeBranch projectID branchID = query Tx
     (\<lambda>d. one_row (map_option to_Branch (first_row
        (branches_join (\<lambda>b. br_project b = projectID \<and> br_id b = branchID \<and> br_active b) d))))
     (or_no_rows (ErrBranchNotFound branchID))"

definition DescribeBranch :: "string \<Rightarrow> string \<Rightarrow> string \<Rightarrow> ('w, Branch) cmd" where
  "DescribeBranch organizationID projectID branchID = with_tx (
     andthen (getProject organizationID projectID) (\<lambda>_. describeBranch projectID branchID))"

definition GetBranchByName :: "string \<Rightarrow> string \<Rightarrow> string \<Rightarrow> ('w, Branch) cmd" where
  "GetBranchByName organizationID projectID name = with_tx (
     andthen (getProject organizationID projectID) (\<lambda>_.
     query Tx (\<lambda>d. one_row (map_option to_Branch (first_row
        (branches_join (\<lambda>b. br_project b = projectID \<and> br_name b = name \<and> br_active b) d))))
       (or_no_rows (ErrBranchNotFound name))))"

definition tryProjectXactLockShared :: "string \<Rightarrow> ('w, unit) cmd" where
  "tryProjectXactLockShared projectID =
     andthen (try_lock projectID) (\<lambda>free.
     andthen (query Tx (\<lambda>_. Inr free) (\<lambda>e. Wrap ''acquire advisory lock'' (ErrSql e))) (\<lambda>acquired.
     fail_if (\<not> acquired) (ErrProjectBusy projectID)))"

text \<open>\<open>SELECT ... FROM cells c INNER JOIN regions r ON c.region_id = r.id WHERE c.id = $1\<close>.\<close>

definition cell_region :: "string \<Rightarrow> db \<Rightarrow> Region option" where
  "cell_region cellID d = first_row (concat (map (\<lambda>c. filter (\<lambda>r. cl_RegionID c = rg_ID r) (t_regions d))
     (filter (\<lambda>c. cl_ID c = cellID) (t_cells d))))"

definition new_branch_row ::
  "string \<Rightarrow> int \<Rightarrow> string \<Rightarrow> string \<Rightarrow> CreateBranchConfiguration \<Rightarrow> int \<Rightarrow> branch_row" where
  "new_branch_row newID now projectID cellID config branchDepth = \<lparr>br_id = newID, br_project = projectID,
     br_name = cbc_Name config, br_created = now, br_updated = now, br_parent = cbc_ParentID config,
     br_desc = nullif_empty (cbc_Description config), br_cell = cellID, br_depth = branchDepth,
     br_status = StatusActive, br_status_changed = now\<rparr>"

text \<open>A branch as \<open>RETURNING\<close> fills it: region, public access and backups are not columns of the table.\<close>

definition returned_branch :: "branch_row \<Rightarrow> string \<Rightarrow> bool \<Rightarrow> bool \<Rightarrow> Branch" where
  "returned_branch b region publicAccess backupsEnabled = \<lparr>b_ID = br_id b, b_ParentID = br_parent b,
     b_Name = br_name b, b_Description = br_desc b, b_CreatedAt = br_created b, b_UpdatedAt = br_updated b,
     b_Region = region, b_PublicAccess = publicAccess, b_BackupsEnabled = backupsEnabled,
     b_Depth = br_depth b, b_CellID = br_cell b\<rparr>"

definition branch_depth :: "int \<Rightarrow> string \<Rightarrow> string option \<Rightarrow> ('w, int) cmd" where
  "branch_depth maxDepth projectID parentID = (case parentID of
     None \<Rightarrow> ret 1
   | Some q \<Rightarrow> andthen (describeBranch projectID q) (\<lambda>parentBranch. lift_res (CanAddChild (Some parentBranch) maxDepth)))"

definition CreateBranch_body ::
  "int \<Rightarrow> string \<Rightarrow> string \<Rightarrow> string \<Rightarrow> string \<Rightarrow> CreateBranchConfiguration \<Rightarrow>
   (Branch \<Rightarrow> Project \<Rightarrow> 'w \<Rightarrow> (goerr + Branch) \<times> 'w) \<Rightarrow> ('w, Branch) cmd" where
  "CreateBranch_body maxDepth newID organizationID projectID cellID config provisionFn =
     andthen (if \<not> cbc_ProjectLockHeld config then tryProjectXactLockShared projectID else ret ()) (\<lambda>_.
     andthen (getCell organizationID cellID) (\<lambda>_.
     andthen (getProject organizationID projectID) (\<lambda>project.
     andthen (branch_depth maxDepth projectID (cbc_ParentID config)) (\<lambda>branchDepth.
     andthen get_now (\<lambda>now.
     andthen (exec Tx (ins_branch (new_branch_row newID now projectID cellID config branchDepth))
       (\<lambda>e. if IsConstraintError e ''unique_project_branch_name_active'' then ErrBranchAlreadyExists (cbc_Name config)
            else ErrSql e)) (\<lambda>row.
     andthen (query Tx (\<lambda>d. one_row (cell_region (br_cell row) d)) ErrSql) (\<lambda>region.
     call_fn (provisionFn (returned_branch row (rg_ID region) (rg_PublicAccess region) False) project))))))))"

definition CreateBranch ::
  "int \<Rightarrow> string \<Rightarrow> string \<Rightarrow> string \<Rightarrow> string \<Rightarrow> CreateBranchConfiguration \<Rightarrow>
   (Branch \<Rightarrow> Project \<Rightarrow> 'w \<Rightarrow> (goerr + Branch) \<times> 'w) \<Rightarrow> ('w, Branch) cmd" where
  "CreateBranch maxDepth newID organizationID projectID cellID config provisionFn = (case cbc_Limits config of
     None \<Rightarrow> raise_err (Errorf ''internal error: branch creation limits not resolved'')
   | Some limits \<Rightarrow>
       andthen (enforceBranchCreationLimits organizationID projectID limits) (\<lambda>_.
       in_tx (CreateBranch_body maxDepth newID organizationID projectID cellID config provisionFn) (\<lambda>b. b)))"

definition apply_branch_update :: "int \<Rightarrow> UpdateBranchConfiguration \<Rightarrow> branch_row \<Rightarrow> branch_row" where
  "apply_branch_update now config b = b\<lparr>br_updated := now, br_name := coalesce (ubc_Name config) (br_name b),
     br_desc := nullif_empty (coalesce_opt (ubc_Description config) (br_desc b))\<rparr>"

definition update_branch_conv :: "string \<Rightarrow> UpdateBranchConfiguration \<Rightarrow> sqlerr \<Rightarrow> goerr" where
  "update_branch_conv branchID config e =
     (if e = NoRows then ErrBranchNotFound branchID
      else (case ubc_Name config of
          Some name \<Rightarrow> if IsConstraintError e ''unique_project_branch_name_active'' then ErrBranchAlreadyExists name else ErrSql e
        | None \<Rightarrow> ErrSql e))"

definition UpdateBranch_body ::
  "string \<Rightarrow> string \<Rightarrow> string \<Rightarrow> UpdateBranchConfiguration \<Rightarrow> (Branch \<Rightarrow> 'w \<Rightarrow> (goerr + Branch) \<times> 'w) \<Rightarrow> ('w, Branch) cmd" where
  "UpdateBranch_body organizationID projectID branchID config updateFn =
     andthen (getProject organizationID projectID) (\<lambda>_.
     andthen (describeBranch projectID branchID) (\<lambda>_.
     andthen get_now (\<lambda>now.
     andthen (if ubc_Name config \<noteq> None \<or> ubc_Description config \<noteq> None
         then exec Tx (row_of (upd_branches (\<lambda>b. br_id b = branchID) (apply_branch_update now config)))
           (update_branch_conv branchID config)
         else query Tx (\<lambda>d. one_row (find (\<lambda>b. br_id b = branchID) (t_branches d)))
           (update_branch_conv branchID config)) (\<lambda>row.
     andthen (query Tx (\<lambda>d. one_row (cell_region (br_cell row) d)) ErrSql) (\<lambda>region.
     call_fn (updateFn (returned_branch row (rg_ID region) False (rg_BackupsEnabled region))))))))"

definition UpdateBranch ::
  "string \<Rightarrow> string \<Rightarrow> string \<Rightarrow> UpdateBranchConfiguration \<Rightarrow> (Branch \<Rightarrow> 'w \<Rightarrow> (goerr + Branch) \<times> 'w) \<Rightarrow> ('w, Branch) cmd" where
  "UpdateBranch organizationID projectID branchID config updateFn =
     in_tx (UpdateBranch_body organizationID projectID branchID config updateFn) (\<lambda>b. b)"

definition DeleteBranch_body ::
  "string \<Rightarrow> string \<Rightarrow> string \<Rightarrow> (Branch \<Rightarrow> 'w \<Rightarrow> (goerr + unit) \<times> 'w) \<Rightarrow> ('w, unit) cmd" where
  "DeleteBranch_body organizationID projectID branchID deprovisionFn =
     andthen (getProject organizationID projectID) (\<lambda>_.
     andthen (describeBranch projectID branchID) (\<lambda>branch.
     andthen get_now (\<lambda>now.
     andthen (exec Tx (upd_branches (\<lambda>b. br_id b = branchID)
         (\<lambda>b. b\<lparr>br_status := StatusTerminated, br_status_changed := now\<rparr>)) ErrSql) (\<lambda>rows.
     andthen (fail_if (length rows = 0) (ErrBranchNotFound branchID)) (\<lambda>_.
     andthen (fail_if (length rows > 1) (ErrTooManyRecords (int (length rows)))) (\<lambda>_.
     andthen (exec Tx (del_backups (\<lambda>k. bk_id k = branchID)) ErrSql) (\<lambda>numRows.
     andthen (fail_if (numRows > 1) (ErrTooManyRecords (int numRows))) (\<lambda>_.
     call_fn (deprovisionFn branch)))))))))"

definition DeleteBranch ::
  "string \<Rightarrow> string \<Rightarrow> string \<Rightarrow> (Branch \<Rightarrow> 'w \<Rightarrow> (goerr + unit) \<times> 'w) \<Rightarrow> ('w, unit) cmd" where
  "DeleteBranch organizationID projectID branchID deprovisionFn =
     in_tx (DeleteBranch_body organizationID projectID branchID deprovisionFn) (\<lambda>u. u)"

definition CleanupTerminatedBranches :: "string \<Rightarrow> int \<Rightarrow> ('w, int) cmd" where
  "CleanupTerminatedBranches cellID terminatedFor =
     andthen get_now (\<lambda>now.
     andthen (exec Pool (del_branches (\<lambda>b. br_cell b = cellID \<and> br_status b = StatusTerminated \<and>
         br_status_changed b < now - interval_us (Seconds terminatedFor)))
       (\<lambda>e. Wrap ''delete terminated branches'' (ErrSql e))) (\<lambda>count.
     ret (int count)))"

section \<open>The invariant and atomicity\<close>

lemma confined_describeBranch [confined_intros]: "confined (describeBranch pid bid)"
  unfolding describeBranch_def by (intro confined_intros)

lemma confined_tryLock [confined_intros]: "confined (tryProjectXactLockShared pid)"
  unfolding tryProjectXactLockShared_def by (intro confined_intros)

lemma confined_branch_depth [confined_intros]: "confined (branch_depth md pid q)"
  unfolding branch_depth_def by (intro confined_intros)

lemma quiet_branch_reads [quiet_intros]:
  "quiet (ListBranches org pid)" "quiet (DescribeBranch org pid bid)" "quiet (GetBranchByName org pid name)"
  unfolding ListBranches_def DescribeBranch_def GetBranchByName_def
  by (intro quiet_intros confined_intros)+

lemma set_branches_join:
  "set (branches_join p d) = {(b, r). b \<in> set (t_branches d) \<and> p b \<and> r \<in> set (t_regions d) \<and>
     (\<exists>c\<in>set (t_cells d). br_cell b = cl_ID c \<and> cl_RegionID c = rg_ID r)}"
  by (auto simp: branches_join_def)

text \<open>What \<open>describeBranch\<close> promises its callers inside a transaction.\<close>

lemma tx_describeBranch:
  "tx_triple P (describeBranch pid bid) (\<lambda>x d. P d \<and> (\<exists>b\<in>set (t_branches d).
     br_project b = pid \<and> br_id b = bid \<and> br_active b \<and> b_Depth x = br_depth b \<and> b_ID x = bid))"
  unfolding describeBranch_def
  by (rule tx_query)
    (auto simp: one_row_def set_branches_join to_Branch_def dest!: first_row_SomeD split: option.splits)

text \<open>The depth a new branch gets: one below an active parent of the same project, within the bound.\<close>

definition depth_ok :: "int \<Rightarrow> string \<Rightarrow> string option \<Rightarrow> int \<Rightarrow> db \<Rightarrow> bool" where
  "depth_ok maxDepth projectID parentID n d \<longleftrightarrow> (case parentID of
     None \<Rightarrow> n = 1
   | Some q \<Rightarrow> n \<le> maxDepth \<and> (\<exists>a\<in>set (t_branches d).
        br_id a = q \<and> br_project a = projectID \<and> br_active a \<and> n = br_depth a + 1))"

lemma tx_branch_depth:
  "tx_triple P (branch_depth md pid q) (\<lambda>n d. P d \<and> depth_ok md pid q n d)"
  unfolding branch_depth_def
  by (rule tx_option) (auto intro!: tx_ret tx_andthen[OF tx_describeBranch] tx_lift_res
      simp: depth_ok_def CanAddChild_def split: if_splits)

text \<open>What the checks of \<open>CreateBranch\<close> have established when the row is inserted.\<close>

definition may_insert :: "string \<Rightarrow> string \<Rightarrow> string \<Rightarrow> db \<Rightarrow> bool" where
  "may_insert organizationID projectID cellID d \<longleftrightarrow>
     (\<exists>r\<in>set (t_projects d). pr_id r = projectID \<and> pr_org r = organizationID \<and> pr_active r) \<and>
     (\<exists>c\<in>set (t_cells d). \<exists>r\<in>set (t_regions d). cl_ID c = cellID \<and> cl_RegionID c = rg_ID r \<and> usable r organizationID)"

lemma ins_branch_checked:
  assumes inv: "store_inv md d" and ok: "may_insert org pid cell d" "depth_ok md pid (cbc_ParentID config) n d"
    and ins: "ins_branch (new_branch_row newID now pid cell config n) d = Inr (x, d')"
  shows "store_inv md d'"
proof -
  let ?b = "new_branch_row newID now pid cell config n"
  note i = store_invE[OF inv]
  obtain p where p: "p \<in> set (t_projects d)" "pr_id p = pid" "pr_org p = org" "pr_active p"
    using ok(1) by (auto simp: may_insert_def)
  obtain c r where c: "c \<in> set (t_cells d)" "r \<in> set (t_regions d)" "cl_ID c = cell" "cl_RegionID c = rg_ID r"
    "usable r org" using ok(1) by (auto simp: may_insert_def)
  have uniq: "unique_on pr_id anyrow (t_projects d)" "unique_on cl_ID anyrow (t_cells d)"
    "unique_on rg_ID anyrow (t_regions d)" using i(1) by (simp_all add: keys_ok_def)
  have p': "q = p" if "q \<in> set (t_projects d)" "pr_id q = pid" for q
    using unique_onD[OF uniq(1)] that p by blast
  have c': "e = c" if "e \<in> set (t_cells d)" "cl_ID e = cell" for e
    using unique_onD[OF uniq(2)] that c by blast
  have r': "e = r" if "e \<in> set (t_regions d)" "rg_ID e = rg_ID r" for e
    using unique_onD[OF uniq(3)] that c by blast
  show ?thesis
  proof (rule ins_branch_inv[OF inv ins])
    show "1 \<le> br_depth ?b" "br_depth ?b \<le> max 1 md"
      using ok(2) i(4) by (auto simp: new_branch_row_def depth_ok_def tree_ok_def split: option.splits)
    show "\<exists>a\<in>set (t_branches d). br_id a = q \<and> br_project a = br_project ?b \<and> br_depth ?b = br_depth a + 1"
      if "br_parent ?b = Some q" for q
      using ok(2) that by (auto simp: new_branch_row_def depth_ok_def)
    show "pr_active q" if "q \<in> set (t_projects d)" "pr_id q = br_project ?b" for q
      using p'[of q] that p(4) by (simp add: new_branch_row_def)
    show "usable u (pr_org q)" if "q \<in> set (t_projects d)" "e \<in> set (t_cells d)" "u \<in> set (t_regions d)"
      "pr_id q = br_project ?b" "cl_ID e = br_cell ?b" "rg_ID u = cl_RegionID e" for q e u
      using p'[of q] c'[of e] r'[of u] that c(4,5) p(3) by (simp add: new_branch_row_def)
  qed
qed

lemma tx_tryLock: "tx_triple P (tryProjectXactLockShared pid) (\<lambda>_. P)"
  unfolding tryProjectXactLockShared_def
  by (rule tx_andthen[where R = "\<lambda>_. P"], rule tx_try_lock, assumption,
      rule tx_andthen[where R = "\<lambda>_. P"], rule tx_query, assumption, rule tx_fail_if)

lemma triple_CreateBranch:
  assumes "store_inv md d0"
  shows "tx_triple (\<lambda>d. d = d0) (CreateBranch_body md newID org pid cell config f) (\<lambda>_ d. store_inv md d \<and>
    may_insert org pid cell d0 \<and>
    (\<exists>n now. depth_ok md pid (cbc_ParentID config) n d0 \<and>
       d = d0\<lparr>t_branches := t_branches d0 @ [new_branch_row newID now pid cell config n]\<rparr>))"
proof -
  let ?Q = "\<lambda>d. store_inv md d \<and> may_insert org pid cell d0 \<and> (\<exists>n now. depth_ok md pid (cbc_ParentID config) n d0 \<and>
       d = d0\<lparr>t_branches := t_branches d0 @ [new_branch_row newID now pid cell config n]\<rparr>)"
  let ?C = "\<lambda>d. d = d0 \<and> may_insert org pid cell d0"
  have lock: "tx_triple (\<lambda>d. d = d0) (if \<not> cbc_ProjectLockHeld config then tryProjectXactLockShared pid else ret ())
      (\<lambda>_ d. d = d0)"
    by (rule tx_if[OF tx_tryLock tx_ret])
  have project: "tx_triple (\<lambda>d. d = d0 \<and> cl_ID c = cell \<and> c \<in> set (t_cells d) \<and>
      (\<exists>r\<in>set (t_regions d). cl_RegionID c = rg_ID r \<and> usable r org)) (getProject org pid) (\<lambda>_. ?C)" for c
    by (rule tx_weaken[OF tx_getProject[where P = "\<lambda>d. d = d0 \<and> cl_ID c = cell \<and> c \<in> set (t_cells d) \<and>
      (\<exists>r\<in>set (t_regions d). cl_RegionID c = rg_ID r \<and> usable r org)"]]) (auto simp: may_insert_def)
  have insert: "tx_triple (\<lambda>d. ?C d \<and> depth_ok md pid (cbc_ParentID config) n d)
      (exec Tx (ins_branch (new_branch_row newID now pid cell config n)) conv) (\<lambda>_. ?Q)" for n now conv
  proof (rule tx_exec)
    fix d x d'
    assume d: "?C d \<and> depth_ok md pid (cbc_ParentID config) n d"
      and i: "ins_branch (new_branch_row newID now pid cell config n) d = Inr (x, d')"
    then have "store_inv md d'" using ins_branch_checked[of md d0] assms by blast
    moreover have "d' = d0\<lparr>t_branches := t_branches d0 @ [new_branch_row newID now pid cell config n]\<rparr>"
      using d i by (auto simp: ins_branch_def split: if_splits)
    ultimately show "?Q d'" using d by blast
  qed
  show ?thesis
    unfolding CreateBranch_body_def
    by (rule tx_andthen[OF lock tx_andthen[OF tx_getCell tx_andthen[OF project
            tx_andthen[OF tx_branch_depth tx_andthen[OF tx_get_now tx_andthen[OF insert
            tx_andthen[OF tx_query tx_call_fn]]]]]]])
qed

interpretation create_branch: tx_body "store_inv md" "CreateBranch_body md newID org pid cell config f"
  by unfold_locales (rule tx_weaken[OF triple_CreateBranch], auto simp: CreateBranch_body_def intro!: confined_intros)

text \<open>The branch an update or a deletion may touch: active, in an active project of the organization.\<close>

definition owns_branch :: "string \<Rightarrow> string \<Rightarrow> string \<Rightarrow> db \<Rightarrow> bool" where
  "owns_branch organizationID projectID branchID d \<longleftrightarrow>
     (\<exists>r\<in>set (t_projects d). pr_id r = projectID \<and> pr_org r = organizationID \<and> pr_active r) \<and>
     (\<exists>b\<in>set (t_branches d). br_id b = branchID \<and> br_project b = projectID \<and> br_active b)"

lemma tx_owns_branch:
  assumes "\<And>x. tx_triple (\<lambda>d. d = d0 \<and> owns_branch org pid bid d0) (f x) Q"
  shows "tx_triple (\<lambda>d. d = d0) (andthen (getProject org pid) (\<lambda>_. andthen (describeBranch pid bid) f)) Q"
proof -
  have "tx_triple (\<lambda>d. d = d0 \<and> (\<exists>r\<in>set (t_projects d). pr_id r = pid \<and> pr_org r = org \<and> pr_active r \<and> p = to_Project r))
      (describeBranch pid bid) (\<lambda>_ d. d = d0 \<and> owns_branch org pid bid d0)" for p
    by (rule tx_weaken[OF tx_describeBranch[where P = "\<lambda>d. d = d0 \<and> (\<exists>r\<in>set (t_projects d).
        pr_id r = pid \<and> pr_org r = org \<and> pr_active r \<and> p = to_Project r)"]]) (auto simp: owns_branch_def)
  then show ?thesis by (rule tx_andthen[OF tx_getProject tx_andthen[OF _ assms]])
qed

lemma apply_branch_update_cols [simp]:
  "br_id (apply_branch_update now config b) = br_id b" "br_project (apply_branch_update now config b) = br_project b"
  "br_parent (apply_branch_update now config b) = br_parent b" "br_cell (apply_branch_update now config b) = br_cell b"
  "br_depth (apply_branch_update now config b) = br_depth b" "br_status (apply_branch_update now config b) = br_status b"
  "br_created (apply_branch_update now config b) = br_created b"
  by (simp_all add: apply_branch_update_def)

lemma upd_branches_eq:
  "upd_branches p f d = Inr (rows, d') \<Longrightarrow>
     d' = d\<lparr>t_branches := update_where p f (t_branches d)\<rparr> \<and> rows = map f (filter p (t_branches d))"
  by (simp add: upd_branches_def Let_def split: if_splits)

lemma triple_UpdateBranch:
  assumes "store_inv md d0"
  shows "tx_triple (\<lambda>d. d = d0) (UpdateBranch_body org pid bid config f) (\<lambda>_ d. store_inv md d \<and>
    owns_branch org pid bid d0 \<and>
    (d = d0 \<or> (\<exists>now. d = d0\<lparr>t_branches := update_where (\<lambda>b. br_id b = bid) (apply_branch_update now config) (t_branches d0)\<rparr>)))"
proof -
  let ?Q = "\<lambda>d. store_inv md d \<and> owns_branch org pid bid d0 \<and> (d = d0 \<or> (\<exists>now. d =
      d0\<lparr>t_branches := update_where (\<lambda>b. br_id b = bid) (apply_branch_update now config) (t_branches d0)\<rparr>))"
  have upd: "store_inv md d'" if "upd_branches (\<lambda>b. br_id b = bid) (apply_branch_update now config) d0 = Inr (rows, d')"
    for d' rows now by (rule upd_branches_inv[OF assms that]) auto
  have upd_row: "tx_triple (\<lambda>d. d = d0 \<and> owns_branch org pid bid d0)
      (if ubc_Name config \<noteq> None \<or> ubc_Description config \<noteq> None
         then exec Tx (row_of (upd_branches (\<lambda>b. br_id b = bid) (apply_branch_update now config))) conv
         else query Tx (\<lambda>d. one_row (find (\<lambda>b. br_id b = bid) (t_branches d))) conv) (\<lambda>_. ?Q)" for now conv
    by (intro tx_if tx_exec tx_query) (use assms upd upd_branches_eq in \<open>(fastforce simp: row_of_Inr)+\<close>)
  show ?thesis
    unfolding UpdateBranch_body_def
    by (rule tx_owns_branch[OF tx_andthen[OF tx_get_now tx_andthen[OF upd_row tx_andthen[OF tx_query tx_call_fn]]]])
qed

interpretation update_branch: tx_body "store_inv md" "UpdateBranch_body org pid bid config f"
  by unfold_locales (rule tx_weaken[OF triple_UpdateBranch], auto simp: UpdateBranch_body_def intro!: confined_intros)

lemma triple_DeleteBranch:
  assumes "store_inv md d0"
  shows "tx_triple (\<lambda>d. d = d0) (DeleteBranch_body org pid bid f) (\<lambda>_ d. store_inv md d \<and>
    owns_branch org pid bid d0 \<and>
    (\<exists>now. t_branches d = update_where (\<lambda>b. br_id b = bid)
       (\<lambda>b. b\<lparr>br_status := StatusTerminated, br_status_changed := now\<rparr>) (t_branches d0)) \<and>
    t_backups d = delete_where (\<lambda>k. bk_id k = bid) (t_backups d0) \<and> t_projects d = t_projects d0)"
proof -
  let ?t = "\<lambda>now b. b\<lparr>br_status := StatusTerminated, br_status_changed := now\<rparr>"
  let ?P = "\<lambda>d. store_inv md d \<and> owns_branch org pid bid d0 \<and>
    (\<exists>now. t_branches d = update_where (\<lambda>b. br_id b = bid) (?t now) (t_branches d0)) \<and> t_projects d = t_projects d0"
  let ?Q = "\<lambda>d. ?P d \<and> t_backups d = delete_where (\<lambda>k. bk_id k = bid) (t_backups d0)"
  have inv: "store_inv md d'" if "upd_branches (\<lambda>b. br_id b = bid) (?t now) d0 = Inr (rows, d')"
    for d' rows now by (rule upd_branches_inv[OF assms that]) auto
  have upd_row: "tx_triple (\<lambda>d. d = d0 \<and> owns_branch org pid bid d0)
      (exec Tx (upd_branches (\<lambda>b. br_id b = bid) (?t now)) ErrSql)
      (\<lambda>_ d. ?P d \<and> t_backups d = t_backups d0)" for now
    by (rule tx_exec) (use inv upd_branches_eq in fastforce)
  have backups: "tx_triple (\<lambda>d. ?P d \<and> t_backups d = t_backups d0)
      (exec Tx (del_backups (\<lambda>k. bk_id k = bid)) ErrSql) (\<lambda>_. ?Q)"
  proof (rule tx_exec)
    fix d n d'
    assume d: "?P d \<and> t_backups d = t_backups d0" and e: "del_backups (\<lambda>k. bk_id k = bid) d = Inr (n, d')"
    then have "store_inv md d'" using del_backups_inv by blast
    then show "?Q d'" using d e by (auto simp: del_backups_def)
  qed
  show ?thesis
    unfolding DeleteBranch_body_def
    by (rule tx_weaken[OF tx_owns_branch[OF tx_andthen[OF tx_get_now tx_andthen[OF upd_row
            tx_andthen[OF tx_fail_if tx_andthen[OF tx_fail_if tx_andthen[OF backups
            tx_andthen[OF tx_fail_if tx_call_fn]]]]]]]]) auto
qed

interpretation delete_branch: tx_body "store_inv md" "DeleteBranch_body org pid bid f"
  by unfold_locales (rule tx_weaken[OF triple_DeleteBranch], auto simp: DeleteBranch_body_def intro!: confined_intros)

lemma keeps_CreateBranch: "op_keeps (store_inv md) (CreateBranch md newID org pid cell config f)"
  unfolding CreateBranch_def
  by (intro op_keeps_option op_keeps_andthen create_branch.run_keeps quiet_op_keeps quiet_intros)

lemma atomic_CreateBranch: "atomic (CreateBranch md newID org pid cell config f)"
  unfolding CreateBranch_def
  by (intro atomic_option atomic_quiet_andthen create_branch.run_atomic quiet_atomic quiet_intros)

lemma keeps_CleanupTerminatedBranches: "op_keeps (store_inv md) (CleanupTerminatedBranches cell t)"
  unfolding CleanupTerminatedBranches_def
  by (intro op_keeps_andthen op_keeps_exec quiet_op_keeps quiet_intros) (rule del_branches_inv)

lemma atomic_CleanupTerminatedBranches: "atomic (CleanupTerminatedBranches cell t)"
  unfolding CleanupTerminatedBranches_def
  by (intro atomic_quiet_andthen atomic_exec_andthen quiet_intros) (simp add: ret_def)

lemma keeps_UpdateBranch: "op_keeps (store_inv md) (UpdateBranch org pid bid config f)"
  unfolding UpdateBranch_def by (rule update_branch.run_keeps)

lemma atomic_UpdateBranch: "atomic (UpdateBranch org pid bid config f)"
  unfolding UpdateBranch_def by (rule update_branch.run_atomic)

lemma keeps_DeleteBranch: "op_keeps (store_inv md) (DeleteBranch org pid bid f)"
  unfolding DeleteBranch_def by (rule delete_branch.run_keeps)

lemma atomic_DeleteBranch: "atomic (DeleteBranch org pid bid f)"
  unfolding DeleteBranch_def by (rule delete_branch.run_atomic)

end
