(* ===== verification/Store_Github.thy ===== *)
theory Store_Github
  imports Store_Branches
begin

text \<open>
  GitHub installations and repository mappings of \<open>store_sql.go\<close>.  The guarded \<open>INSERT ... SELECT\<close>
  and \<open>UPDATE\<close> return no row when a guard fails; the code then asks further questions to name the guard.
  Identifiers drawn at random are the argument \<open>newID\<close>.
\<close>

record GithubRepoMappingWithOrg =
  gmo_Mapping :: GithubRepoMapping
  gmo_OrganizationID :: string

section \<open>Operations\<close>

definition isGithubInstallationAlreadyExistsError :: "sqlerr \<Rightarrow> bool" where
  "isGithubInstallationAlreadyExistsError e \<longleftrightarrow>
     IsConstraintError e ''github_installations_unique_org_installation'' \<or>
     IsConstraintError e ''github_installations_unique_installation_id''"

definition CreateGithubInstallation :: "string \<Rightarrow> string \<Rightarrow> int \<Rightarrow> ('w, GithubInstallation) cmd" where
  "CreateGithubInstallation newID organization installationID =
     andthen get_now (\<lambda>now.
     exec Pool (ins_installation \<lparr>gi_ID = newID, gi_InstallationID = installationID,
         gi_Organization = organization, gi_CreatedAt = now, gi_UpdatedAt = now\<rparr>)
       (\<lambda>e. if isGithubInstallationAlreadyExistsError e then ErrGithubInstallationAlreadyExists organization installationID
            else ErrSql e))"

definition ListGithubInstallations :: "string \<Rightarrow> ('w, GithubInstallation list) cmd" where
  "ListGithubInstallations organization = query_rows (Some ErrSql) Pool
     (\<lambda>d. sort_key gi_CreatedAt (filter (\<lambda>g. gi_Organization g = organization) (t_github_installations d))) ErrSql"

definition UpdateGithubInstallation :: "string \<Rightarrow> string \<Rightarrow> int \<Rightarrow> ('w, GithubInstallation) cmd" where
  "UpdateGithubInstallation organization ident installationID =
     andthen get_now (\<lambda>now.
     exec Pool (row_of (upd_installations (\<lambda>g. gi_ID g = ident \<and> gi_Organization g = organization)
         (\<lambda>g. g\<lparr>gi_InstallationID := installationID, gi_UpdatedAt := now\<rparr>)))
       (\<lambda>e. if e = NoRows then ErrGithubInstallationNotFound organization ident
            else if isGithubInstallationAlreadyExistsError e then ErrGithubInstallationAlreadyExists organization installationID
            else ErrSql e))"

definition DeleteGithubInstallation :: "int \<Rightarrow> ('w, unit) cmd" where
  "DeleteGithubInstallation installationID =
     andthen (exec Pool (del_installations (\<lambda>g. gi_InstallationID g = installationID))
       (\<lambda>e. Wrap (''delete installation '' @ show_int installationID) (ErrSql e))) (\<lambda>_. ret ())"

text \<open>The \<open>EXISTS\<close> conditions of the statements.\<close>

definition active_project_ex :: "string \<Rightarrow> string \<Rightarrow> db \<Rightarrow> bool" where
  "active_project_ex organization project d \<longleftrightarrow>
     list_ex (\<lambda>r. pr_id r = project \<and> pr_org r = organization \<and> pr_active r) (t_projects d)"

definition active_branch_ex :: "string \<Rightarrow> string \<Rightarrow> db \<Rightarrow> bool" where
  "active_branch_ex project branch d \<longleftrightarrow>
     list_ex (\<lambda>b. br_id b = branch \<and> br_project b = project \<and> br_active b) (t_branches d)"

definition mapping_ex :: "string \<Rightarrow> string \<Rightarrow> db \<Rightarrow> bool" where
  "mapping_ex organization project d \<longleftrightarrow> list_ex (\<lambda>m. list_ex (\<lambda>r. pr_id r = gm_Project m \<and> pr_id r = project \<and>
     pr_org r = organization \<and> pr_active r) (t_projects d)) (t_github_repositories d)"

definition ask :: "(db \<Rightarrow> bool) \<Rightarrow> ('w, bool) cmd" where
  "ask p = query Pool (\<lambda>d. Inr (p d)) ErrSql"

definition ins_repo_guarded :: "string \<Rightarrow> GithubRepoMapping \<Rightarrow> (db, GithubRepoMapping) stmt" where
  "ins_repo_guarded organization m d =
     (if active_project_ex organization (gm_Project m) d \<and> active_branch_ex (gm_Project m) (gm_RootBranchID m) d
      then ins_repo m d else Inl NoRows)"

definition CreateGithubRepoMapping :: "string \<Rightarrow> string \<Rightarrow> string \<Rightarrow> int \<Rightarrow> string \<Rightarrow> ('w, GithubRepoMapping) cmd" where
  "CreateGithubRepoMapping newID organization project repoID rootBranchID =
     andthen get_now (\<lambda>now.
     with_res (exec Pool (ins_repo_guarded organization \<lparr>gm_ID = newID, gm_GithubRepositoryID = repoID,
         gm_Project = project, gm_RootBranchID = rootBranchID, gm_CreatedAt = now, gm_UpdatedAt = now\<rparr>)
       (\<lambda>e. if IsConstraintError e ''github_repositories_unique_project_id'' then ErrGithubRepoMappingAlreadyExists organization project
            else if IsConstraintError e ''github_repositories_unique_repo_id'' then ErrGithubRepositoryAlreadyMapped repoID
            else ErrSql e)) (\<lambda>r. case r of
       Inr mapping \<Rightarrow> ret mapping
     | Inl err \<Rightarrow>
        if err = ErrSql NoRows then
          andthen (ask (active_project_ex organization project)) (\<lambda>ex.
          andthen (fail_if (\<not> ex) (ErrProjectNotFound project)) (\<lambda>_.
          andthen (ask (active_branch_ex project rootBranchID)) (\<lambda>ex.
          andthen (fail_if (\<not> ex) (ErrBranchNotFound rootBranchID)) (\<lambda>_.
          raise_err (Wrap ''create github repo mapping'' err)))))
        else raise_err err))"

definition mapping_join :: "(GithubRepoMapping \<Rightarrow> project_row \<Rightarrow> bool) \<Rightarrow> db \<Rightarrow> (GithubRepoMapping \<times> project_row) list" where
  "mapping_join p d = concat (map (\<lambda>m. map (Pair m)
     (filter (\<lambda>r. pr_id r = gm_Project m \<and> p m r) (t_projects d))) (t_github_repositories d))"

definition GetGithubRepoMappingByProject :: "string \<Rightarrow> string \<Rightarrow> ('w, GithubRepoMapping) cmd" where
  "GetGithubRepoMappingByProject organization project =
     with_res (query Pool (\<lambda>d. one_row (map_option fst (first_row
         (mapping_join (\<lambda>m r. gm_Project m = project \<and> pr_org r = organization \<and> pr_active r) d)))) ErrSql) (\<lambda>r. case r of
       Inr mapping \<Rightarrow> ret mapping
     | Inl err \<Rightarrow>
        if err = ErrSql NoRows then
          andthen (ask (active_project_ex organization project)) (\<lambda>ex.
          andthen (fail_if (\<not> ex) (ErrProjectNotFound project)) (\<lambda>_.
          raise_err (ErrGithubRepoMappingNotFound organization project 0)))
        else raise_err err)"

definition upd_repo_guarded :: "string \<Rightarrow> string \<Rightarrow> int \<Rightarrow> string \<Rightarrow> int \<Rightarrow> (db, GithubRepoMapping) stmt" where
  "upd_repo_guarded organization project repoID rootBranchID now d =
     row_of (upd_repos (\<lambda>m. gm_Project m = project \<and> active_project_ex organization project d \<and>
         active_branch_ex project rootBranchID d)
       (\<lambda>m. m\<lparr>gm_GithubRepositoryID := repoID, gm_RootBranchID := rootBranchID, gm_UpdatedAt := now\<rparr>)) d"

definition UpdateGithubRepoMapping :: "string \<Rightarrow> string \<Rightarrow> int \<Rightarrow> string \<Rightarrow> ('w, GithubRepoMapping) cmd" where
  "UpdateGithubRepoMapping organization project repoID rootBranchID =
     andthen get_now (\<lambda>now.
     with_res (exec Pool (upd_repo_guarded organization project repoID rootBranchID now)
       (\<lambda>e. if IsConstraintError e ''github_repositories_unique_repo_id'' then ErrGithubRepositoryAlreadyMapped repoID
            else ErrSql e)) (\<lambda>r. case r of
       Inr mapping \<Rightarrow> ret mapping
     | Inl err \<Rightarrow>
        if err = ErrSql NoRows then
          andthen (ask (active_project_ex organization project)) (\<lambda>ex.
          andthen (fail_if (\<not> ex) (ErrProjectNotFound project)) (\<lambda>_.
          andthen (ask (mapping_ex organization project)) (\<lambda>ex.
          andthen (fail_if (\<not> ex) (ErrGithubRepoMappingNotFound organization project 0)) (\<lambda>_.
          andthen (ask (active_branch_ex project rootBranchID)) (\<lambda>ex.
          andthen (fail_if (\<not> ex) (ErrBranchNotFound rootBranchID)) (\<lambda>_.
          raise_err (Wrap ''update github repo mapping'' err)))))))
        else raise_err err))"

text \<open>\<open>DELETE ... USING projects p\<close>: here a terminated project counts too.\<close>

definition DeleteGithubRepoMapping :: "string \<Rightarrow> string \<Rightarrow> ('w, unit) cmd" where
  "DeleteGithubRepoMapping organization project =
     andthen (exec Pool (\<lambda>d. del_repos (\<lambda>m. list_ex (\<lambda>r. gm_Project m = pr_id r \<and> pr_id r = project \<and>
         pr_org r = organization) (t_projects d)) d) ErrSql) (\<lambda>count.
     if count = 0 then
       andthen (ask (\<lambda>d. list_ex (\<lambda>r. pr_id r = project \<and> pr_org r = organization) (t_projects d))) (\<lambda>ex.
       andthen (fail_if (\<not> ex) (ErrProjectNotFound project)) (\<lambda>_.
       raise_err (ErrGithubRepoMappingNotFound organization project 0)))
     else ret ())"

definition GetGithubRepoMappingByRepoID :: "int \<Rightarrow> ('w, GithubRepoMappingWithOrg) cmd" where
  "GetGithubRepoMappingByRepoID repoID =
     query Pool (\<lambda>d. one_row (map_option (\<lambda>(m, r). \<lparr>gmo_Mapping = m, gmo_OrganizationID = pr_org r\<rparr>) (first_row
         (mapping_join (\<lambda>m r. gm_GithubRepositoryID m = repoID \<and> pr_active r) d))))
       (or_no_rows (ErrGithubRepoMappingNotFound '''' '''' repoID))"

section \<open>The invariant and atomicity\<close>

lemma quiet_ask [quiet_intros]: "quiet (ask p)"
  unfolding ask_def by (intro quiet_intros)

lemma quiet_github_reads [quiet_intros]:
  "quiet (ListGithubInstallations org)" "quiet (GetGithubRepoMappingByProject org pid)"
  "quiet (GetGithubRepoMappingByRepoID repo)"
  unfolding ListGithubInstallations_def GetGithubRepoMappingByProject_def GetGithubRepoMappingByRepoID_def
  by (intro quiet_intros)+

lemma keeps_CreateGithubInstallation: "op_keeps (store_inv md) (CreateGithubInstallation newID org inst)"
  unfolding CreateGithubInstallation_def
  by (intro op_keeps_andthen op_keeps_exec quiet_op_keeps quiet_intros) (rule ins_installation_inv)

lemma keeps_UpdateGithubInstallation: "op_keeps (store_inv md) (UpdateGithubInstallation org ident inst)"
  unfolding UpdateGithubInstallation_def
  by (intro op_keeps_andthen op_keeps_exec quiet_op_keeps quiet_intros)
    (auto simp: row_of_Inr elim!: upd_installations_inv)

lemma keeps_DeleteGithubInstallation: "op_keeps (store_inv md) (DeleteGithubInstallation inst)"
  unfolding DeleteGithubInstallation_def
  by (intro op_keeps_andthen op_keeps_exec quiet_op_keeps quiet_intros) (rule del_installations_inv)

lemma ins_repo_guarded_inv:
  assumes "store_inv md d" "ins_repo_guarded org m d = Inr (x, d')"
  shows "store_inv md d'"
proof -
  have "active_branch_ex (gm_Project m) (gm_RootBranchID m) d" "ins_repo m d = Inr (x, d')"
    using assms(2) by (auto simp: ins_repo_guarded_def split: if_splits)
  then show ?thesis by (intro ins_repo_inv[OF assms(1)]) (auto simp: active_branch_ex_def list_ex_iff)
qed

lemma upd_repo_guarded_inv:
  assumes "store_inv md d" "upd_repo_guarded org pid repo rootBranch now d = Inr (x, d')"
  shows "store_inv md d'"
  using assms(2) unfolding upd_repo_guarded_def row_of_Inr
  by (auto simp: active_branch_ex_def list_ex_iff elim!: upd_repos_inv[OF assms(1)])

lemma keeps_CreateGithubRepoMapping: "op_keeps (store_inv md) (CreateGithubRepoMapping newID org pid repo rootBranch)"
  unfolding CreateGithubRepoMapping_def
  by (intro op_keeps_andthen op_keeps_exec_with_res quiet_op_keeps quiet_intros) (rule ins_repo_guarded_inv)

lemma keeps_UpdateGithubRepoMapping: "op_keeps (store_inv md) (UpdateGithubRepoMapping org pid repo rootBranch)"
  unfolding UpdateGithubRepoMapping_def
  by (intro op_keeps_andthen op_keeps_exec_with_res quiet_op_keeps quiet_intros) (rule upd_repo_guarded_inv)

lemma keeps_DeleteGithubRepoMapping: "op_keeps (store_inv md) (DeleteGithubRepoMapping org pid)"
  unfolding DeleteGithubRepoMapping_def
  by (intro op_keeps_andthen op_keeps_exec quiet_op_keeps quiet_intros) (rule del_repos_inv)

lemma atomic_CreateGithubInstallation: "atomic (CreateGithubInstallation newID org inst)"
  unfolding CreateGithubInstallation_def by (intro atomic_quiet_andthen atomic_exec quiet_intros)

lemma atomic_UpdateGithubInstallation: "atomic (UpdateGithubInstallation org ident inst)"
  unfolding UpdateGithubInstallation_def by (intro atomic_quiet_andthen atomic_exec quiet_intros)

lemma atomic_DeleteGithubInstallation: "atomic (DeleteGithubInstallation inst)"
  unfolding DeleteGithubInstallation_def by (intro atomic_exec_andthen quiet_intros) (simp add: ret_def)

lemma atomic_CreateGithubRepoMapping: "atomic (CreateGithubRepoMapping newID org pid repo rootBranch)"
  unfolding CreateGithubRepoMapping_def
  by (intro atomic_quiet_andthen atomic_exec_with_res quiet_intros) (simp_all add: ret_def quiet_intros)

lemma atomic_UpdateGithubRepoMapping: "atomic (UpdateGithubRepoMapping org pid repo rootBranch)"
  unfolding UpdateGithubRepoMapping_def
  by (intro atomic_quiet_andthen atomic_exec_with_res quiet_intros) (simp_all add: ret_def quiet_intros)

lemma atomic_DeleteGithubRepoMapping: "atomic (DeleteGithubRepoMapping org pid)"
  unfolding DeleteGithubRepoMapping_def
  by (intro atomic_exec_andthen quiet_intros) (auto simp: del_repos_def delete_where_none ret_def split: if_splits)

end
