(* ===== verification/Store_OrgStatus.thy ===== *)
theory Store_OrgStatus
  imports Store_Github
begin

text \<open>
  The table \<open>organization_statuses\<close> and its operations (\<open>store_sql.go\<close>): the desired state of an
  organization, with a version, the bookkeeping of the worker that applies it and a lease.  Each
  operation is one statement; the effect of the statement on the table is a function of its own, because
  the worker theory interleaves these statements.  \<open>now\<close> is the Go clock of the caller, in
  microseconds.
\<close>

section \<open>The statements\<close>

definition new_status :: "string \<Rightarrow> bool \<Rightarrow> int \<Rightarrow> OrganizationStatus" where
  "new_status organizationID disabled now = \<lparr>os_OrganizationID = organizationID, os_Disabled = disabled,
     os_Version = 1, os_UpdatedAt = now, os_SyncedAt = None, os_Attempts = 0, os_NextRetryAt = now,
     os_LastError = '''', os_LeaseUntil = None\<rparr>"

definition renew_status :: "bool \<Rightarrow> int \<Rightarrow> OrganizationStatus \<Rightarrow> OrganizationStatus" where
  "renew_status disabled now r = r\<lparr>os_Disabled := disabled,
     os_Version := os_Version r + (if os_Disabled r \<noteq> disabled then 1 else 0), os_UpdatedAt := now,
     os_SyncedAt := None, os_Attempts := 0, os_NextRetryAt := now, os_LastError := ''''\<rparr>"

abbreviation of_org :: "string \<Rightarrow> OrganizationStatus \<Rightarrow> bool" where
  "of_org organizationID r \<equiv> os_OrganizationID r = organizationID"

definition upsert_status :: "string \<Rightarrow> bool \<Rightarrow> int \<Rightarrow> OrganizationStatus list \<Rightarrow> OrganizationStatus list" where
  "upsert_status organizationID disabled now t =
     (if list_ex (of_org organizationID) t then update_where (of_org organizationID) (renew_status disabled now) t
      else t @ [new_status organizationID disabled now])"

definition due :: "int \<Rightarrow> OrganizationStatus \<Rightarrow> bool" where
  "due now r \<longleftrightarrow> os_SyncedAt r = None \<and> os_NextRetryAt r \<le> now \<and>
     (case os_LeaseUntil r of None \<Rightarrow> True | Some l \<Rightarrow> l \<le> now)"

text \<open>\<open>leaseFor.Milliseconds()\<close> truncates; the interval is added in milliseconds.\<close>

definition lease_end :: "int \<Rightarrow> int \<Rightarrow> int" where
  "lease_end now leaseFor = now + quot_go leaseFor 1000000 * 1000"

definition take_lease :: "int \<Rightarrow> int \<Rightarrow> OrganizationStatus \<Rightarrow> OrganizationStatus" where
  "take_lease now leaseFor r = r\<lparr>os_Attempts := os_Attempts r + 1, os_LeaseUntil := Some (lease_end now leaseFor)\<rparr>"

text \<open>\<open>ORDER BY updated_at LIMIT 1\<close> among the rows that are due.\<close>

definition oldest_due :: "int \<Rightarrow> OrganizationStatus list \<Rightarrow> OrganizationStatus option" where
  "oldest_due now t = first_row (sort_key os_UpdatedAt (filter (due now) t))"

definition claim_status ::
  "int \<Rightarrow> int \<Rightarrow> OrganizationStatus list \<Rightarrow> OrganizationStatus option \<times> OrganizationStatus list" where
  "claim_status now leaseFor t = (case oldest_due now t of
     None \<Rightarrow> (None, t)
   | Some r \<Rightarrow> (Some (take_lease now leaseFor r),
        update_where (of_org (os_OrganizationID r)) (take_lease now leaseFor) t))"

definition mark_synced_row :: "int \<Rightarrow> int \<Rightarrow> OrganizationStatus \<Rightarrow> OrganizationStatus" where
  "mark_synced_row version now r = r\<lparr>os_LeaseUntil := None,
     os_SyncedAt := (if os_Version r = version then Some now else os_SyncedAt r),
     os_Attempts := (if os_Version r = version then 0 else os_Attempts r),
     os_LastError := (if os_Version r = version then '''' else os_LastError r)\<rparr>"

definition mark_synced :: "string \<Rightarrow> int \<Rightarrow> int \<Rightarrow> OrganizationStatus list \<Rightarrow> OrganizationStatus list" where
  "mark_synced organizationID version now t = update_where (of_org organizationID) (mark_synced_row version now) t"

definition mark_failed_row :: "int \<Rightarrow> string \<Rightarrow> int \<Rightarrow> OrganizationStatus \<Rightarrow> OrganizationStatus" where
  "mark_failed_row version reason nextRetryAt r = r\<lparr>os_LeaseUntil := None,
     os_NextRetryAt := (if os_Version r = version then nextRetryAt else os_NextRetryAt r),
     os_LastError := (if os_Version r = version then reason else os_LastError r)\<rparr>"

definition mark_failed :: "string \<Rightarrow> int \<Rightarrow> string \<Rightarrow> int \<Rightarrow> OrganizationStatus list \<Rightarrow> OrganizationStatus list" where
  "mark_failed organizationID version reason nextRetryAt t =
     update_where (of_org organizationID) (mark_failed_row version reason nextRetryAt) t"

section \<open>Operations\<close>

definition UpsertOrganizationStatus :: "int \<Rightarrow> string \<Rightarrow> bool \<Rightarrow> ('w, OrganizationStatus) cmd" where
  "UpsertOrganizationStatus now organizationID disabled =
     exec Pool (row_of (\<lambda>d. let t = upsert_status organizationID disabled now (t_organization_statuses d) in
         Inr (filter (of_org organizationID) t, d\<lparr>t_organization_statuses := t\<rparr>)))
       (\<lambda>e. Wrap ''upsert organization status'' (ErrSql e))"

definition ClaimOrganizationStatusForSync :: "int \<Rightarrow> int \<Rightarrow> ('w, OrganizationStatus option) cmd" where
  "ClaimOrganizationStatusForSync now leaseFor =
     exec Pool (\<lambda>d. case claim_status now leaseFor (t_organization_statuses d) of
         (r, t) \<Rightarrow> Inr (r, d\<lparr>t_organization_statuses := t\<rparr>))
       (\<lambda>e. Wrap ''claim organization status'' (ErrSql e))"

definition MarkOrganizationStatusSynced :: "string \<Rightarrow> int \<Rightarrow> int \<Rightarrow> ('w, bool) cmd" where
  "MarkOrganizationStatusSynced organizationID version now =
     andthen (exec Pool (\<lambda>d. Inr (find (of_org organizationID) (t_organization_statuses d),
         d\<lparr>t_organization_statuses := mark_synced organizationID version now (t_organization_statuses d)\<rparr>))
       (\<lambda>e. Wrap ''mark organization status synced'' (ErrSql e))) (\<lambda>row.
     ret (case row of None \<Rightarrow> False | Some r \<Rightarrow> os_Version r = version))"

definition MarkOrganizationStatusFailed :: "string \<Rightarrow> int \<Rightarrow> string \<Rightarrow> int \<Rightarrow> ('w, unit) cmd" where
  "MarkOrganizationStatusFailed organizationID version reason nextRetryAt =
     exec Pool (\<lambda>d. Inr ((),
         d\<lparr>t_organization_statuses := mark_failed organizationID version reason nextRetryAt (t_organization_statuses d)\<rparr>))
       (\<lambda>e. Wrap ''mark organization status failed'' (ErrSql e))"

definition DeleteOrganizationStatus :: "string \<Rightarrow> ('w, unit) cmd" where
  "DeleteOrganizationStatus organizationID =
     exec Pool (\<lambda>d. Inr ((),
         d\<lparr>t_organization_statuses := delete_where (of_org organizationID) (t_organization_statuses d)\<rparr>))
       (\<lambda>e. Wrap ''delete organization status'' (ErrSql e))"

text \<open>The count and the oldest write; with no row the time is Go's zero time, here \<open>None\<close>.\<close>

definition CountUnsyncedOrganizationStatuses :: "('w, int \<times> int option) cmd" where
  "CountUnsyncedOrganizationStatuses =
     query Pool (\<lambda>d. let u = filter (\<lambda>r. os_SyncedAt r = None) (t_organization_statuses d) in
         Inr (int (length u), if u = [] then None else Some (Min (os_UpdatedAt ` set u))))
       (\<lambda>e. Wrap ''count unsynced organization statuses'' (ErrSql e))"

section \<open>The invariant and atomicity\<close>

lemma statuses_keys: "store_inv md d \<Longrightarrow> unique_on os_OrganizationID anyrow (t_organization_statuses d)"
  by (simp add: store_inv_def schema_ok_def keys_ok_def)

lemma status_row_cols [simp]:
  "os_OrganizationID (renew_status b now r) = os_OrganizationID r"
  "os_OrganizationID (take_lease now l r) = os_OrganizationID r"
  "os_OrganizationID (mark_synced_row v now r) = os_OrganizationID r"
  "os_OrganizationID (mark_failed_row v e t r) = os_OrganizationID r"
  by (simp_all add: renew_status_def take_lease_def mark_synced_row_def mark_failed_row_def)

lemma upsert_status_keys:
  "unique_on os_OrganizationID anyrow t \<Longrightarrow> unique_on os_OrganizationID anyrow (upsert_status org b now t)"
  by (auto simp: upsert_status_def unique_on_snoc list_ex_iff new_status_def intro!: unique_on_update_mono)

lemma claim_status_keys:
  "unique_on os_OrganizationID anyrow t \<Longrightarrow> claim_status now l t = (r, t') \<Longrightarrow> unique_on os_OrganizationID anyrow t'"
  by (auto simp: claim_status_def split: option.splits intro!: unique_on_update_mono)

lemma mark_keys:
  "unique_on os_OrganizationID anyrow t \<Longrightarrow> unique_on os_OrganizationID anyrow (mark_synced org v now t)"
  "unique_on os_OrganizationID anyrow t \<Longrightarrow> unique_on os_OrganizationID anyrow (mark_failed org v e u t)"
  by (auto simp: mark_synced_def mark_failed_def intro!: unique_on_update_mono)

lemma keeps_UpsertOrganizationStatus: "op_keeps (store_inv md) (UpsertOrganizationStatus now org b)"
  unfolding UpsertOrganizationStatus_def
  by (rule op_keeps_exec) (auto simp: row_of_Inr Let_def intro!: set_statuses_inv upsert_status_keys dest: statuses_keys)

lemma keeps_ClaimOrganizationStatusForSync: "op_keeps (store_inv md) (ClaimOrganizationStatusForSync now l)"
  unfolding ClaimOrganizationStatusForSync_def
  by (rule op_keeps_exec) (auto split: prod.splits intro!: set_statuses_inv intro: claim_status_keys dest: statuses_keys)

lemma keeps_MarkOrganizationStatusSynced: "op_keeps (store_inv md) (MarkOrganizationStatusSynced org v now)"
  unfolding MarkOrganizationStatusSynced_def
  by (intro op_keeps_andthen op_keeps_exec quiet_op_keeps quiet_intros)
    (auto intro!: set_statuses_inv mark_keys dest: statuses_keys)

lemma keeps_MarkOrganizationStatusFailed: "op_keeps (store_inv md) (MarkOrganizationStatusFailed org v e u)"
  unfolding MarkOrganizationStatusFailed_def
  by (rule op_keeps_exec) (auto intro!: set_statuses_inv mark_keys dest: statuses_keys)

lemma keeps_DeleteOrganizationStatus: "op_keeps (store_inv md) (DeleteOrganizationStatus org)"
  unfolding DeleteOrganizationStatus_def
  by (rule op_keeps_exec) (auto intro!: set_statuses_inv unique_on_delete dest: statuses_keys)

lemma quiet_CountUnsynced [quiet_intros]: "quiet CountUnsyncedOrganizationStatuses"
  unfolding CountUnsyncedOrganizationStatuses_def by (intro quiet_intros)

lemma atomic_org_statuses:
  "atomic (UpsertOrganizationStatus now org b)" "atomic (ClaimOrganizationStatusForSync now l)"
  "atomic (MarkOrganizationStatusFailed org v e u)" "atomic (DeleteOrganizationStatus org)"
  unfolding UpsertOrganizationStatus_def ClaimOrganizationStatusForSync_def MarkOrganizationStatusFailed_def
    DeleteOrganizationStatus_def
  by (rule atomic_exec)+

lemma atomic_MarkOrganizationStatusSynced: "atomic (MarkOrganizationStatusSynced org v now)"
  unfolding MarkOrganizationStatusSynced_def by (intro atomic_exec_andthen quiet_intros) (simp add: ret_def)

end
