(* ===== verification/Org_Worker.thy ===== *)
theory Org_Worker
  imports Store_OrgStatus
begin

text \<open>
  The worker that applies organization statuses (\<open>services/projects/orgstatus/worker.go\<close>).

  The first part is the sequential code: the configuration, the backoff, \<open>syncOne\<close> and the loop of
  \<open>ProcessOnce\<close>, with the fan-out (\<open>Sync\<close>) as an argument.  The clock and the context of the worker
  are read from the world.  Times are microseconds, durations nanoseconds.  \<open>ProcessOnce\<close> takes fuel,
  one unit per claim; \<open>None\<close> is a pass that has not ended yet.

  The second part is the concurrent system: any number of workers, the writers of desired states and the
  clock, interleaved at the granularity of the SQL statements.  The locale \<open>status_queue\<close> is the
  contract between the worker and the store; the invariants of the system are proved in it and the
  store's statements interpret it.
\<close>

section \<open>The sequential worker\<close>

record Config =
  PollInterval :: int
  SyncTimeout :: int
  Lease :: int
  MaxBackoff :: int

definition DefaultPollInterval :: int where "DefaultPollInterval = 30 * second_ns"
definition DefaultSyncTimeout :: int where "DefaultSyncTimeout = 10 * minute_ns"
definition DefaultLease :: int where "DefaultLease = 15 * minute_ns"
definition DefaultMaxBackoff :: int where "DefaultMaxBackoff = 10 * minute_ns"
definition escalateAfter :: int where "escalateAfter = hour_ns"
definition bookkeepingTimeout :: int where "bookkeepingTimeout = 5 * second_ns"

definition withDefaults :: "Config \<Rightarrow> Config" where
  "withDefaults c0 =
     (let c1 = (if PollInterval c0 \<le> 0 then c0\<lparr>PollInterval := DefaultPollInterval\<rparr> else c0);
          c2 = (if SyncTimeout c1 \<le> 0 then c1\<lparr>SyncTimeout := DefaultSyncTimeout\<rparr> else c1);
          c3 = (if Lease c2 \<le> 0 then c2\<lparr>Lease := DefaultLease\<rparr> else c2);
          c4 = (if MaxBackoff c3 \<le> 0 then c3\<lparr>MaxBackoff := DefaultMaxBackoff\<rparr> else c3)
      in if Lease c4 < SyncTimeout c4 then c4\<lparr>Lease := SyncTimeout c4\<rparr> else c4)"

datatype Level = WarnLevel | ErrorLevel | InfoLevel

definition failureLevel :: "int \<Rightarrow> Level" where
  "failureLevel unsyncedFor = (if unsyncedFor \<ge> escalateAfter then ErrorLevel else WarnLevel)"

definition backoff :: "Config \<Rightarrow> int \<Rightarrow> int" where
  "backoff cfg attempts0 =
     (let attempts = (if attempts0 < 1 then 1 else attempts0);
          b = 2 ^ nat (min (attempts - 1) 20) * second_ns
      in min b (MaxBackoff cfg))"

text \<open>What the worker sees of the world: its clock, its context, and how an error prints.\<close>

record 'w worker_env =
  now_of :: "'w \<Rightarrow> int"
  ctx_err :: "'w \<Rightarrow> goerr option"
  error_text :: "goerr \<Rightarrow> string"

definition add_dur :: "int \<Rightarrow> int \<Rightarrow> int" where
  "add_dur t d = t + quot_go d 1000"

definition observe :: "('w \<Rightarrow> 'a) \<Rightarrow> ('w, 'a) cmd" where
  "observe f = call_fn (\<lambda>w. (Inr (f w), w))"

definition syncOne ::
  "Config \<Rightarrow> 'w worker_env \<Rightarrow> (string \<Rightarrow> bool \<Rightarrow> ('w, unit) cmd) \<Rightarrow> OrganizationStatus \<Rightarrow> ('w, unit) cmd" where
  "syncOne cfg env syncFn pending =
     with_res (syncFn (os_OrganizationID pending) (os_Disabled pending)) (\<lambda>r. case r of
       Inl syncErr \<Rightarrow>
         andthen (observe (\<lambda>w. if ctx_err env w \<noteq> None then now_of env w
             else add_dur (now_of env w) (backoff cfg (os_Attempts pending)))) (\<lambda>retryAt.
         map_err (Wrap (''record sync failure for '' @ os_OrganizationID pending))
           (MarkOrganizationStatusFailed (os_OrganizationID pending) (os_Version pending) (error_text env syncErr) retryAt))
     | Inr _ \<Rightarrow>
         andthen (observe (now_of env)) (\<lambda>now.
         andthen (map_err (Wrap (''record sync success for '' @ os_OrganizationID pending))
           (MarkOrganizationStatusSynced (os_OrganizationID pending) (os_Version pending) now)) (\<lambda>marked.
         ret ())))"

fun ProcessOnce ::
  "nat \<Rightarrow> Config \<Rightarrow> 'w worker_env \<Rightarrow> (string \<Rightarrow> bool \<Rightarrow> ('w, unit) cmd) \<Rightarrow> int \<Rightarrow> (db, 'w) sess \<Rightarrow>
   (int \<times> goerr option) option \<times> (db, 'w) sess" where
  "ProcessOnce 0 cfg env syncFn attempted s = (None, s)"
| "ProcessOnce (Suc fuel) cfg env syncFn attempted s =
     (case ctx_err env (world s) of
        Some e \<Rightarrow> (Some (attempted, Some e), s)
      | None \<Rightarrow> (case ClaimOrganizationStatusForSync (now_of env (world s)) (Lease cfg) s of
            (Inl e, s') \<Rightarrow> (Some (attempted, Some (Wrap ''claim organization status'' e)), s')
          | (Inr None, s') \<Rightarrow> (Some (attempted, None), s')
          | (Inr (Some pending), s') \<Rightarrow> (case syncOne cfg env syncFn pending s' of
                (Inl e, s'') \<Rightarrow> (Some (attempted + 1, Some e), s'')
              | (Inr _, s'') \<Rightarrow> ProcessOnce fuel cfg env syncFn (attempted + 1) s'')))"

text \<open>The level \<open>reportBacklog\<close> logs at, if it logs.\<close>

definition reportBacklog :: "Config \<Rightarrow> int \<Rightarrow> int \<times> int option \<Rightarrow> Level option" where
  "reportBacklog cfg now backlog = (case backlog of
     (count, oldest) \<Rightarrow>
       if count = 0 then None
       else Some (if (now - coalesce oldest 0) * 1000 \<ge> Lease cfg then WarnLevel else InfoLevel))"

section \<open>The store as a queue\<close>

text \<open>
  What the worker needs of the store: a table of rows by organization, in which a write of a desired
  state, a claim, the two kinds of bookkeeping and a deletion each change one row.
\<close>

locale status_queue =
  fixes valid :: "'t \<Rightarrow> bool" and row :: "'t \<Rightarrow> string \<Rightarrow> OrganizationStatus option"
    and upsert :: "string \<Rightarrow> bool \<Rightarrow> int \<Rightarrow> 't \<Rightarrow> 't"
    and claim :: "int \<Rightarrow> int \<Rightarrow> 't \<Rightarrow> OrganizationStatus option \<times> 't"
    and synced :: "string \<Rightarrow> int \<Rightarrow> int \<Rightarrow> 't \<Rightarrow> 't"
    and failed :: "string \<Rightarrow> int \<Rightarrow> string \<Rightarrow> int \<Rightarrow> 't \<Rightarrow> 't"
    and delete :: "string \<Rightarrow> 't \<Rightarrow> 't"
  assumes row_org: "valid t \<Longrightarrow> row t k = Some r \<Longrightarrow> os_OrganizationID r = k"
    and valid_upsert: "valid t \<Longrightarrow> valid (upsert k b now t)"
    and valid_claim: "valid t \<Longrightarrow> claim now l t = (q, t') \<Longrightarrow> valid t'"
    and valid_synced: "valid t \<Longrightarrow> valid (synced k v now t)"
    and valid_failed: "valid t \<Longrightarrow> valid (failed k v e u t)"
    and valid_delete: "valid t \<Longrightarrow> valid (delete k t)"
    and row_upsert: "valid t \<Longrightarrow> row (upsert k b now t) = (row t)(k \<mapsto>
          (case row t k of None \<Rightarrow> new_status k b now | Some r \<Rightarrow> renew_status b now r))"
    and row_claim: "valid t \<Longrightarrow> claim now l t = (Some c, t') \<Longrightarrow> \<exists>r. row t (os_OrganizationID r) = Some r \<and>
          due now r \<and> c = take_lease now l r \<and> row t' = (row t)(os_OrganizationID r \<mapsto> c)"
    and row_idle: "valid t \<Longrightarrow> claim now l t = (None, t') \<Longrightarrow> row t' = row t \<and> (\<forall>k r. row t k = Some r \<longrightarrow> \<not> due now r)"
    and row_synced: "valid t \<Longrightarrow> row (synced k v now t) = (row t)(k := map_option (mark_synced_row v now) (row t k))"
    and row_failed: "valid t \<Longrightarrow> row (failed k v e u t) = (row t)(k := map_option (mark_failed_row v e u) (row t k))"
    and row_delete: "valid t \<Longrightarrow> row (delete k t) = (row t)(k := None)"
begin

text \<open>A claim finds a row whenever one is due.\<close>

lemma claim_progress:
  assumes "valid t" "row t k = Some r" "due now r"
  shows "\<exists>c t'. claim now l t = (Some c, t') \<and> os_SyncedAt c = None \<and> os_LeaseUntil c = Some (lease_end now l)"
proof -
  obtain c t' where c: "claim now l t = (c, t')" by fastforce
  show ?thesis
  proof (cases c)
    case None
    then show ?thesis using row_idle[OF assms(1)] c assms(2,3) by blast
  next
    case (Some x)
    then obtain r0 where "due now r0" "x = take_lease now l r0" using row_claim[OF assms(1)] c by blast
    then show ?thesis using c Some by (auto simp: due_def take_lease_def)
  qed
qed

end

definition status_row :: "OrganizationStatus list \<Rightarrow> string \<Rightarrow> OrganizationStatus option" where
  "status_row t k = find (of_org k) t"

lemma status_row_update:
  assumes "\<And>r. os_OrganizationID (f r) = os_OrganizationID r"
  shows "status_row (update_where (of_org k) f t) = (status_row t)(k := map_option f (status_row t k))"
proof (rule ext)
  fix x
  have "find (of_org x) (update_where (of_org k) f t) = map_option (\<lambda>r. if of_org k r then f r else r) (find (of_org x) t)"
    by (rule find_update_where) (simp add: assms)
  then show "status_row (update_where (of_org k) f t) x = ((status_row t)(k := map_option f (status_row t k))) x"
    by (auto simp: status_row_def option.map_comp dest!: find_SomeD intro!: option.map_cong0 split: option.splits)
      (cases "find (of_org x) t"; auto dest: find_SomeD)+
qed

lemma status_row_delete: "status_row (delete_where (of_org k) t) = (status_row t)(k := None)"
proof (rule ext)
  fix x
  show "status_row (delete_where (of_org k) t) x = ((status_row t)(k := None)) x"
    by (induction t) (auto simp: status_row_def delete_where_def)
qed

lemma oldest_dueD:
  assumes "oldest_due now t = Some r"
  shows "r \<in> set t \<and> due now r"
  using first_row_SomeD[OF assms[unfolded oldest_due_def]] by simp

lemma oldest_due_None: "oldest_due now t = None \<longleftrightarrow> (\<forall>r\<in>set t. \<not> due now r)"
proof -
  have "sort_key os_UpdatedAt (filter (due now) t) = [] \<longleftrightarrow> filter (due now) t = []"
    by (metis length_0_conv length_sort)
  then show ?thesis by (simp add: oldest_due_def first_row_None_iff filter_empty_conv)
qed

interpretation sq: status_queue "unique_on os_OrganizationID anyrow" status_row
    upsert_status claim_status mark_synced mark_failed "\<lambda>k. delete_where (of_org k)"
proof unfold_locales
  fix t k r assume "status_row t k = Some r"
  then show "os_OrganizationID r = k" by (auto simp: status_row_def dest!: find_SomeD)
next
  fix t k b now
  show "status_row (upsert_status k b now t) = (status_row t)(k \<mapsto>
      (case status_row t k of None \<Rightarrow> new_status k b now | Some r \<Rightarrow> renew_status b now r))"
  proof (cases "list_ex (of_org k) t")
    case True
    then obtain r where "status_row t k = Some r"
      using find_NoneD[of "of_org k" t] by (cases "status_row t k") (auto simp: list_ex_iff status_row_def)
    then show ?thesis using True by (simp add: upsert_status_def status_row_update)
  next
    case False
    then have n: "status_row t k = None" by (auto simp: list_ex_iff status_row_def find_None_iff)
    have "status_row (t @ [new_status k b now]) x = ((status_row t)(k \<mapsto> new_status k b now)) x" for x
      using n by (auto simp: status_row_def find_append new_status_def split: option.splits)
    then show ?thesis using False n by (auto simp: upsert_status_def)
  qed
next
  fix t now l c t'
  assume u: "unique_on os_OrganizationID anyrow t" and c: "claim_status now l t = (Some c, t')"
  obtain r where r: "oldest_due now t = Some r" "c = take_lease now l r"
    "t' = update_where (of_org (os_OrganizationID r)) (take_lease now l) t"
    using c by (auto simp: claim_status_def split: option.splits)
  have "status_row t (os_OrganizationID r) = Some r"
    unfolding status_row_def using oldest_dueD[OF r(1)] by (intro find_unique[OF u]) auto
  then show "\<exists>r. status_row t (os_OrganizationID r) = Some r \<and> due now r \<and> c = take_lease now l r \<and>
      status_row t' = (status_row t)(os_OrganizationID r \<mapsto> c)"
    using r oldest_dueD[OF r(1)] by (intro exI[of _ r]) (simp add: status_row_update)
next
  fix t now l t'
  assume "claim_status now l t = (None, t')"
  then have "t' = t" "oldest_due now t = None" by (auto simp: claim_status_def split: option.splits)
  then show "status_row t' = status_row t \<and> (\<forall>k r. status_row t k = Some r \<longrightarrow> \<not> due now r)"
    by (auto simp: status_row_def oldest_due_None dest!: find_SomeD)
qed (auto simp: upsert_status_keys mark_keys mark_synced_def mark_failed_def status_row_update status_row_delete
      intro: claim_status_keys unique_on_delete intro!: unique_on_update_mono)

section \<open>The concurrent system\<close>

text \<open>
  A run is a sync in flight: the row as claimed and the time of the claim.  \<open>ws_applied\<close> records the
  syncs that ended well since the row of the organization was created: organization, version and the state that was
  fanned out.  \<open>ws_torn\<close> holds the organizations whose row was deleted while a sync of it was in flight; a deletion
  with no sync in flight takes them out again.
\<close>

record run =
  rn_pending :: OrganizationStatus
  rn_start :: int

record wsys =
  ws_table :: "OrganizationStatus list"
  ws_clock :: int
  ws_runs :: "run list"
  ws_applied :: "(string \<times> int \<times> bool) list"
  ws_torn :: "string set"

abbreviation rn_org :: "run \<Rightarrow> string" where "rn_org x \<equiv> os_OrganizationID (rn_pending x)"

text \<open>The context of a sync ends after \<open>SyncTimeout\<close>, that of its bookkeeping \<open>bookkeepingTimeout\<close> later.\<close>

definition run_budget :: "Config \<Rightarrow> int" where
  "run_budget cfg = quot_go (SyncTimeout cfg + bookkeepingTimeout) 1000"

definition lease_us :: "Config \<Rightarrow> int" where
  "lease_us cfg = quot_go (Lease cfg) 1000000 * 1000"

inductive wstep :: "Config \<Rightarrow> wsys \<Rightarrow> wsys \<Rightarrow> bool" for cfg where
  upsert: "wstep cfg st (st\<lparr>ws_table := upsert_status k b (ws_clock st) (ws_table st)\<rparr>)"
| claim: "claim_status (ws_clock st) (Lease cfg) (ws_table st) = (Some c, t) \<Longrightarrow>
    wstep cfg st (st\<lparr>ws_table := t, ws_runs := \<lparr>rn_pending = c, rn_start = ws_clock st\<rparr> # ws_runs st\<rparr>)"
| synced: "x \<in> set (ws_runs st) \<Longrightarrow>
    wstep cfg st (st\<lparr>ws_table := mark_synced (rn_org x) (os_Version (rn_pending x)) (ws_clock st) (ws_table st),
      ws_runs := remove1 x (ws_runs st),
      ws_applied := (rn_org x, os_Version (rn_pending x), os_Disabled (rn_pending x)) # ws_applied st\<rparr>)"
| failed: "x \<in> set (ws_runs st) \<Longrightarrow>
    wstep cfg st (st\<lparr>ws_table := mark_failed (rn_org x) (os_Version (rn_pending x)) reason retryAt (ws_table st),
      ws_runs := remove1 x (ws_runs st)\<rparr>)"
| delete: "wstep cfg st (st\<lparr>ws_table := delete_where (of_org k) (ws_table st),
      ws_applied := filter (\<lambda>(organization, _). organization \<noteq> k) (ws_applied st),
      ws_torn := (if k \<in> rn_org ` set (ws_runs st) then insert k (ws_torn st) else ws_torn st - {k})\<rparr>)"
| crash: "x \<in> set (ws_runs st) \<Longrightarrow> wstep cfg st (st\<lparr>ws_runs := remove1 x (ws_runs st)\<rparr>)"
| tick: "ws_clock st \<le> u \<Longrightarrow> (\<And>x. x \<in> set (ws_runs st) \<Longrightarrow> u \<le> rn_start x + run_budget cfg) \<Longrightarrow>
    wstep cfg st (st\<lparr>ws_clock := u\<rparr>)"

inductive wreach :: "Config \<Rightarrow> wsys \<Rightarrow> bool" for cfg where
  start: "wreach cfg \<lparr>ws_table = [], ws_clock = u, ws_runs = [], ws_applied = [], ws_torn = {}\<rparr>"
| step: "wreach cfg st \<Longrightarrow> wstep cfg st st' \<Longrightarrow> wreach cfg st'"

subsection \<open>A mark never outruns a desired state\<close>

text \<open>A row that moves on keeps its state unless its version grows.\<close>

definition advances :: "OrganizationStatus \<Rightarrow> OrganizationStatus \<Rightarrow> bool" where
  "advances r r' \<longleftrightarrow> os_Version r \<le> os_Version r' \<and> (os_Version r = os_Version r' \<longrightarrow> os_Disabled r = os_Disabled r')"

definition fresh :: "string set \<Rightarrow> (string \<Rightarrow> OrganizationStatus option) \<Rightarrow> run list \<Rightarrow> (string \<times> int \<times> bool) list \<Rightarrow> bool" where
  "fresh torn rows runs applied \<longleftrightarrow>
     (\<forall>k r. k \<notin> torn \<longrightarrow> rows k = Some r \<longrightarrow> os_SyncedAt r \<noteq> None \<longrightarrow> (k, os_Version r, os_Disabled r) \<in> set applied) \<and>
     (\<forall>x\<in>set runs. rn_org x \<notin> torn \<longrightarrow> (\<exists>r. rows (rn_org x) = Some r \<and> advances (rn_pending x) r))"

lemma advances_trans: "advances r r' \<Longrightarrow> advances r' r'' \<Longrightarrow> advances r r''"
  by (auto simp: advances_def)

lemma advances_rows [simp]:
  "advances r r" "advances r (renew_status b now r)" "advances r (take_lease now l r)"
  "advances (take_lease now l r) (take_lease now l r)"
  "advances r (mark_synced_row v now r)" "advances r (mark_failed_row v e u r)"
  by (auto simp: advances_def renew_status_def take_lease_def mark_synced_row_def mark_failed_row_def)

text \<open>One row changes: the runs stay behind it, and its mark has to be covered.\<close>

lemma fresh_point:
  assumes "fresh torn rows runs applied" "set applied \<subseteq> set applied'"
    and adv: "\<And>r. k \<notin> torn \<Longrightarrow> rows k = Some r \<Longrightarrow> advances r r'"
    and mark: "k \<notin> torn \<Longrightarrow> os_SyncedAt r' \<noteq> None \<Longrightarrow> (k, os_Version r', os_Disabled r') \<in> set applied'"
  shows "fresh torn (rows(k \<mapsto> r')) runs applied'"
  unfolding fresh_def
proof (intro conjI ballI impI)
  fix x assume "x \<in> set runs" "rn_org x \<notin> torn"
  then obtain r where r: "rows (rn_org x) = Some r" "advances (rn_pending x) r"
    using assms(1) by (auto simp: fresh_def)
  show "\<exists>r. (rows(k \<mapsto> r')) (rn_org x) = Some r \<and> advances (rn_pending x) r"
  proof (cases "rn_org x = k")
    case True
    then show ?thesis using r adv \<open>rn_org x \<notin> torn\<close> advances_trans by fastforce
  next
    case False
    then show ?thesis using r by simp
  qed
qed (use assms in \<open>auto simp: fresh_def\<close>)

lemma fresh_map:
  assumes fr: "fresh torn rows runs applied" and sub: "set applied \<subseteq> set applied'"
    and ok: "\<And>r. k \<notin> torn \<Longrightarrow> rows k = Some r \<Longrightarrow> advances r (f r) \<and> (os_SyncedAt (f r) \<noteq> None \<longrightarrow> (k, os_Version (f r), os_Disabled (f r)) \<in> set applied')"
  shows "fresh torn (rows(k := map_option f (rows k))) runs applied'"
proof (cases "rows k")
  case None
  then have "rows(k := map_option f (rows k)) = rows" by (simp add: fun_upd_idem)
  then show ?thesis using fr sub by (auto simp: fresh_def)
next
  case (Some r)
  then show ?thesis using fresh_point[OF fr sub, of k "f r"] ok by simp
qed

lemma fresh_remove: "fresh torn rows runs applied \<Longrightarrow> fresh torn rows (remove1 x runs) applied"
  using set_remove1_subset[of x runs] by (auto simp: fresh_def)

lemma fresh_delete:
  "fresh torn rows runs applied \<Longrightarrow> fresh (if k \<in> rn_org ` set runs then insert k torn else torn - {k}) (rows(k := None)) runs
     (filter (\<lambda>(organization, _). organization \<noteq> k) applied)"
  by (auto simp: fresh_def)

subsection \<open>A lease outlives its sync\<close>

definition leased :: "Config \<Rightarrow> string set \<Rightarrow> (string \<Rightarrow> OrganizationStatus option) \<Rightarrow> int \<Rightarrow> run list \<Rightarrow> bool" where
  "leased cfg torn rows now runs \<longleftrightarrow> distinct (map rn_org (filter (\<lambda>x. rn_org x \<notin> torn) runs)) \<and>
     (\<forall>x\<in>set runs. rn_start x \<le> now \<and> now \<le> rn_start x + run_budget cfg \<and> (rn_org x \<notin> torn \<longrightarrow>
        (\<exists>r. rows (rn_org x) = Some r \<and> os_LeaseUntil r = Some (rn_start x + lease_us cfg))))"

context status_queue
begin

lemma fresh_upsert:
  assumes "valid t" "fresh torn (row t) runs applied"
  shows "fresh torn (row (upsert k b now t)) runs applied"
  unfolding row_upsert[OF assms(1)]
  by (rule fresh_point[OF assms(2)]) (auto simp: new_status_def renew_status_def advances_def split: option.splits)

lemma fresh_claim:
  assumes "valid t" "claim now l t = (Some c, t')" "fresh torn (row t) runs applied"
  shows "fresh torn (row t') (\<lparr>rn_pending = c, rn_start = now\<rparr> # runs) applied"
proof -
  obtain r where r: "row t (os_OrganizationID r) = Some r" "due now r" "c = take_lease now l r"
    "row t' = (row t)(os_OrganizationID r \<mapsto> c)" using row_claim[OF assms(1,2)] by blast
  have "fresh torn (row t') runs applied" unfolding r(4)
    by (rule fresh_point[OF assms(3)]) (use r in \<open>auto simp: take_lease_def advances_def due_def\<close>)
  then show ?thesis unfolding fresh_def using r by simp
qed

lemma fresh_synced:
  assumes "valid t" "x \<in> set runs" "fresh torn (row t) runs applied"
  shows "fresh torn (row (synced (rn_org x) (os_Version (rn_pending x)) now t)) (remove1 x runs)
    ((rn_org x, os_Version (rn_pending x), os_Disabled (rn_pending x)) # applied)"
  unfolding row_synced[OF assms(1)]
proof (rule fresh_remove[OF fresh_map[OF assms(3)]])
  fix r assume "rn_org x \<notin> torn" "row t (rn_org x) = Some r"
  then show "advances r (mark_synced_row (os_Version (rn_pending x)) now r) \<and>
    (os_SyncedAt (mark_synced_row (os_Version (rn_pending x)) now r) \<noteq> None \<longrightarrow>
     (rn_org x, os_Version (mark_synced_row (os_Version (rn_pending x)) now r), os_Disabled (mark_synced_row (os_Version (rn_pending x)) now r))
       \<in> set ((rn_org x, os_Version (rn_pending x), os_Disabled (rn_pending x)) # applied))"
    using assms(2,3) by (auto simp: mark_synced_row_def advances_def fresh_def split: if_splits)
qed auto

lemma fresh_failed:
  assumes "valid t" "fresh torn (row t) runs applied"
  shows "fresh torn (row (failed k v e u t)) (remove1 x runs) applied"
  unfolding row_failed[OF assms(1)]
  by (rule fresh_remove[OF fresh_map[OF assms(2)]]) (use assms(2) in \<open>auto simp: mark_failed_row_def advances_def fresh_def\<close>)

lemma leased_upsert:
  assumes "valid t" "leased cfg torn (row t) now runs"
  shows "leased cfg torn (row (upsert k b now' t)) now runs"
  using assms(2) unfolding leased_def row_upsert[OF assms(1)]
  by (fastforce simp: renew_status_def split: option.splits)

lemma leased_claim:
  assumes "valid t" "claim now (Lease cfg) t = (Some c, t')" "leased cfg torn (row t) now runs"
    and budget: "run_budget cfg < lease_us cfg" "0 \<le> run_budget cfg"
  shows "leased cfg torn (row t') now (\<lparr>rn_pending = c, rn_start = now\<rparr> # runs)"
proof -
  obtain r where r: "row t (os_OrganizationID r) = Some r" "due now r" "c = take_lease now (Lease cfg) r"
    "row t' = (row t)(os_OrganizationID r \<mapsto> c)" using row_claim[OF assms(1,2)] by blast
  have other: "\<forall>x\<in>set runs. rn_org x \<notin> torn \<longrightarrow> rn_org x \<noteq> os_OrganizationID r"
  proof (intro ballI notI impI)
    fix x assume that: "x \<in> set runs" "rn_org x \<notin> torn" and "rn_org x = os_OrganizationID r"
    then have "os_LeaseUntil r = Some (rn_start x + lease_us cfg)" "now \<le> rn_start x + run_budget cfg"
      using assms(3) that r(1) by (auto simp: leased_def)
    then show False using r(2) budget(1) by (simp add: due_def)
  qed
  have "os_OrganizationID c = os_OrganizationID r" "os_LeaseUntil c = Some (now + lease_us cfg)"
    by (simp_all add: r(3) take_lease_def lease_end_def lease_us_def)
  then show ?thesis using assms(3) other budget(2) unfolding leased_def r(4) by (auto simp: image_iff)
qed

end

lemma distinct_map_remove1:
  assumes "distinct (map f xs)"
  shows "distinct (map f (remove1 x xs))" "x \<in> set xs \<Longrightarrow> y \<in> set (remove1 x xs) \<Longrightarrow> f y \<noteq> f x"
  using assms by (auto simp: distinct_map inj_on_def dest: notin_set_remove1)

lemma leased_remove: "leased cfg torn rows now runs \<Longrightarrow> leased cfg torn rows now (remove1 x runs)"
  using set_remove1_subset[of x runs] distinct_map_remove1(1)[of rn_org _ x] by (auto simp: leased_def filter_remove1)

lemma leased_mark:
  assumes "leased cfg torn rows now runs" "x \<in> set runs" "rows' = rows(rn_org x := v)"
  shows "leased cfg torn rows' now (remove1 x runs)"
proof -
  have "rn_org y \<noteq> rn_org x" if "y \<in> set (remove1 x runs)" "rn_org y \<notin> torn" for y
  proof
    assume eq: "rn_org y = rn_org x"
    have "distinct (map rn_org (filter (\<lambda>x. rn_org x \<notin> torn) runs))" using assms(1) by (simp add: leased_def)
    moreover have "x \<in> set (filter (\<lambda>x. rn_org x \<notin> torn) runs)" using assms(2) that(2) eq by simp
    moreover have "y \<in> set (remove1 x (filter (\<lambda>x. rn_org x \<notin> torn) runs))" using that by (simp flip: filter_remove1)
    ultimately show False using distinct_map_remove1(2) eq by fastforce
  qed
  then show ?thesis using leased_remove[OF assms(1), of x] assms(3) by (auto simp: leased_def)
qed

lemma leased_delete:
  assumes "leased cfg torn rows now runs"
  shows "leased cfg (if k \<in> rn_org ` set runs then insert k torn else torn - {k}) (rows(k := None)) now runs"
proof -
  have "filter (\<lambda>x. rn_org x \<notin> insert k torn) runs = filter (\<lambda>x. rn_org x \<noteq> k) (filter (\<lambda>x. rn_org x \<notin> torn) runs)" by (simp add: conj_commute)
  then have "distinct (map rn_org (filter (\<lambda>x. rn_org x \<notin> insert k torn) runs))"
    using assms distinct_map_filter unfolding leased_def by metis
  moreover have "filter (\<lambda>x. rn_org x \<notin> torn - {k}) runs = filter (\<lambda>x. rn_org x \<notin> torn) runs" if "k \<notin> rn_org ` set runs"
    using that by (intro filter_cong) auto
  ultimately show ?thesis using assms by (auto simp: leased_def)
qed

text \<open>The invariants of the system, by rule induction.\<close>

lemma wreach_valid:
  assumes "wreach cfg st"
  shows "unique_on os_OrganizationID anyrow (ws_table st)"
  using assms
proof (induction rule: wreach.induct)
  case (step st st')
  from step(2) step(3) show ?case
    by (cases rule: wstep.cases)
      (auto intro: sq.valid_upsert sq.valid_claim sq.valid_synced sq.valid_failed sq.valid_delete)
qed simp

lemma wreach_fresh:
  assumes "wreach cfg st"
  shows "fresh (ws_torn st) (status_row (ws_table st)) (ws_runs st) (ws_applied st)"
  using assms
proof (induction rule: wreach.induct)
  case (step st st')
  note v = wreach_valid[OF step(1)]
  from step(2) show ?case
  proof (cases rule: wstep.cases)
    case (delete k)
    then show ?thesis using fresh_delete[OF step(3), of k] by (simp add: status_row_delete fun_upd_def split del: if_split)
  qed (use step(3) in \<open>auto intro: sq.fresh_upsert[OF v] sq.fresh_claim[OF v] sq.fresh_synced[OF v] sq.fresh_failed[OF v] fresh_remove\<close>)
qed (simp add: fresh_def status_row_def)

lemma wreach_leased:
  assumes "wreach cfg st" "run_budget cfg < lease_us cfg" "0 \<le> run_budget cfg"
  shows "leased cfg (ws_torn st) (status_row (ws_table st)) (ws_clock st) (ws_runs st)"
  using assms(1)
proof (induction rule: wreach.induct)
  case (step st st')
  note v = wreach_valid[OF step(1)] and IH = step(3)
  from step(2) show ?case
  proof (cases rule: wstep.cases)
    case upsert
    then show ?thesis using sq.leased_upsert[OF v IH] by simp
  next
    case claim
    then show ?thesis using sq.leased_claim[OF v _ IH assms(2,3)] by simp
  next
    case (synced x)
    then show ?thesis using leased_mark[OF IH synced(2) sq.row_synced[OF v]] by simp
  next
    case (failed x)
    then show ?thesis using leased_mark[OF IH failed(2) sq.row_failed[OF v]] by simp
  next
    case crash
    then show ?thesis using leased_remove[OF IH] by simp
  next
    case (delete k)
    then show ?thesis using leased_delete[OF IH, of k] by (simp add: status_row_delete fun_upd_def split del: if_split)
  next
    case tick
    then show ?thesis using IH by (fastforce simp: leased_def)
  qed
qed (simp add: leased_def)

end
