(* ===== verification/Store_System.thy ===== *)
theory Store_System
  imports Org_Worker
begin

text \<open>
  The store as a whole: one constructor per method of the \<open>ProjectsStore\<close> interface that the SQL store
  implements, run as a command with its result dropped, and the databases reachable by running methods
  one after the other under any schedule of faults.  The results below are proved per method in the
  theories of the components; here they are put together.
\<close>

datatype (plugins only: code size) 'w store_op =
    OpListRegions string | OpListAllRegions | OpCreateRegion string RegionFlags string
  | OpCreateOrganizationRegion string string RegionFlags string | OpDeleteRegion string
  | OpGetRegion string string | OpListCells string string | OpListAllCells
  | OpCreateCell string string string "string option" | OpGetCell string string | OpDeleteCell string
  | OpCreateProject string string CreateProjectConfiguration | OpDeleteProject string string
  | OpGetProject string string | OpListOrganizationIDs | OpListProjects string
  | OpUpdateProject string string UpdateProjectConfiguration "(Project \<Rightarrow> 'w \<Rightarrow> (goerr + Project) \<times> 'w) option"
  | OpValidateHierarchy "string list" "string list" "string list" | OpCleanupTerminatedProjects int
  | OpListBranches string string | OpDescribeBranch string string string | OpGetBranchByName string string string
  | OpCreateBranch string string string string CreateBranchConfiguration "Branch \<Rightarrow> Project \<Rightarrow> 'w \<Rightarrow> (goerr + Branch) \<times> 'w"
  | OpUpdateBranch string string string UpdateBranchConfiguration "Branch \<Rightarrow> 'w \<Rightarrow> (goerr + Branch) \<times> 'w"
  | OpDeleteBranch string string string "Branch \<Rightarrow> 'w \<Rightarrow> (goerr + unit) \<times> 'w"
  | OpCleanupTerminatedBranches string int
  | OpCountActiveProjectBranches string | OpCountOrganizationBranches string | OpCountActiveOrgBranches string
  | OpCountActiveOrgProjects string | OpCountBranchesCreatedInLastHour string | OpCountProjectsCreatedInLastHour string
  | OpGetOrgLimits string string | OpSetOrgLimit string string LimitKey "goerr + jval" | OpDeleteOrgLimit string string LimitKey
  | OpCreateGithubInstallation string string int | OpListGithubInstallations string
  | OpUpdateGithubInstallation string string int | OpDeleteGithubInstallation int
  | OpCreateGithubRepoMapping string string string int string | OpGetGithubRepoMappingByProject string string
  | OpUpdateGithubRepoMapping string string int string | OpDeleteGithubRepoMapping string string
  | OpGetGithubRepoMappingByRepoID int
  | OpUpsertOrganizationStatus int string bool | OpClaimOrganizationStatusForSync int int
  | OpMarkOrganizationStatusSynced string int int | OpMarkOrganizationStatusFailed string int string int
  | OpDeleteOrganizationStatus string | OpCountUnsyncedOrganizationStatuses

definition void :: "('w, 'a) cmd \<Rightarrow> ('w, unit) cmd" where
  "void m = andthen m (\<lambda>_. ret ())"

fun run_op :: "(string \<Rightarrow> 'k::linorder) \<Rightarrow> int \<Rightarrow> 'w store_op \<Rightarrow> ('w, unit) cmd" where
  "run_op coll md (OpListRegions org) = void (ListRegions coll org)"
| "run_op coll md OpListAllRegions = void (ListAllRegions coll)"
| "run_op coll md (OpCreateRegion rid flags host) = void (CreateRegion rid flags host)"
| "run_op coll md (OpCreateOrganizationRegion org rid flags host) = void (CreateOrganizationRegion org rid flags host)"
| "run_op coll md (OpDeleteRegion rid) = DeleteRegion rid"
| "run_op coll md (OpGetRegion org rid) = void (GetRegion org rid)"
| "run_op coll md (OpListCells org rid) = void (ListCells org rid)"
| "run_op coll md OpListAllCells = void ListAllCells"
| "run_op coll md (OpCreateCell rid cell url sub) = void (CreateCell rid cell url sub)"
| "run_op coll md (OpGetCell org cell) = void (GetCell org cell)"
| "run_op coll md (OpDeleteCell cell) = DeleteCell cell"
| "run_op coll md (OpCreateProject newID org config) = void (CreateProject newID org config)"
| "run_op coll md (OpDeleteProject org pid) = DeleteProject org pid"
| "run_op coll md (OpGetProject org pid) = void (GetProject org pid)"
| "run_op coll md OpListOrganizationIDs = void (ListOrganizationIDs coll)"
| "run_op coll md (OpListProjects org) = void (ListProjects org)"
| "run_op coll md (OpUpdateProject org pid config f) = void (UpdateProject org pid config f)"
| "run_op coll md (OpValidateHierarchy orgs pids bids) = ValidateHierarchy orgs pids bids"
| "run_op coll md (OpCleanupTerminatedProjects t) = void (CleanupTerminatedProjects t)"
| "run_op coll md (OpListBranches org pid) = void (ListBranches org pid)"
| "run_op coll md (OpDescribeBranch org pid bid) = void (DescribeBranch org pid bid)"
| "run_op coll md (OpGetBranchByName org pid name) = void (GetBranchByName org pid name)"
| "run_op coll md (OpCreateBranch newID org pid cell config f) = void (CreateBranch md newID org pid cell config f)"
| "run_op coll md (OpUpdateBranch org pid bid config f) = void (UpdateBranch org pid bid config f)"
| "run_op coll md (OpDeleteBranch org pid bid f) = DeleteBranch org pid bid f"
| "run_op coll md (OpCleanupTerminatedBranches cell t) = void (CleanupTerminatedBranches cell t)"
| "run_op coll md (OpCountActiveProjectBranches pid) = void (CountActiveProjectBranches pid)"
| "run_op coll md (OpCountOrganizationBranches org) = void (CountOrganizationBranches org)"
| "run_op coll md (OpCountActiveOrgBranches org) = void (CountActiveOrgBranches org)"
| "run_op coll md (OpCountActiveOrgProjects org) = void (CountActiveOrgProjects org)"
| "run_op coll md (OpCountBranchesCreatedInLastHour org) = void (CountBranchesCreatedInLastHour org)"
| "run_op coll md (OpCountProjectsCreatedInLastHour org) = void (CountProjectsCreatedInLastHour org)"
| "run_op coll md (OpGetOrgLimits org pid) = void (GetOrgLimits org pid)"
| "run_op coll md (OpSetOrgLimit org pid key v) = SetOrgLimit org pid key v"
| "run_op coll md (OpDeleteOrgLimit org pid key) = DeleteOrgLimit org pid key"
| "run_op coll md (OpCreateGithubInstallation newID org n) = void (CreateGithubInstallation newID org n)"
| "run_op coll md (OpListGithubInstallations org) = void (ListGithubInstallations org)"
| "run_op coll md (OpUpdateGithubInstallation org ident n) = void (UpdateGithubInstallation org ident n)"
| "run_op coll md (OpDeleteGithubInstallation n) = DeleteGithubInstallation n"
| "run_op coll md (OpCreateGithubRepoMapping newID org pid repo bid) = void (CreateGithubRepoMapping newID org pid repo bid)"
| "run_op coll md (OpGetGithubRepoMappingByProject org pid) = void (GetGithubRepoMappingByProject org pid)"
| "run_op coll md (OpUpdateGithubRepoMapping org pid repo bid) = void (UpdateGithubRepoMapping org pid repo bid)"
| "run_op coll md (OpDeleteGithubRepoMapping org pid) = DeleteGithubRepoMapping org pid"
| "run_op coll md (OpGetGithubRepoMappingByRepoID repo) = void (GetGithubRepoMappingByRepoID repo)"
| "run_op coll md (OpUpsertOrganizationStatus now org b) = void (UpsertOrganizationStatus now org b)"
| "run_op coll md (OpClaimOrganizationStatusForSync now l) = void (ClaimOrganizationStatusForSync now l)"
| "run_op coll md (OpMarkOrganizationStatusSynced org v now) = void (MarkOrganizationStatusSynced org v now)"
| "run_op coll md (OpMarkOrganizationStatusFailed org v e u) = MarkOrganizationStatusFailed org v e u"
| "run_op coll md (OpDeleteOrganizationStatus org) = DeleteOrganizationStatus org"
| "run_op coll md OpCountUnsyncedOrganizationStatuses = void CountUnsyncedOrganizationStatuses"

lemma quiet_void: "quiet m \<Longrightarrow> quiet (void m)"
  unfolding void_def by (intro quiet_intros)

lemma keeps_void: "op_keeps I m \<Longrightarrow> op_keeps I (void m)"
  unfolding void_def by (erule op_keeps_andthen) (intro quiet_op_keeps quiet_intros)

lemma void_Inl: "void m s = (Inl e, s') \<Longrightarrow> m s = (Inl e, s')"
  by (cases "m s"; cases "fst (m s)") (simp_all add: void_def andthen_def ret_def)

lemma atomic_void: "atomic m \<Longrightarrow> atomic (void m)"
  unfolding atomic_def using void_Inl by blast

lemmas write_keeps =
  keeps_CreateRegion keeps_CreateOrganizationRegion keeps_DeleteRegion keeps_CreateCell keeps_DeleteCell
  keeps_CreateProject keeps_CleanupTerminatedProjects keeps_CreateBranch keeps_CleanupTerminatedBranches
  keeps_SetOrgLimit keeps_DeleteOrgLimit keeps_CreateGithubInstallation keeps_UpdateGithubInstallation
  keeps_DeleteGithubInstallation keeps_CreateGithubRepoMapping keeps_UpdateGithubRepoMapping
  keeps_DeleteGithubRepoMapping keeps_UpsertOrganizationStatus keeps_ClaimOrganizationStatusForSync
  keeps_MarkOrganizationStatusSynced keeps_MarkOrganizationStatusFailed keeps_DeleteOrganizationStatus
  keeps_DeleteProject keeps_UpdateProject keeps_UpdateBranch keeps_DeleteBranch

lemmas write_atomic =
  atomic_CreateRegion atomic_CreateOrganizationRegion atomic_DeleteRegion atomic_CreateCell atomic_DeleteCell
  atomic_CreateProject atomic_CleanupTerminatedProjects atomic_CreateBranch atomic_CleanupTerminatedBranches
  atomic_SetOrgLimit atomic_DeleteOrgLimit atomic_CreateGithubInstallation atomic_UpdateGithubInstallation
  atomic_DeleteGithubInstallation atomic_CreateGithubRepoMapping atomic_UpdateGithubRepoMapping
  atomic_DeleteGithubRepoMapping atomic_org_statuses atomic_MarkOrganizationStatusSynced
  atomic_DeleteProject atomic_UpdateProject atomic_UpdateBranch atomic_DeleteBranch

lemma run_op_keeps: "op_keeps (store_inv md) (run_op coll md op)"
  by (cases op) (simp_all add: write_keeps keeps_void quiet_op_keeps quiet_intros)

lemma run_op_atomic: "atomic (run_op coll md op)"
  by (cases op) (simp_all add: write_atomic atomic_void quiet_atomic quiet_intros)

text \<open>Databases reachable by any sequence of methods, each in a session with any faults, clock, locks and world.\<close>

inductive store_reach :: "(string \<Rightarrow> 'k::linorder) \<Rightarrow> int \<Rightarrow> 'w itself \<Rightarrow> db \<Rightarrow> bool" for coll md W where
  start: "store_reach coll md W empty_db"
| step: "store_reach coll md W d \<Longrightarrow> txn s = None \<Longrightarrow> committed s = d \<Longrightarrow>
    run_op coll md (op :: 'w store_op) s = (r, s') \<Longrightarrow> store_reach coll md W (committed s')"

lemma store_reach_inv: "store_reach coll md W d \<Longrightarrow> store_inv md d"
proof (induction rule: store_reach.induct)
  case start
  then show ?case by (rule store_inv_empty)
next
  case (step d s op r s')
  then show ?case using op_keepsD[OF run_op_keeps[of md coll op]] by blast
qed

end
