(* ===== verification/Projects_Correct.thy ===== *)
theory Projects_Correct
  imports Store_Branches
begin

text \<open>
  What the operations on regions, limits and projects achieve, over the definitions of
  \<open>Store_Regions\<close>, \<open>Store_Limits\<close> and \<open>Store_Projects\<close>.  Statements about a session with arbitrary
  faults need only that no transaction is open; statements that name a result assume a calm session.
\<close>

section \<open>Concrete inputs for the witnesses\<close>

definition sess_of :: "db \<Rightarrow> int \<Rightarrow> (db, nat) sess" where
  "sess_of d now = \<lparr>committed = d, txn = None, faults = [], clock = now, locked = [], world = 0\<rparr>"

lemma calm_sess_of [simp]: "calm (sess_of d now)" "txn (sess_of d now) = None" "committed (sess_of d now) = d"
  "clock (sess_of d now) = now" "faults (sess_of d now) = []"
  by (simp_all add: calm_def sess_of_def)

lemma ok_run: "\<not> isl (fst x) \<Longrightarrow> \<exists>y. x = (Inr y, snd x)"
  by (cases x; cases "fst x") auto

definition s2z_off :: ProjectScaleToZero where
  "s2z_off = \<lparr>BaseBranches = \<lparr>s2z_Enabled = False, s2z_InactivityPeriod = 0\<rparr>,
     ChildBranches = \<lparr>s2z_Enabled = True, s2z_InactivityPeriod = 5 * minute_ns\<rparr>\<rparr>"

definition demo_config :: "string \<Rightarrow> CreateProjectConfiguration" where
  "demo_config name = \<lparr>cpc_Name = name, cpc_ScaleToZero = s2z_off,
     cpc_IPFiltering = \<lparr>ipf_Enabled = False, ipf_CIDRs = None\<rparr>, cpc_UsageTier = ''t1''\<rparr>"

text \<open>The session after one project was created.\<close>

lemma demo_project:
  "calm (snd (CreateProject ''prj_1'' ''org'' (demo_config ''one'') (sess_of empty_db 0)))"
  "store_inv 3 (committed (snd (CreateProject ''prj_1'' ''org'' (demo_config ''one'') (sess_of empty_db 0))))"
proof -
  obtain r s where c: "CreateProject ''prj_1'' ''org'' (demo_config ''one'') (sess_of empty_db 0) = (r, s)" by fastforce
  have "txn s = None \<and> store_inv 3 (committed s)"
    by (rule op_keepsD[OF keeps_CreateProject _ _ c]) (simp_all add: store_inv_empty)
  moreover have "faults s = []"
    using c calm_CreateProject[OF calm_sess_of(1), of 3 empty_db 0]
    by (auto simp: Let_def store_inv_empty split: if_splits sum.splits)
  ultimately show
    "calm (snd (CreateProject ''prj_1'' ''org'' (demo_config ''one'') (sess_of empty_db 0)))"
    "store_inv 3 (committed (snd (CreateProject ''prj_1'' ''org'' (demo_config ''one'') (sess_of empty_db 0))))"
    by (simp_all add: c calm_def)
qed

section \<open>Creating a project\<close>

text \<open>C29. A project is created only while the organization has room: whatever faults the session meets,
  after a successful \<open>CreateProject\<close> the organization has exactly one active project more, and not more
  than its limit when the limit is not zero (zero means unlimited).\<close>

theorem CreateProject_within_limit:
  assumes "txn s = None" "store_inv md (committed s)" "CreateProject newID org config s = (Inr p, s')"
  shows "active_projects (committed s') org = active_projects (committed s) org + 1 \<and>
    (let limit = project_limit (committed s) org (cpc_UsageTier config) LimitMaxProjects in
     limit = 0 \<or> active_projects (committed s') org \<le> limit)"
proof -
  have run: "in_tx_as (Wrap ''begin tx'') (Wrap ''commit tx'') (CreateProject_body newID org config) to_Project s = (Inr p, s')"
    using assms(3) by (auto simp: CreateProject_def andthen_def fail_if_def split: if_splits)
  from create_project.run_post[OF assms(1) run triple_CreateProject[OF assms(2)]] obtain now r where
    r: "r = new_project_row newID now org config" "ins_project r (committed s) = Inr (r, committed s')"
    and room: "project_limit (committed s) org (cpc_UsageTier config) LimitMaxProjects \<noteq> 0 \<longrightarrow>
      active_projects (committed s) org < project_limit (committed s) org (cpc_UsageTier config) LimitMaxProjects"
    by blast
  have "committed s' = (committed s)\<lparr>t_projects := t_projects (committed s) @ [r]\<rparr>"
    using r(2) by (auto simp: ins_project_def split: if_splits)
  then have "active_projects (committed s') org = active_projects (committed s) org + 1"
    by (simp add: active_projects_def r(1) new_project_row_def)
  then show ?thesis using room by (auto simp: Let_def)
qed

theorem CreateProject_within_limit_witness:
  "active_projects (committed (snd (CreateProject ''prj_1'' ''org'' (demo_config ''one'') (sess_of empty_db 0)))) ''org'' = 1"
proof -
  have "\<not> isl (fst (CreateProject ''prj_1'' ''org'' (demo_config ''one'') (sess_of empty_db 0)))" by code_simp
  then obtain p s' where run: "CreateProject ''prj_1'' ''org'' (demo_config ''one'') (sess_of empty_db 0) = (Inr p, s')"
    using ok_run by blast
  from CreateProject_within_limit[OF _ _ run, of 3] show ?thesis
    by (simp add: run store_inv_empty) (simp add: active_projects_def empty_db_def)
qed

text \<open>A period of less than 65536 minutes (45 days) survives a round trip through the database up to the started minute.\<close>

lemma trunc_Minutes:
  assumes "0 \<le> p" "p < 65536 * minute_ns"
  shows "trunc_rat (Minutes p) = p div minute_ns"
proof -
  let ?q = "p div minute_ns"
  have p: "p < 2 ^ 63" using assms(2) by simp
  have q: "0 \<le> ?q" "?q + 1 \<le> 2 ^ 16" using assms by (simp_all add: pos_imp_zdiv_nonneg_iff)
  have "Minutes p \<ge> of_int ?q" using Minutes_ge_iff[OF assms(1) p q(1)] q(2) by (simp add: div_times_less_eq_dividend)
  moreover have "\<not> Minutes p \<ge> of_int (?q + 1)"
  proof -
    have "p < (?q + 1) * minute_ns" by presburger
    then show ?thesis using Minutes_ge_iff[OF assms(1) p _ q(2)] q(1) by simp
  qed
  moreover have "(0 :: rat) \<le> of_int ?q" using q(1) by simp
  ultimately show ?thesis by (simp add: trunc_rat_def floor_eq_iff)
qed

definition same_but_seconds :: "ScaleToZero \<Rightarrow> ScaleToZero \<Rightarrow> bool" where
  "same_but_seconds z z' \<longleftrightarrow> s2z_Enabled z' = s2z_Enabled z \<and>
     (0 \<le> s2z_InactivityPeriod z \<and> s2z_InactivityPeriod z < 65536 * minute_ns \<longrightarrow>
      s2z_InactivityPeriod z' = s2z_InactivityPeriod z - s2z_InactivityPeriod z mod minute_ns)"

lemma InactivityPeriod_roundtrip:
  assumes "0 \<le> p" "p < 65536 * minute_ns"
  shows "InactivityPeriod_Scan (InactivityPeriod_Value p) = p - p mod minute_ns"
proof -
  have "p div minute_ns * minute_ns = p - p mod minute_ns" by (simp add: minus_mod_eq_div_mult)
  moreover have "0 \<le> p mod minute_ns" "p mod minute_ns \<le> p" using assms(1) by (simp_all add: zmod_le_nonneg_dividend)
  then have "in_int64 (p - p mod minute_ns)" using assms by (simp add: in_int64_def int64_min_def int64_max_def)
  ultimately show ?thesis
    by (simp only: InactivityPeriod_Scan_def InactivityPeriod_Value_def trunc_Minutes[OF assms] wrap64_id)
qed



section \<open>Deleting a project\<close>

text \<open>C31. A project is terminated only when it has no active branch, and only by its organization, whatever
  faults the session meets: after a successful \<open>DeleteProject\<close> the branches are as before, none of the
  project's is active, its backups are gone, and no row of another project changed.\<close>

theorem DeleteProject_safe:
  assumes "txn s = None" "store_inv md (committed s)" "DeleteProject org pid s = (Inr (), s')"
  shows "t_branches (committed s') = t_branches (committed s)
    \<and> (\<forall>b\<in>set (t_branches (committed s')). br_project b = pid \<longrightarrow> \<not> br_active b)
    \<and> (\<exists>r\<in>set (t_projects (committed s)). pr_id r = pid \<and> pr_org r = org)
    \<and> (\<forall>r\<in>set (t_projects (committed s')). pr_id r = pid \<longrightarrow> \<not> pr_active r)
    \<and> filter (\<lambda>r. pr_id r \<noteq> pid) (t_projects (committed s')) = filter (\<lambda>r. pr_id r \<noteq> pid) (t_projects (committed s))
    \<and> (\<forall>k\<in>set (t_backups (committed s')). bk_project k \<noteq> pid)"
proof -
  let ?own = "\<lambda>r. pr_id r = pid \<and> pr_org r = org"
  from delete_project.run_post[OF assms(1) assms(3)[unfolded DeleteProject_def] triple_DeleteProject[OF assms(2)]]
  obtain now where
    b: "t_branches (committed s') = t_branches (committed s)"
      "\<forall>b\<in>set (t_branches (committed s)). br_project b = pid \<longrightarrow> \<not> br_active b"
    and r: "\<exists>r\<in>set (t_projects (committed s)). ?own r"
    and k: "t_backups (committed s') = delete_where (\<lambda>k. bk_project k = pid) (t_backups (committed s))"
    and p: "t_projects (committed s') = update_where ?own
       (\<lambda>r. r\<lparr>pr_status := StatusTerminated, pr_status_changed := now\<rparr>) (t_projects (committed s))"
    by blast
  have u: "unique_on pr_id anyrow (t_projects (committed s))"
    using store_invE(1)[OF assms(2)] by (simp add: keys_ok_def)
  have frame: "filter (\<lambda>r. pr_id r \<noteq> pid) (update_where ?own f t) = filter (\<lambda>r. pr_id r \<noteq> pid) t"
    if "\<And>r. pr_id (f r) = pr_id r" for f :: "project_row \<Rightarrow> project_row" and t
    by (induction t) (auto simp: update_where_def that)
  have dead: "\<forall>r\<in>set (t_projects (committed s')). pr_id r = pid \<longrightarrow> \<not> pr_active r"
    using terminated_row[OF u r] status.distinct(1) unfolding p by auto
  have gone: "\<forall>k\<in>set (t_backups (committed s')). bk_project k \<noteq> pid"
    unfolding k by (simp add: set_delete_where)
  have same: "filter (\<lambda>r. pr_id r \<noteq> pid) (t_projects (committed s')) = filter (\<lambda>r. pr_id r \<noteq> pid) (t_projects (committed s))"
    unfolding p by (rule frame) simp
  show ?thesis using b(1) b(2)[folded b(1)] r dead same gone by (intro conjI)
qed

theorem DeleteProject_safe_witness:
  "let s = snd (CreateProject ''prj_1'' ''org'' (demo_config ''one'') (sess_of empty_db 0));
       s' = snd (DeleteProject ''org'' ''prj_1'' s)
   in \<forall>r\<in>set (t_projects (committed s')). pr_id r = ''prj_1'' \<longrightarrow> \<not> pr_active r"
proof -
  define s where "s = snd (CreateProject ''prj_1'' ''org'' (demo_config ''one'') (sess_of empty_db 0))"
  have s: "txn s = None" "store_inv 3 (committed s)"
    unfolding s_def using demo_project by (simp_all add: calm_def)
  have "\<not> isl (fst (DeleteProject ''org'' ''prj_1'' s))" unfolding s_def by code_simp
  then obtain s' where run: "DeleteProject ''org'' ''prj_1'' s = (Inr (), s')"
    using ok_run[of "DeleteProject ''org'' ''prj_1'' s"] by auto
  from DeleteProject_safe[OF s run] show ?thesis by (simp add: s_def[symmetric] run)
qed

text \<open>Deletion does not look at the status: a second \<open>DeleteProject\<close> of a terminated project succeeds
  again and restarts its retention time, although every other operation answers \<open>ErrProjectNotFound\<close>.\<close>

lemma DeleteProject_twice:
  assumes "calm s" "store_inv md (committed s)" "DeleteProject org pid s = (Inr (), s1)"
  shows "GetProject org pid s1 = (Inl (ErrProjectNotFound pid), s1)
    \<and> (\<exists>s2. DeleteProject org pid (s1\<lparr>clock := now\<rparr>) = (Inr (), s2) \<and>
        (\<forall>r\<in>set (t_projects (committed s2)). pr_id r = pid \<longrightarrow> pr_status_changed r = now))"
proof -
  let ?own = "\<lambda>r. pr_id r = pid \<and> pr_org r = org"
  have run1: "\<exists>r\<in>set (t_projects (committed s)). ?own r"
    "\<forall>b\<in>set (t_branches (committed s1)). br_project b = pid \<longrightarrow> \<not> br_active b"
    "t_projects (committed s1) = update_where ?own
       (\<lambda>r. r\<lparr>pr_status := StatusTerminated, pr_status_changed := clock s\<rparr>) (t_projects (committed s))" "calm s1"
    using assms(3) calm_DeleteProject[OF assms(1,2), of org pid] assms(1) by (auto simp: Let_def calm_def split: if_splits)
  have inv1: "store_inv md (committed s1)"
    using op_keepsD[OF keeps_DeleteProject _ assms(2,3)] assms(1) by (simp add: calm_def)
  have u: "unique_on pr_id anyrow (t_projects (committed s))" "unique_on pr_id anyrow (t_projects (committed s1))"
    using store_invE(1)[OF assms(2)] store_invE(1)[OF inv1] by (simp_all add: keys_ok_def)
  have "find (\<lambda>r. pr_id r = pid \<and> pr_org r = org \<and> pr_active r) (t_projects (committed s1)) = None"
    unfolding find_None_iff run1(3) using terminated_row[OF u(1) run1(1)] by fastforce
  then have get: "GetProject org pid s1 = (Inl (ErrProjectNotFound pid), s1)"
    by (simp add: calm_GetProject[OF run1(4)])
  have calm2: "calm (s1\<lparr>clock := now\<rparr>)" and inv2: "store_inv md (committed (s1\<lparr>clock := now\<rparr>))"
    using run1(4) inv1 by (simp_all add: calm_def)
  have own1: "\<exists>r\<in>set (t_projects (committed s1)). ?own r"
    unfolding run1(3) bex_update_where using run1(1) by auto
  then have "\<not> (\<forall>r\<in>set (t_projects (committed s1)). \<not> ?own r)" by blast
  then show ?thesis
    using get terminated_row[OF u(2) own1] run1(2)
    unfolding calm_DeleteProject[OF calm2 inv2] by (auto simp: Let_def)
qed

section \<open>Updating a project\<close>

text \<open>\<open>UpdateProject\<close> touches one project and only what the request sets: whatever faults the session
  meets, a successful update leaves every other row and table alone, and in the project's row a field the
  request leaves out (a nil pointer, a zero inactivity period, a nil CIDR list) keeps its value; the
  project was active and owned by the organization.\<close>

lemma UpdateProject_frame:
  assumes "txn s = None" "store_inv md (committed s)" "UpdateProject org pid config f s = (Inr p, s')"
  shows "(\<exists>r\<in>set (t_projects (committed s)). pr_id r = pid \<and> pr_org r = org \<and> pr_active r)
    \<and> (committed s')\<lparr>t_projects := []\<rparr> = (committed s)\<lparr>t_projects := []\<rparr>
    \<and> list_all2 (\<lambda>r r'. pr_id r' = pr_id r \<and> pr_org r' = pr_org r \<and> pr_status r' = pr_status r \<and> pr_created r' = pr_created r \<and>
        (pr_id r \<noteq> pid \<longrightarrow> r' = r) \<and>
        (upc_Name config = None \<longrightarrow> pr_name r' = pr_name r) \<and>
        (upc_ScaleToZero config = None \<longrightarrow> pr_base_enabled r' = pr_base_enabled r \<and> pr_child_enabled r' = pr_child_enabled r) \<and>
        (GetBaseInactivityPeriod (upc_ScaleToZero config) = None \<longrightarrow> pr_base_minutes r' = pr_base_minutes r) \<and>
        (GetChildInactivityPeriod (upc_ScaleToZero config) = None \<longrightarrow> pr_child_minutes r' = pr_child_minutes r) \<and>
        (upc_IPFiltering config = None \<longrightarrow> pr_ipf_enabled r' = pr_ipf_enabled r) \<and>
        (GetCIDRs (upc_IPFiltering config) = None \<longrightarrow> pr_ipf_cidrs r' = pr_ipf_cidrs r))
      (t_projects (committed s)) (t_projects (committed s'))"
proof -
  from update_project.run_post[OF assms(1) assms(3)[unfolded UpdateProject_def] triple_UpdateProject[OF assms(2)]]
  have own: "\<exists>r\<in>set (t_projects (committed s)). pr_id r = pid \<and> pr_org r = org \<and> pr_active r"
    and d: "committed s' = committed s \<or> (\<exists>now. committed s' = (committed s)\<lparr>t_projects :=
      update_where (\<lambda>r. pr_id r = pid) (apply_project_update now config) (t_projects (committed s))\<rparr>)" by blast+
  from d show ?thesis
  proof (elim disjE exE)
    fix now assume d: "committed s' = (committed s)\<lparr>t_projects :=
      update_where (\<lambda>r. pr_id r = pid) (apply_project_update now config) (t_projects (committed s))\<rparr>"
    show ?thesis using own unfolding d
      by (simp add: list_all2_conv_all_nth update_where_def)
        (simp add: apply_project_update_def GetBaseEnabled_def GetChildEnabled_def GetEnabled_def)
  qed (use own in \<open>simp add: list_all2_conv_all_nth\<close>)
qed

definition rename_only :: "string \<Rightarrow> UpdateProjectConfiguration" where
  "rename_only name = \<lparr>upc_Name = Some name, upc_ScaleToZero = None, upc_IPFiltering = None\<rparr>"

section \<open>Hierarchies\<close>

text \<open>C34. \<open>ValidateHierarchy\<close> accepts exactly the hierarchies that hold: organizations are given and none
  is empty, each project belongs to one of them and each branch to one of the projects.\<close>

theorem ValidateHierarchy_correct:
  assumes "calm s"
  shows "fst (ValidateHierarchy orgs pids bids s) = Inr () \<longleftrightarrow>
    orgs \<noteq> [] \<and> '''' \<notin> set orgs \<and>
    (\<forall>i\<in>set pids. \<exists>r\<in>set (t_projects (committed s)). pr_id r = i \<and> pr_org r \<in> set orgs) \<and>
    (\<forall>i\<in>set bids. \<exists>b\<in>set (t_branches (committed s)). br_id b = i \<and> br_project b \<in> set pids)"
proof -
  let ?d = "committed s"
  have gaps: "first_row (hierarchy_gaps orgs pids bids ?d) = None \<longleftrightarrow>
      (\<forall>i\<in>set pids. \<exists>r\<in>set (t_projects ?d). pr_id r = i \<and> pr_org r \<in> set orgs) \<and>
      (\<forall>i\<in>set bids. \<exists>b\<in>set (t_branches ?d). br_id b = i \<and> br_project b \<in> set pids)"
    by (auto simp: hierarchy_gaps_def first_row_None_iff filter_empty_conv list_ex_iff)
  have "fst (ValidateHierarchy orgs pids bids s) = Inr () \<longleftrightarrow> orgs \<noteq> [] \<and> '''' \<notin> set orgs \<and>
      (pids = [] \<and> bids = [] \<or> first_row (hierarchy_gaps orgs pids bids ?d) = None)"
    using assms by (auto simp: ValidateHierarchy_def calm_def calm_simps split: option.split)
  then show ?thesis unfolding gaps by auto
qed

theorem ValidateHierarchy_correct_witness:
  "fst (ValidateHierarchy [''org''] [''prj_1''] [] (snd (CreateProject ''prj_1'' ''org'' (demo_config ''one'') (sess_of empty_db 0)))) = Inr ()"
  unfolding ValidateHierarchy_correct[OF demo_project(1)] by code_simp

section \<open>Limits\<close>

text \<open>An override set for an organization or a project is the one \<open>GetOrgLimits\<close> returns at its level,
  no other key or level changes, and a project's override hides the organization's.\<close>

lemma SetOrgLimit_GetOrgLimits:
  assumes "calm s" "store_inv md (committed s)" "SetOrgLimit org lvl key (Inr v) s = (Inr (), s')"
  shows "\<exists>m m'. GetOrgLimits org pid s = (Inr m, s) \<and> GetOrgLimits org pid s' = (Inr m', s') \<and>
    (\<forall>k. m' k = (if k = key \<and> (lvl = pid \<or> lvl = '''' \<and> row_limit (t_organization_limits (committed s)) org pid key = None)
                 then Some v else m k))"
proof -
  have s': "upsert_limit org lvl key v (committed s) = Inr ((), committed s')" "calm s'"
    using assms(1,3)
    by (auto simp: SetOrgLimit_def calm_def calm_simps upsert_limit_def split: if_splits)
  have inv': "store_inv md (committed s')"
    using op_keepsD[OF keeps_SetOrgLimit _ assms(2,3)] assms(1) by (simp add: calm_def)
  have get: "GetOrgLimits org pid s = (Inr (effective (t_organization_limits (committed s)) org pid), s)"
    "GetOrgLimits org pid s' = (Inr (effective (t_organization_limits (committed s')) org pid), s')"
    unfolding GetOrgLimits_def
    using getOrgLimits_effective[OF _ _ assms(2)] getOrgLimits_effective[OF _ _ inv'] assms(1) s'(2)
    by (simp_all add: calm_def)
  show ?thesis unfolding get
    by (auto simp: effective_def row_limit_upsert[OF limits_keys[OF assms(2)] s'(1)] coalesce_opt_def split: option.split)
qed

text \<open>Organizations in tier T1 cannot raise their project limit: whatever overrides are stored, the
  limit \<open>enforceProjectCreationLimits\<close> applies to them is the tier's default of 10 projects and 5 per
  hour, and an unknown tier is treated as T1.\<close>

lemma T1_ignores_overrides:
  assumes "usageTier \<noteq> ''t2''"
  shows "project_limit d org usageTier LimitMaxProjects = 10
    \<and> project_limit d org usageTier LimitMaxProjectsPerHour = 5"
  using assms
  by (simp add: project_limit_def ParseUsageTier_def ResolveIntLimit_def TierDefaultInt_def limit_key_defs)

section \<open>Regions\<close>

text \<open>A region created for one organization is visible to that organization only: \<open>GetRegion\<close> and
  \<open>ListCells\<close> of another one find nothing, now and as long as only regions and cells are added.\<close>

lemma CreateOrganizationRegion_private:
  assumes "calm s" "store_inv md (committed s)" "CreateOrganizationRegion org rid flags host s = (Inr r, s')"
  shows "GetRegion org rid s' = (Inr r, s')
    \<and> (org' = org \<or> GetRegion org' rid s' = (Inl (ErrRegionNotFound rid), s') \<and> ListCells org' rid s' = (Inr [], s'))"
proof -
  obtain provider where ins: "ins_region r (committed s) = Inr (r, committed s')" "calm s'"
    and r: "rg_ID r = rid" "rg_OrganizationID r = Some org"
    using assms(1,3)
    by (auto simp: CreateOrganizationRegion_def calm_def calm_simps ins_region_def split: if_splits sum.splits)
  have "(committed s)\<lparr>t_regions := t_regions (committed s) @ [r]\<rparr> = committed s'"
    and new: "\<forall>x\<in>set (t_regions (committed s)). rg_ID x \<noteq> rid"
    using ins(1) r by (auto simp: ins_region_def list_ex_iff split: if_splits)
  from this(1)[symmetric] have t: "t_regions (committed s') = t_regions (committed s) @ [r]" by simp
  have none: "find (\<lambda>x. rg_ID x = rid \<and> usable x o') (t_regions (committed s)) = None" for o'
    using new by (auto simp: find_None_iff)
  have "cells_join (\<lambda>c x. cl_RegionID c = rid \<and> usable x org') (committed s') = []" if "org' \<noteq> org"
  proof -
    have "set (cells_join (\<lambda>c x. cl_RegionID c = rid \<and> usable x org') (committed s')) = {}"
      unfolding set_cells_join t using new r that by (auto simp: usable_def)
    then show ?thesis by simp
  qed
  moreover have "find (\<lambda>x. rg_ID x = rid \<and> usable x o') (t_regions (committed s')) = (if o' = org then Some r else None)" for o'
    unfolding t find_append none using r by (auto simp: usable_def)
  ultimately show ?thesis using ins(2)
    by (auto simp: GetRegion_def ListCells_def calm_def calm_simps or_no_rows_def)
qed

section \<open>Cleaning up\<close>

text \<open>\<open>CleanupTerminatedProjects\<close> with a retention of \<open>n\<close> seconds removes exactly the projects
  terminated for longer, with the GitHub links of these projects, and returns their number; when one of them
  still has a branch or a backup it removes nothing at all and fails.\<close>

lemma CleanupTerminatedProjects_exact:
  assumes "calm s" "0 \<le> n" "n < 2 ^ 33"
  defines "old \<equiv> (\<lambda>r. pr_status r = StatusTerminated \<and> pr_status_changed r < clock s - n * 1000000)"
  shows "CleanupTerminatedProjects (n * second_ns) s =
    (let d = committed s in
     if \<exists>r\<in>set (t_projects d). old r \<and> ((\<exists>b\<in>set (t_branches d). br_project b = pr_id r) \<or> (\<exists>k\<in>set (t_backups d). bk_project k = pr_id r))
     then (Inl (Wrap ''delete terminated projects'' (ErrSql ForeignKeyViolation)), s)
     else (Inr (int (count_where old (t_projects d))), s\<lparr>committed := d\<lparr>
        t_projects := filter (\<lambda>r. \<not> old r) (t_projects d),
        t_github_repositories := filter (\<lambda>m. \<not> (\<exists>r\<in>set (t_projects d). old r \<and> pr_id r = gm_Project m)) (t_github_repositories d)\<rparr>\<rparr>))"
  using assms(1) interval_us_Seconds_whole[OF assms(2,3)]
  by (simp add: CleanupTerminatedProjects_def calm_def calm_simps del_projects_def list_ex_iff delete_where_def old_def Let_def) blast

end
