(* ===== verification/Branches_Correct.thy ===== *)
theory Branches_Correct
  imports Projects_Correct
begin

text \<open>
  What the operations on branches achieve, over the definitions of \<open>Store_Branches\<close>: the checks behind a
  new branch, the coupling of a row with the callback that provisions it, the shape of the branch tree,
  tenancy, soft deletion and cleanup, and what a stream of rows that breaks does to \<open>ListBranches\<close>.
\<close>

section \<open>Runs when nothing breaks\<close>

lemma calm_getProject:
  assumes "faults s = []" "txn s = Some d"
  shows "getProject org pid s =
    (case find (\<lambda>r. pr_id r = pid \<and> pr_org r = org \<and> pr_active r) (t_projects d) of
       None \<Rightarrow> (Inl (ErrProjectNotFound pid), s) | Some r \<Rightarrow> (Inr (to_Project r), s))"
  using assms by (auto simp: getProject_def calm_simps or_no_rows_def split: option.splits)

lemma calm_describeBranch:
  assumes "faults s = []" "txn s = Some d"
  shows "describeBranch pid bid s =
    (case first_row (branches_join (\<lambda>b. br_project b = pid \<and> br_id b = bid \<and> br_active b) d) of
       None \<Rightarrow> (Inl (ErrBranchNotFound bid), s) | Some x \<Rightarrow> (Inr (to_Branch x), s))"
  using assms by (auto simp: describeBranch_def calm_simps or_no_rows_def split: option.splits)

text \<open>Everything \<open>CreateBranch\<close> does before it calls the callback: the branch and project to hand over, and the database to commit.\<close>

definition prepared ::
  "int \<Rightarrow> string \<Rightarrow> string \<Rightarrow> string \<Rightarrow> string \<Rightarrow> CreateBranchConfiguration \<Rightarrow> string list \<Rightarrow> int \<Rightarrow> db \<Rightarrow>
   goerr + Branch \<times> Project \<times> db" where
  "prepared md newID org pid cell config locks now d =
     (if \<not> cbc_ProjectLockHeld config \<and> pid \<in> set locks then Inl (ErrProjectBusy pid)
      else if first_row (cells_join (\<lambda>c r. cl_ID c = cell \<and> usable r org) d) = None then Inl (ErrCellNotFound cell)
      else (case find (\<lambda>r. pr_id r = pid \<and> pr_org r = org \<and> pr_active r) (t_projects d) of
          None \<Rightarrow> Inl (ErrProjectNotFound pid)
        | Some project \<Rightarrow> (case (case cbc_ParentID config of
              None \<Rightarrow> Inr 1
            | Some q \<Rightarrow> (case first_row (branches_join (\<lambda>b. br_project b = pid \<and> br_id b = q \<and> br_active b) d) of
                  None \<Rightarrow> Inl (ErrBranchNotFound q)
                | Some x \<Rightarrow> CanAddChild (Some (to_Branch x)) md)) of
            Inl e \<Rightarrow> Inl e
          | Inr depth \<Rightarrow> (case ins_branch (new_branch_row newID now pid cell config depth) d of
                Inl e \<Rightarrow> Inl (if e = UniqueViolation ''unique_project_branch_name_active'' then ErrBranchAlreadyExists (cbc_Name config) else ErrSql e)
              | Inr (row, d') \<Rightarrow> (case cell_region (br_cell row) d' of
                    None \<Rightarrow> Inl (ErrSql NoRows)
                  | Some region \<Rightarrow> Inr (returned_branch row (rg_ID region) (rg_PublicAccess region) False, to_Project project, d'))))))"

lemma calm_CreateBranch:
  assumes "calm s" "cbc_Limits config = Some limits"
  shows "CreateBranch md newID org pid cell config f s =
    (case branch_check (clock s) (committed s) org pid limits of
       Inl e \<Rightarrow> (Inl e, s)
     | Inr _ \<Rightarrow> (case prepared md newID org pid cell config (locked s) (clock s) (committed s) of
           Inl e \<Rightarrow> (Inl e, s)
         | Inr (b, p, d) \<Rightarrow> (case f b p (world s) of
               (Inl e, w) \<Rightarrow> (Inl e, s\<lparr>world := w\<rparr>)
             | (Inr b', w) \<Rightarrow> (Inr b', s\<lparr>world := w, committed := d\<rparr>))))"
proof -
  have depth: "branch_depth md pid q t = ((case q of None \<Rightarrow> Inr 1
      | Some q \<Rightarrow> (case first_row (branches_join (\<lambda>b. br_project b = pid \<and> br_id b = q \<and> br_active b) d) of
            None \<Rightarrow> Inl (ErrBranchNotFound q) | Some x \<Rightarrow> CanAddChild (Some (to_Branch x)) md)), t)"
    if "faults t = []" "txn t = Some d" for q t d
    using that by (auto simp: branch_depth_def calm_simps calm_describeBranch split: option.splits)
  have fl: "faults s = []" using assms(1) by (simp add: calm_def)
  show ?thesis
  proof (cases "branch_check (clock s) (committed s) org pid limits")
    case (Inl e)
    then show ?thesis using assms(2) fl by (simp add: CreateBranch_def calm_simps calm_enforceBranchCreationLimits)
  next
    case (Inr u)
    then have "CreateBranch md newID org pid cell config f s = in_tx (CreateBranch_body md newID org pid cell config f) (\<lambda>b. b) s"
      using assms(2) fl by (simp add: CreateBranch_def calm_simps calm_enforceBranchCreationLimits)
    then show ?thesis using assms(1) fl unfolding Inr CreateBranch_body_def tryProjectXactLockShared_def prepared_def
      by (auto simp: calm_def calm_simps calm_getProject depth getCell_def or_no_rows_def IsConstraintError_def
          split: option.splits sum.splits prod.splits)
  qed
qed

section \<open>Up to the callback\<close>

text \<open>
  A run inside an open transaction whose working copy satisfies \<open>P\<close>: the committed database stays, and either the run
  fails without touching the world, or the transaction is still open and the worlds before and after, the result and the
  working copy are related by \<open>F\<close>.  \<open>tx_steps\<close> is the case of a part that succeeds without touching the world.
\<close>

definition tx_run :: "('d \<Rightarrow> bool) \<Rightarrow> ('d, 'w, 'a) go \<Rightarrow> ('w \<Rightarrow> goerr + 'a \<Rightarrow> 'w \<Rightarrow> 'd \<Rightarrow> bool) \<Rightarrow> bool" where
  "tx_run P m F \<longleftrightarrow> (\<forall>s r s' d. txn s = Some d \<longrightarrow> P d \<longrightarrow> m s = (r, s') \<longrightarrow> committed s' = committed s \<and>
     (isl r \<and> world s' = world s \<or> (\<exists>d'. txn s' = Some d' \<and> F (world s) r (world s') d')))"

definition tx_steps :: "('d \<Rightarrow> bool) \<Rightarrow> ('d, 'w, 'a) go \<Rightarrow> ('a \<Rightarrow> 'd \<Rightarrow> bool) \<Rightarrow> bool" where
  "tx_steps P m Q \<longleftrightarrow> tx_run P m (\<lambda>w r w' d. w' = w \<and> (\<exists>x. r = Inr x \<and> Q x d))"

lemma tx_runD:
  "tx_run P m F \<Longrightarrow> txn s = Some d \<Longrightarrow> P d \<Longrightarrow> m s = (r, s') \<Longrightarrow> committed s' = committed s \<and>
     (isl r \<and> world s' = world s \<or> (\<exists>d'. txn s' = Some d' \<and> F (world s) r (world s') d'))"
  unfolding tx_run_def by blast

lemma tx_run_andthen:
  assumes "tx_steps P m Q" "\<And>x. tx_run (Q x) (k x) F"
  shows "tx_run P (andthen m k) F"
  unfolding tx_run_def
proof (intro allI impI)
  fix s r s' d
  assume s: "txn s = Some d" "P d" and run: "andthen m k s = (r, s')"
  obtain r1 s1 where m: "m s = (r1, s1)" by fastforce
  note m1 = tx_runD[OF assms(1)[unfolded tx_steps_def] s m]
  show "committed s' = committed s \<and> (isl r \<and> world s' = world s \<or> (\<exists>d'. txn s' = Some d' \<and> F (world s) r (world s') d'))"
  proof (cases r1)
    case (Inl e)
    then show ?thesis using run m m1 by (auto simp: andthen_def)
  next
    case (Inr x)
    then obtain d1 where d1: "txn s1 = Some d1" "Q x d1" "world s1 = world s" "committed s1 = committed s" using m1 by auto
    have "k x s1 = (r, s')" using run m Inr by (simp add: andthen_def)
    from tx_runD[OF assms(2) d1(1,2) this] show ?thesis unfolding d1(3,4) .
  qed
qed

lemma tx_steps_andthen: "tx_steps P m Q \<Longrightarrow> (\<And>x. tx_steps (Q x) (k x) R) \<Longrightarrow> tx_steps P (andthen m k) R"
  unfolding tx_steps_def[of P "andthen m k"] by (rule tx_run_andthen) (simp_all add: tx_steps_def)

lemma tx_run_call_fn: "tx_run P (call_fn g) (\<lambda>w r w' d. g w = (r, w') \<and> P d)"
  by (auto simp: tx_run_def call_fn_def split: prod.splits)

lemma tx_steps_simple:
  "tx_steps P (ret x) (\<lambda>y d. P d \<and> y = x)" "tx_steps P get_now (\<lambda>_. P)" "tx_steps P (fail_if c e) (\<lambda>_ d. P d \<and> \<not> c)"
  "tx_steps P (lift_res r) (\<lambda>x d. P d \<and> r = Inr x)" "tx_steps P (try_lock key) (\<lambda>_. P)"
  by (auto simp: tx_steps_def tx_run_def ret_def get_now_def fail_if_def lift_res_def try_lock_def isl_def) (metis sum.exhaust)

lemma tx_steps_exec: "tx_steps P (exec Tx st conv) (\<lambda>x d'. \<exists>d. P d \<and> st d = Inr (x, d'))"
  unfolding tx_steps_def tx_run_def exec_def run_tx_def pop_fault_def
  by (auto split: prod.splits sum.splits list.splits fault.splits if_splits) blast+

lemma tx_steps_weaken: "tx_steps P m Q \<Longrightarrow> (\<And>x d. Q x d \<Longrightarrow> R x d) \<Longrightarrow> tx_steps P m R"
  unfolding tx_steps_def tx_run_def by fast

lemma tx_steps_query: "tx_steps P (query Tx f conv) (\<lambda>x d. P d \<and> f d = Inr x)"
  unfolding query_def
proof (rule tx_steps_weaken[OF tx_steps_exec])
  fix x d assume "\<exists>d'. P d' \<and> reads f d' = Inr (x, d)"
  then obtain d' where "P d'" "reads f d' = Inr (x, d)" by blast
  then show "P d \<and> f d = Inr x" by (cases "f d'") (auto simp: reads_def)
qed

lemma tx_steps_if: "tx_steps P m Q \<Longrightarrow> tx_steps P n Q \<Longrightarrow> tx_steps P (if c then m else n) Q"
  by simp

lemma tx_steps_getProject:
  "tx_steps P (getProject org pid) (\<lambda>x d. P d \<and> (\<exists>r\<in>set (t_projects d). pr_id r = pid \<and> pr_org r = org \<and> pr_active r))"
  unfolding getProject_def
  by (rule tx_steps_weaken[OF tx_steps_query]) (auto simp: one_row_def find_Some_iff split: option.splits)

lemma tx_steps_describeBranch:
  "tx_steps P (describeBranch pid bid) (\<lambda>x d. P d \<and> (\<exists>b\<in>set (t_branches d).
     br_project b = pid \<and> br_id b = bid \<and> br_active b \<and> b_Depth x = br_depth b \<and> b_ID x = bid))"
  unfolding describeBranch_def
  by (rule tx_steps_weaken[OF tx_steps_query])
    (auto simp: one_row_def set_branches_join to_Branch_def dest!: first_row_SomeD split: option.splits)

lemma tx_steps_owns_branch:
  assumes "\<And>x. tx_run (\<lambda>d. P d \<and> owns_branch org pid bid d) (f x) F"
  shows "tx_run P (andthen (getProject org pid) (\<lambda>_. andthen (describeBranch pid bid) f)) F"
  by (rule tx_run_andthen[OF tx_steps_getProject tx_run_andthen[OF tx_steps_weaken[OF tx_steps_describeBranch] assms]])
    (auto simp: owns_branch_def)

lemma tx_steps_branch_depth: "tx_steps P (branch_depth md pid q) (\<lambda>n d. P d \<and> depth_ok md pid q n d)"
proof (cases q)
  case None
  then show ?thesis using tx_steps_simple(1)[of P 1] by (auto simp: branch_depth_def depth_ok_def intro: tx_steps_weaken)
next
  case (Some b)
  have "tx_steps P (andthen (describeBranch pid b) (\<lambda>p. lift_res (CanAddChild (Some p) md))) (\<lambda>n d. P d \<and> depth_ok md pid (Some b) n d)"
    by (rule tx_steps_andthen[OF tx_steps_describeBranch tx_steps_weaken[OF tx_steps_simple(4)]])
      (auto simp: depth_ok_def CanAddChild_def split: if_splits)
  then show ?thesis by (simp add: branch_depth_def Some)
qed

text \<open>The callback of \<open>CreateBranch\<close> is called once, after every check, with the new row in the working copy.\<close>

definition provisioned ::
  "int \<Rightarrow> string \<Rightarrow> string \<Rightarrow> string \<Rightarrow> string \<Rightarrow> CreateBranchConfiguration \<Rightarrow>
   (Branch \<Rightarrow> Project \<Rightarrow> 'w \<Rightarrow> (goerr + Branch) \<times> 'w) \<Rightarrow> db \<Rightarrow> 'w \<Rightarrow> goerr + Branch \<Rightarrow> 'w \<Rightarrow> db \<Rightarrow> bool" where
  "provisioned md newID org pid cell config f d0 w r w' d \<longleftrightarrow> may_insert org pid cell d0 \<and> (\<exists>n now b p.
     depth_ok md pid (cbc_ParentID config) n d0 \<and> b_ID b = newID \<and> b_Name b = cbc_Name config \<and> f b p w = (r, w') \<and>
     d = d0\<lparr>t_branches := t_branches d0 @ [new_branch_row newID now pid cell config n]\<rparr>)"

lemma tx_run_weaken: "tx_run P m F \<Longrightarrow> (\<And>w r w' d. F w r w' d \<Longrightarrow> G w r w' d) \<Longrightarrow> tx_run P m G"
  unfolding tx_run_def by fast

lemma CreateBranch_body_run:
  "tx_run (\<lambda>d. d = d0) (CreateBranch_body md newID org pid cell config f) (provisioned md newID org pid cell config f d0)"
proof -
  let ?cell = "\<lambda>d. d = d0 \<and> (\<exists>c\<in>set (t_cells d0). \<exists>r\<in>set (t_regions d0). cl_ID c = cell \<and> cl_RegionID c = rg_ID r \<and> usable r org)"
  let ?row = "new_branch_row newID"
  have lock: "tx_steps (\<lambda>d. d = d0) (if \<not> cbc_ProjectLockHeld config then tryProjectXactLockShared pid else ret ()) (\<lambda>_ d. d = d0)"
    unfolding tryProjectXactLockShared_def
    by (intro tx_steps_if tx_steps_andthen[OF tx_steps_simple(5)] tx_steps_andthen[OF tx_steps_query]
        tx_steps_weaken[OF tx_steps_simple(3)] tx_steps_weaken[OF tx_steps_simple(1)]) auto
  have cell: "tx_steps (\<lambda>d. d = d0) (getCell org cell) (\<lambda>_. ?cell)"
    unfolding getCell_def
    by (rule tx_steps_weaken[OF tx_steps_query]) (auto simp: one_row_def cells_join_def dest!: first_row_SomeD split: option.splits, blast)
  have project: "tx_steps ?cell (getProject org pid) (\<lambda>_ d. d = d0 \<and> may_insert org pid cell d0)"
    by (rule tx_steps_weaken[OF tx_steps_getProject]) (auto simp: may_insert_def)
  have insert: "tx_steps (\<lambda>d. (d = d0 \<and> may_insert org pid cell d0) \<and> depth_ok md pid (cbc_ParentID config) n d)
      (exec Tx (ins_branch (?row now pid cell config n)) conv) (\<lambda>row d. row = ?row now pid cell config n \<and> may_insert org pid cell d0 \<and>
        depth_ok md pid (cbc_ParentID config) n d0 \<and> d = d0\<lparr>t_branches := t_branches d0 @ [row]\<rparr>)" for n now conv
    by (rule tx_steps_weaken[OF tx_steps_exec]) (auto simp: ins_branch_def split: if_splits)
  have call: "tx_run (\<lambda>d. (row = ?row now pid cell config n \<and> may_insert org pid cell d0 \<and> depth_ok md pid (cbc_ParentID config) n d0 \<and>
        d = d0\<lparr>t_branches := t_branches d0 @ [row]\<rparr>) \<and> X d) (call_fn (f (returned_branch row rg pa False) p))
      (provisioned md newID org pid cell config f d0)" for row now n X rg pa p
    by (rule tx_run_weaken[OF tx_run_call_fn])
      (auto simp: provisioned_def returned_branch_def new_branch_row_def intro!: exI)
  show ?thesis unfolding CreateBranch_body_def
    by (rule tx_run_andthen[OF lock tx_run_andthen[OF cell tx_run_andthen[OF project tx_run_andthen[OF tx_steps_branch_depth
            tx_run_andthen[OF tx_steps_simple(2) tx_run_andthen[OF insert tx_run_andthen[OF tx_steps_query call]]]]]]])
qed

lemma query_Pool_world: "query Pool f conv s = (r, s') \<Longrightarrow> world s' = world s"
  by (auto simp: query_def exec_def run_pool_def pop_fault_def split: prod.splits sum.splits list.splits fault.splits)

lemma enforce_world: "enforceBranchCreationLimits org pid limits s = (r, s') \<Longrightarrow> world s' = world s"
  unfolding enforceBranchCreationLimits_def count_defs count_query_def
  by (auto simp: andthen_def map_err_def fail_if_def get_now_def split: prod.splits sum.splits if_splits dest!: query_Pool_world)

text \<open>A transaction around such a run.\<close>

lemma in_tx_run:
  assumes "txn s = None" "tx_run (\<lambda>d. d = committed s) body F" "in_tx body k s = (r, s')" "confined body"
  shows "isl r \<and> world s' = world s \<and> committed s' = committed s \<or>
    (\<exists>q d. F (world s) q (world s') d \<and> (\<forall>e. q = Inl e \<longrightarrow> r = Inl e \<and> committed s' = committed s) \<and>
      (\<forall>x. q = Inr x \<longrightarrow> r = Inr (k x) \<and> committed s' = d \<or> isl r \<and> faults s \<noteq> [] \<and> (committed s' = d \<or> committed s' = committed s)))"
proof -
  obtain r1 s1 where b: "begin_tx s = (r1, s1)" by fastforce
  have b1: "world s1 = world s" "committed s1 = committed s" "set (faults s1) \<subseteq> set (faults s)" "r1 = Inr () \<Longrightarrow> txn s1 = Some (committed s)"
    using b begin_tx_cases[OF b] by (auto simp: begin_tx_def pop_fault_def split: list.splits if_splits)
  show ?thesis
  proof (cases r1)
    case (Inl e)
    then show ?thesis using assms(3) b b1 by (auto simp: in_tx_as_def)
  next
    case (Inr u)
    then have o: "txn s1 = Some (committed s)" using b1 by simp
    obtain q s2 where m: "body s1 = (q, s2)" by fastforce
    note m1 = tx_runD[OF assms(2) o refl m]
    have fl: "set (faults s2) \<subseteq> set (faults s)"
      using tx_tripleD(2)[OF assms(4)[unfolded confined_def] _ m] b1(3) by (auto simp: holds_tx_def)
    show ?thesis
    proof (cases q)
      case (Inl e)
      then have "r = Inl e" "s' = s2\<lparr>txn := None\<rparr>" using assms(3) b Inr m by (simp_all add: in_tx_as_def andthen_def)
      then show ?thesis using Inl m1 b1(1,2) by (cases "world s2 = world s1") (auto intro!: exI[of _ "Inl e"])
    next
      case q: (Inr x)
      then obtain d where d: "txn s2 = Some d" "F (world s) (Inr x) (world s2) d" "committed s2 = committed s" using m1 b1 by auto
      have "world s' = world s2 \<and> (r = Inr (k x) \<and> committed s' = d \<or> isl r \<and> faults s2 \<noteq> [] \<and> (committed s' = d \<or> committed s' = committed s))"
        using assms(3) b Inr m q d
        by (auto simp: in_tx_as_def andthen_def map_err_def commit_def pop_fault_def ret_def split: list.splits fault.splits)
      then show ?thesis using d(2) fl by (intro disjI2 exI[of _ "Inr x"] exI[of _ d]) auto
    qed
  qed
qed

lemma CreateBranch_calls:
  assumes "txn s = None" "CreateBranch md newID org pid cell config f s = (r, s')"
  shows "isl r \<and> world s' = world s \<and> committed s' = committed s \<or>
    (\<exists>q d. provisioned md newID org pid cell config f (committed s) (world s) q (world s') d \<and>
      (\<forall>e. q = Inl e \<longrightarrow> r = Inl e \<and> committed s' = committed s) \<and>
      (\<forall>x. q = Inr x \<longrightarrow> r = Inr x \<and> committed s' = d \<or> isl r \<and> faults s \<noteq> [] \<and> (committed s' = d \<or> committed s' = committed s)))"
proof (cases "cbc_Limits config")
  case None
  then show ?thesis using assms(2) by (auto simp: CreateBranch_def raise_err_def)
next
  case (Some limits)
  obtain r1 s1 where e: "enforceBranchCreationLimits org pid limits s = (r1, s1)" by fastforce
  note s1 = quietD[OF quiet_enforceBranchCreationLimits assms(1) e]
  have w: "world s1 = world s" using enforce_world[OF e] .
  show ?thesis
  proof (cases r1)
    case (Inl x)
    then show ?thesis using assms(2) Some e s1 w by (auto simp: CreateBranch_def andthen_def)
  next
    case (Inr u)
    then have t: "in_tx (CreateBranch_body md newID org pid cell config f) (\<lambda>b. b) s1 = (r, s')"
      using assms(2) Some e by (simp add: CreateBranch_def andthen_def)
    have conf: "confined (CreateBranch_body md newID org pid cell config f)"
      unfolding CreateBranch_body_def by (intro confined_intros)
    have "faults s1 \<noteq> [] \<Longrightarrow> faults s \<noteq> []" using s1 by auto
    then show ?thesis using in_tx_run[OF _ CreateBranch_body_run t conf] s1 w by (metis (no_types, lifting))
  qed
qed

section \<open>Creating a branch\<close>

text \<open>C8. Whatever faults the session meets, a successful \<open>CreateBranch\<close> appended exactly one row, and its
  checks held when it did: the project is active and owned by the organization, the cell's region is open to
  the organization, a parent is an active branch of the same project, and the depth is one more than the
  parent's (1 without parent) and within the store's bound.\<close>

theorem CreateBranch_checked:
  assumes "txn s = None" "store_inv md (committed s)"
    "CreateBranch md newID org pid cell config f s = (Inr b, s')"
  shows "\<exists>n now. may_insert org pid cell (committed s) \<and> depth_ok md pid (cbc_ParentID config) n (committed s) \<and> n \<le> max 1 md \<and>
    committed s' = (committed s)\<lparr>t_branches := t_branches (committed s) @ [new_branch_row newID now pid cell config n]\<rparr>"
proof -
  obtain limits s1 where l: "cbc_Limits config = Some limits"
    and e: "enforceBranchCreationLimits org pid limits s = (Inr (), s1)"
    and t: "in_tx (CreateBranch_body md newID org pid cell config f) (\<lambda>b. b) s1 = (Inr b, s')"
    using assms(3) by (auto simp: CreateBranch_def andthen_def raise_err_def split: option.splits prod.splits sum.splits)
  have s1: "txn s1 = None" "committed s1 = committed s"
    using quietD[OF quiet_enforceBranchCreationLimits assms(1) e] by simp_all
  from create_branch.run_post[OF s1(1) t triple_CreateBranch] assms(2) s1(2)
  obtain n now where *: "may_insert org pid cell (committed s)" "depth_ok md pid (cbc_ParentID config) n (committed s)"
    "committed s' = (committed s)\<lparr>t_branches := t_branches (committed s) @ [new_branch_row newID now pid cell config n]\<rparr>"
    by auto
  moreover have "n \<le> max 1 md" using *(2) by (auto simp: depth_ok_def split: option.splits)
  ultimately show ?thesis by blast
qed

text \<open>A database with one region, one cell, one project and room for branches.\<close>

definition demo_db :: db where
  "demo_db = empty_db\<lparr>
     t_regions := [\<lparr>rg_ID = ''eu'', rg_PublicAccess = True, rg_BackupsEnabled = True, rg_Provider = ProviderAWS,
        rg_GatewayHostPort = ''h'', rg_CreatedAt = 0, rg_OrganizationID = None\<rparr>],
     t_cells := [\<lparr>cl_ID = ''cell'', cl_RegionID = ''eu'', cl_CreatedAt = 0, cl_ClustersGRPCURL = ''u'', cl_Subdomain = None\<rparr>],
     t_projects := [new_project_row ''prj_1'' 0 ''org'' (demo_config ''one'')]\<rparr>"

definition demo_branch_config :: "string \<Rightarrow> string option \<Rightarrow> CreateBranchConfiguration" where
  "demo_branch_config name parent = \<lparr>cbc_Name = name, cbc_ParentID = parent, cbc_Description = None,
     cbc_BackupRetentionPeriod = 0, cbc_BackupsEnabled = False, cbc_UsageTier = ''t1'',
     cbc_Limits = Some \<lparr>MaxBranchesPerOrg = 200, MaxBranchesPerProject = 200, MaxBranchesPerHour = 100\<rparr>,
     cbc_ProjectLockHeld = False\<rparr>"

definition provision_ok :: "Branch \<Rightarrow> Project \<Rightarrow> nat \<Rightarrow> (goerr + Branch) \<times> nat" where
  "provision_ok b p w = (Inr b, Suc w)"

definition provision_fails :: "Branch \<Rightarrow> Project \<Rightarrow> nat \<Rightarrow> (goerr + Branch) \<times> nat" where
  "provision_fails b p w = (Inl (ErrCallback ''no capacity''), Suc w)"

lemma demo_db_inv: "store_inv 3 demo_db"
proof -
  have "minutes_ok (new_project_row ''prj_1'' 0 ''org'' (demo_config ''one''))" by code_simp
  then show ?thesis
    by (auto simp: demo_db_def store_inv_def schema_ok_def app_ok_def schema_defs app_defs empty_db_def unique_on_def)
qed

definition demo_branch :: "(db, nat) sess" where
  "demo_branch = snd (CreateBranch 3 ''br_1'' ''org'' ''prj_1'' ''cell'' (demo_branch_config ''main'' None) provision_ok (sess_of demo_db 0))"

theorem CreateBranch_checked_witness:
  "length (t_branches (committed demo_branch)) = 1"
proof -
  let ?run = "CreateBranch 3 ''br_1'' ''org'' ''prj_1'' ''cell'' (demo_branch_config ''main'' None) provision_ok (sess_of demo_db 0)"
  have "\<not> isl (fst ?run)" by code_simp
  then obtain b where run: "?run = (Inr b, demo_branch)" unfolding demo_branch_def using ok_run by blast
  from CreateBranch_checked[OF _ _ run] show ?thesis by (auto simp: demo_db_inv) (simp add: demo_db_def empty_db_def)
qed

text \<open>C9. A row and its cluster come together, whatever faults the session meets: either \<open>CreateBranch\<close> fails before the
  provisioning callback and changes neither database nor world, or it called the callback once, on the new branch.  When
  the callback fails its error is returned and nothing is committed.  When it succeeds the new row is committed
  and the callback's branch returned; only a fault of the commit itself can then make the call fail, with or without the row.\<close>

theorem CreateBranch_provision:
  assumes "txn s = None" "CreateBranch md newID org pid cell config f s = (r, s')"
  shows "isl r \<and> world s' = world s \<and> committed s' = committed s
    \<or> (\<exists>b p e. f b p (world s) = (Inl e, world s') \<and> r = Inl e \<and> committed s' = committed s)
    \<or> (\<exists>b p b' now n d. f b p (world s) = (Inr b', world s') \<and> b_ID b = newID \<and> b_Name b = cbc_Name config \<and>
         d = (committed s)\<lparr>t_branches := t_branches (committed s) @ [new_branch_row newID now pid cell config n]\<rparr> \<and>
         (r = Inr b' \<and> committed s' = d \<or> isl r \<and> faults s \<noteq> [] \<and> (committed s' = d \<or> committed s' = committed s)))"
  using CreateBranch_calls[OF assms] unfolding provisioned_def
proof (elim disjE exE conjE)
  fix q d n now b p
  assume run: "f b p (world s) = (q, world s')" and b: "b_ID b = newID" "b_Name b = cbc_Name config"
    and d: "d = (committed s)\<lparr>t_branches := t_branches (committed s) @ [new_branch_row newID now pid cell config n]\<rparr>"
    and no: "\<forall>e. q = Inl e \<longrightarrow> r = Inl e \<and> committed s' = committed s"
    and yes: "\<forall>x. q = Inr x \<longrightarrow> r = Inr x \<and> committed s' = d \<or> isl r \<and> faults s \<noteq> [] \<and> (committed s' = d \<or> committed s' = committed s)"
  show ?thesis
  proof (cases q)
    case (Inl e)
    then show ?thesis using run no by blast
  next
    case (Inr b')
    then show ?thesis using run b d yes by (intro disjI2) blast
  qed
qed simp

theorem CreateBranch_provision_witness:
  "committed (snd (CreateBranch 3 ''br_1'' ''org'' ''prj_1'' ''cell'' (demo_branch_config ''main'' None) provision_fails (sess_of demo_db 0))) = demo_db"
proof -
  obtain r s' where run: "CreateBranch 3 ''br_1'' ''org'' ''prj_1'' ''cell'' (demo_branch_config ''main'' None) provision_fails (sess_of demo_db 0) = (r, s')"
    by fastforce
  from CreateBranch_provision[OF _ run] show ?thesis
    by (auto simp: run provision_fails_def)
qed

section \<open>The branch tree\<close>

definition parent_of :: "db \<Rightarrow> string \<Rightarrow> string option" where
  "parent_of d bid = (case find (\<lambda>b. br_id b = bid) (t_branches d) of None \<Rightarrow> None | Some b \<Rightarrow> br_parent b)"

text \<open>The branches met when following parents, for at most \<open>n\<close> steps.\<close>

fun lineage :: "nat \<Rightarrow> db \<Rightarrow> string \<Rightarrow> string list" where
  "lineage 0 d bid = [bid]"
| "lineage (Suc n) d bid = (case parent_of d bid of None \<Rightarrow> [bid] | Some q \<Rightarrow> bid # lineage n d q)"

definition project_of :: "db \<Rightarrow> string \<Rightarrow> string option" where
  "project_of d bid = map_option br_project (find (\<lambda>b. br_id b = bid) (t_branches d))"

definition depth_of :: "db \<Rightarrow> string \<Rightarrow> int" where
  "depth_of d bid = (case find (\<lambda>b. br_id b = bid) (t_branches d) of None \<Rightarrow> 0 | Some b \<Rightarrow> br_depth b)"

lemma find_branch:
  assumes "store_inv md d" "b \<in> set (t_branches d)"
  shows "find (\<lambda>x. br_id x = br_id b) (t_branches d) = Some b"
  using store_invE(1)[OF assms(1)] assms(2) by (intro find_unique[where k = br_id]) (auto simp: keys_ok_def)

lemma lineage_root:
  assumes "store_inv md d" "b \<in> set (t_branches d)" "br_depth b \<le> int n + 1"
  shows "parent_of d (last (lineage n d (br_id b))) = None \<and>
    (\<forall>i\<in>set (lineage n d (br_id b)). project_of d i = Some (br_project b) \<and> depth_of d i \<le> br_depth b) \<and>
    distinct (lineage n d (br_id b)) \<and> int (length (lineage n d (br_id b))) \<le> br_depth b"
  using assms(2,3)
proof (induction n arbitrary: b)
  case 0
  note f = find_branch[OF assms(1) 0(1)]
  have d: "1 \<le> br_depth b" using store_invE(4)[OF assms(1)] 0 by (auto simp: tree_ok_def)
  have "br_parent b = None"
  proof (rule ccontr)
    assume "br_parent b \<noteq> None"
    then obtain a where "a \<in> set (t_branches d)" "br_depth b = br_depth a + 1"
      using store_invE(4)[OF assms(1)] 0(1) unfolding tree_ok_def by blast
    moreover have "1 \<le> br_depth a" using store_invE(4)[OF assms(1)] calculation(1) by (simp add: tree_ok_def)
    ultimately show False using 0(2) by simp
  qed
  then show ?case using f d by (simp add: parent_of_def project_of_def depth_of_def)
next
  case (Suc n)
  note f = find_branch[OF assms(1) Suc(2)]
  show ?case
  proof (cases "br_parent b")
    case None
    have "1 \<le> br_depth b" using store_invE(4)[OF assms(1)] Suc(2) by (auto simp: tree_ok_def)
    then show ?thesis using f None by (simp add: parent_of_def project_of_def depth_of_def)
  next
    case (Some q)
    then obtain a where a: "a \<in> set (t_branches d)" "br_id a = q" "br_project a = br_project b" "br_depth b = br_depth a + 1"
      using store_invE(4)[OF assms(1)] Suc(2) unfolding tree_ok_def by blast
    have IH: "parent_of d (last (lineage n d q)) = None \<and>
        (\<forall>i\<in>set (lineage n d q). project_of d i = Some (br_project a) \<and> depth_of d i \<le> br_depth a) \<and>
        distinct (lineage n d q) \<and> int (length (lineage n d q)) \<le> br_depth a"
      using Suc.IH[OF a(1)] Suc(3) a(2,4) by simp
    have "depth_of d (br_id b) = br_depth b" "project_of d (br_id b) = Some (br_project b)" "parent_of d (br_id b) = Some q"
      using f Some by (simp_all add: depth_of_def project_of_def parent_of_def)
    moreover have "br_id b \<notin> set (lineage n d q)" using IH calculation(1) a(4) by fastforce
    moreover have "lineage n d q \<noteq> []" by (cases n) (auto split: option.splits)
    ultimately show ?thesis using IH a(3,4) by auto
  qed
qed


lemma demo_branch_inv: "calm demo_branch" "store_inv 3 (committed demo_branch)"
proof -
  let ?run = "CreateBranch 3 ''br_1'' ''org'' ''prj_1'' ''cell'' (demo_branch_config ''main'' None) provision_ok (sess_of demo_db 0)"
  obtain r where run: "?run = (r, demo_branch)" unfolding demo_branch_def by (metis prod.collapse)
  have "txn demo_branch = None \<and> store_inv 3 (committed demo_branch)"
    by (rule op_keepsD[OF keeps_CreateBranch _ _ run]) (simp_all add: demo_db_inv)
  moreover have "faults demo_branch = []" by code_simp
  ultimately show "calm demo_branch" "store_inv 3 (committed demo_branch)" by (simp_all add: calm_def)
qed


section \<open>Tenancy\<close>

text \<open>When nothing breaks the answer is \<open>ErrProjectNotFound\<close>, from every operation on a project the organization does not
  own except \<open>CreateBranch\<close>, which may fail an earlier check.\<close>

lemma branches_not_found:
  assumes "calm s" "\<forall>r\<in>set (t_projects (committed s)). pr_id r = pid \<longrightarrow> pr_org r \<noteq> org"
  shows "ListBranches org pid s = (Inl (ErrProjectNotFound pid), s)
    \<and> DescribeBranch org pid bid s = (Inl (ErrProjectNotFound pid), s)
    \<and> GetBranchByName org pid name s = (Inl (ErrProjectNotFound pid), s)
    \<and> UpdateBranch org pid bid upd f s = (Inl (ErrProjectNotFound pid), s)
    \<and> DeleteBranch org pid bid g s = (Inl (ErrProjectNotFound pid), s)"
proof -
  have none: "find (\<lambda>r. pr_id r = pid \<and> pr_org r = org \<and> pr_active r) (t_projects (committed s)) = None"
    using assms(2) by (auto simp: find_None_iff)
  show ?thesis using assms(1)
    by (auto simp: ListBranches_def DescribeBranch_def GetBranchByName_def UpdateBranch_def UpdateBranch_body_def
        DeleteBranch_def DeleteBranch_body_def calm_def calm_simps calm_getProject none)
qed

definition owns_project :: "string \<Rightarrow> string \<Rightarrow> db \<Rightarrow> bool" where
  "owns_project org pid d \<longleftrightarrow> (\<exists>r\<in>set (t_projects d). pr_id r = pid \<and> pr_org r = org \<and> pr_active r)"

text \<open>A call that fails and leaves neither a write nor a trace of a callback.\<close>

definition refused :: "('d, 'w) sess \<Rightarrow> (goerr + 'a) \<times> ('d, 'w) sess \<Rightarrow> bool" where
  "refused s run \<longleftrightarrow> isl (fst run) \<and> committed (snd run) = committed s \<and> world (snd run) = world s"

lemma with_tx_run:
  assumes "tx_run (\<lambda>d. d = committed s) m F" "with_tx m s = (r, s')"
  shows "refused s (r, s') \<or> (\<exists>d. F (world s) r (world s') d)"
proof -
  obtain r1 s1 where b: "begin_tx s = (r1, s1)" by fastforce
  have b1: "world s1 = world s" "committed s1 = committed s" "r1 = Inr () \<Longrightarrow> txn s1 = Some (committed s)"
    using b by (auto simp: begin_tx_def pop_fault_def split: list.splits if_splits)
  show ?thesis
  proof (cases r1)
    case (Inl e)
    then show ?thesis using assms(2) b b1 by (auto simp: with_tx_def refused_def)
  next
    case (Inr u)
    obtain q s2 where m: "m s1 = (q, s2)" by fastforce
    have "r = q" "s' = s2\<lparr>txn := None\<rparr>" using assms(2) b Inr m by (simp_all add: with_tx_def)
    then show ?thesis using tx_runD[OF assms(1) _ refl m] Inr b1 by (auto simp: refused_def)
  qed
qed

text \<open>The reads answer with owned branches only.\<close>

lemma reads_owned:
  "with_tx (andthen (getProject org pid) (\<lambda>_. describeBranch pid bid)) s = (r, s') \<Longrightarrow>
     refused s (r, s') \<or> owns_branch org pid bid (committed s)"
  "with_tx (andthen (getProject org pid) (\<lambda>_. query Tx (\<lambda>d. one_row (map_option to_Branch (first_row
      (branches_join (\<lambda>b. br_project b = pid \<and> br_name b = name \<and> br_active b) d)))) conv)) s = (r2, s2) \<Longrightarrow>
     refused s (r2, s2) \<or> (\<exists>b. r2 = Inr b \<and> owns_branch org pid (b_ID b) (committed s))"
proof -
  let ?own = "\<lambda>i d. d = committed s \<and> owns_branch org pid i d"
  have "tx_steps (\<lambda>d. d = committed s) (andthen (getProject org pid) (\<lambda>_. describeBranch pid bid)) (\<lambda>_. ?own bid)"
    by (rule tx_steps_andthen[OF tx_steps_getProject tx_steps_weaken[OF tx_steps_describeBranch]]) (auto simp: owns_branch_def)
  from with_tx_run[OF this[unfolded tx_steps_def]]
  show "with_tx (andthen (getProject org pid) (\<lambda>_. describeBranch pid bid)) s = (r, s') \<Longrightarrow>
     refused s (r, s') \<or> owns_branch org pid bid (committed s)" by fastforce
  have "tx_steps (\<lambda>d. d = committed s) (andthen (getProject org pid) (\<lambda>_. query Tx (\<lambda>d. one_row (map_option to_Branch (first_row
      (branches_join (\<lambda>b. br_project b = pid \<and> br_name b = name \<and> br_active b) d)))) conv)) (\<lambda>b. ?own (b_ID b))"
    by (rule tx_steps_andthen[OF tx_steps_getProject tx_steps_weaken[OF tx_steps_query]])
      (auto simp: owns_branch_def one_row_def set_branches_join to_Branch_def dest!: first_row_SomeD split: option.splits)
  from with_tx_run[OF this[unfolded tx_steps_def]]
  show "with_tx (andthen (getProject org pid) (\<lambda>_. query Tx (\<lambda>d. one_row (map_option to_Branch (first_row
      (branches_join (\<lambda>b. br_project b = pid \<and> br_name b = name \<and> br_active b) d)))) conv)) s = (r2, s2) \<Longrightarrow>
     refused s (r2, s2) \<or> (\<exists>b. r2 = Inr b \<and> owns_branch org pid (b_ID b) (committed s))" by fastforce
qed

lemma query_rows_Tx:
  assumes "query_rows chk Tx f conv s = (r, s')"
  shows "committed s' = committed s \<and> world s' = world s \<and> (\<forall>xs. r = Inr xs \<longrightarrow> (\<exists>d. txn s = Some d \<and> set xs \<subseteq> set (f d)))"
  using assms unfolding query_rows_def query_def exec_def run_tx_def reads_def pop_fault_def rows_err_def
  by (auto split: list.splits fault.splits option.splits prod.splits sum.splits dest: in_set_takeD)

lemma ListBranches_owned:
  assumes "ListBranches org pid s = (r, s')"
  shows "refused s (r, s') \<or> owns_project org pid (committed s) \<and>
    (\<exists>bs. r = Inr bs \<and> (\<forall>b\<in>set bs. owns_branch org pid (b_ID b) (committed s)))"
proof -
  let ?list = "query_rows None Tx (\<lambda>d. map (\<lambda>x. (to_Branch x)\<lparr>b_Depth := 0\<rparr>)
    (branches_join (\<lambda>b. br_project b = pid \<and> br_active b) d)) ErrSql"
  obtain r1 s1 where b: "begin_tx s = (r1, s1)" by fastforce
  have b1: "world s1 = world s" "committed s1 = committed s" "r1 = Inr () \<Longrightarrow> txn s1 = Some (committed s)"
    using b by (auto simp: begin_tx_def pop_fault_def split: list.splits if_splits)
  obtain r2 s2 where g: "getProject org pid s1 = (r2, s2)" by fastforce
  obtain r3 s3 where l: "?list s2 = (r3, s3)" by fastforce
  show ?thesis
  proof (cases "r1 = Inr () \<and> \<not> isl r2")
    case False
    then have "isl r1 \<and> r = Inl (projl r1) \<and> s' = s1 \<or> r1 = Inr () \<and> isl r2 \<and> r = Inl (projl r2) \<and> s' = s2\<lparr>txn := None\<rparr>"
      using assms b g by (cases r1; cases r2) (auto simp: ListBranches_def with_tx_def andthen_def)
    then show ?thesis
      using b1 tx_runD[OF tx_steps_getProject[of "\<lambda>_. True", unfolded tx_steps_def] _ _ g] by (auto simp: refused_def)
  next
    case True
    then have p: "txn s2 = Some (committed s)" "world s2 = world s" "committed s2 = committed s" "owns_project org pid (committed s)"
      using b1 tx_runD[OF tx_steps_getProject[of "\<lambda>d. d = committed s", unfolded tx_steps_def] _ refl g] by (auto simp: owns_project_def)
    have "r = r3" "s' = s3\<lparr>txn := None\<rparr>"
      using assms b g l True by (auto simp: ListBranches_def with_tx_def andthen_def isl_def split: sum.splits)
    moreover have "\<forall>b\<in>set bs. owns_branch org pid (b_ID b) (committed s)" if "r3 = Inr bs" for bs
      using query_rows_Tx[OF l] that p(1,4) by (fastforce simp: owns_branch_def owns_project_def set_branches_join to_Branch_def)
    ultimately show ?thesis using query_rows_Tx[OF l] p by (cases r3) (auto simp: refused_def)
  qed
qed

lemma create_refused:
  assumes "txn s = None"
    "\<not> owns_project org pid (committed s) \<or> cbc_ParentID config = Some bid \<and> \<not> owns_branch org pid bid (committed s)"
  shows "refused s (CreateBranch md newID org pid cell config h s)"
proof -
  obtain r s' where run: "CreateBranch md newID org pid cell config h s = (r, s')" by fastforce
  have "\<not> provisioned md newID org pid cell config h (committed s) w q w' d" for w q w' d
    using assms(2) by (auto simp: provisioned_def may_insert_def depth_ok_def owns_project_def owns_branch_def)
  then show ?thesis using CreateBranch_calls[OF assms(1) run] by (simp add: run refused_def)
qed

lemma guarded_refused:
  fixes k :: "Branch \<Rightarrow> ('w, 'x) cmd" and org pid bid :: string
  defines "m \<equiv> andthen (getProject org pid) (\<lambda>_. andthen (describeBranch pid bid) k)"
  assumes "txn s = None" "\<not> owns_branch org pid bid (committed s)" "confined m"
  shows "refused s (in_tx m (\<lambda>x. x) s)"
proof -
  obtain r s' where run: "in_tx m (\<lambda>x. x) s = (r, s')" by fastforce
  have "tx_run (\<lambda>d. d = committed s) m (\<lambda>_ _ _ _. False)"
    unfolding m_def by (rule tx_steps_owns_branch) (use assms(3) in \<open>auto simp: tx_run_def\<close>)
  from in_tx_run[OF assms(2) this run assms(4)] show ?thesis by (simp add: run refused_def)
qed

lemma writes_refused:
  assumes "txn s = None" "\<not> owns_branch org pid bid (committed s)"
  shows "refused s (UpdateBranch org pid bid upd f s)" "refused s (DeleteBranch org pid bid g s)"
  unfolding UpdateBranch_def UpdateBranch_body_def DeleteBranch_def DeleteBranch_body_def
  by (rule guarded_refused[OF assms]; intro confined_intros)+

lemma describe_refused: "\<not> owns_branch org pid bid (committed s) \<Longrightarrow> refused s (DescribeBranch org pid bid s)"
  using reads_owned(1)[of org pid bid s] unfolding DescribeBranch_def
  by (cases "with_tx (andthen (getProject org pid) (\<lambda>_. describeBranch pid bid)) s") simp

lemma byname_owned:
  "refused s (GetBranchByName org pid name s) \<or> (\<exists>b. fst (GetBranchByName org pid name s) = Inr b \<and> owns_branch org pid (b_ID b) (committed s))"
proof -
  obtain r s' where run: "GetBranchByName org pid name s = (r, s')" by fastforce
  show ?thesis using reads_owned(2)[OF run[unfolded GetBranchByName_def]] by (simp add: run)
qed

text \<open>C28. An organization reaches its own branches only, whatever faults the session meets.  Describing, updating or
  deleting a branch that is not an active branch of the given project, or whose project is not an active one of the organization,
  fails without a write and without calling a callback, even when the branch exists under another project; so does
  creating a child of such a branch, and so do listing, looking up by name and creating in a project that
  is not the organization's.  Every branch that a list or a lookup returns is the organization's.\<close>

theorem branches_need_ownership:
  assumes "txn s = None"
  shows "(\<not> owns_branch org pid bid (committed s) \<longrightarrow>
      refused s (DescribeBranch org pid bid s) \<and> refused s (UpdateBranch org pid bid upd f s) \<and> refused s (DeleteBranch org pid bid g s) \<and>
      (cbc_ParentID config = Some bid \<longrightarrow> refused s (CreateBranch md newID org pid cell config h s)))
    \<and> (\<not> owns_project org pid (committed s) \<longrightarrow> refused s (ListBranches org pid s) \<and>
      refused s (GetBranchByName org pid name s) \<and> refused s (CreateBranch md newID org pid cell config h s))
    \<and> (\<forall>bs s'. ListBranches org pid s = (Inr bs, s') \<longrightarrow> (\<forall>b\<in>set bs. owns_branch org pid (b_ID b) (committed s)))
    \<and> (\<forall>b s'. GetBranchByName org pid name s = (Inr b, s') \<longrightarrow> owns_branch org pid (b_ID b) (committed s))"
proof (intro conjI impI allI ballI)
  have sub: "owns_branch org pid i (committed s) \<Longrightarrow> owns_project org pid (committed s)" for i
    by (auto simp: owns_branch_def owns_project_def)
  obtain r s1 where list: "ListBranches org pid s = (r, s1)" by fastforce
  note owned = ListBranches_owned[OF list]
  show "refused s (ListBranches org pid s)" if "\<not> owns_project org pid (committed s)" using owned that list by simp
  show "owns_branch org pid (b_ID b) (committed s)" if "ListBranches org pid s = (Inr bs, s')" "b \<in> set bs" for bs s' b
    using owned that list by (auto simp: refused_def)
  show "refused s (GetBranchByName org pid name s)" if "\<not> owns_project org pid (committed s)" using byname_owned sub that by blast
  show "owns_branch org pid (b_ID b) (committed s)" if "GetBranchByName org pid name s = (Inr b, s')" for b s'
    using byname_owned[of s org pid name] that by (auto simp: refused_def)
qed (use assms in \<open>blast intro: describe_refused writes_refused create_refused\<close>)+

definition deprovision_ok :: "Branch \<Rightarrow> nat \<Rightarrow> (goerr + unit) \<times> nat" where
  "deprovision_ok b w = (Inr (), Suc w)"

text \<open>Two organizations with a project each: a foreign branch is out of reach, also through one's own project.\<close>

definition two_tenants :: "(db, nat) sess" where
  "two_tenants = (let d = committed demo_branch in
     sess_of (d\<lparr>t_projects := t_projects d @ [new_project_row ''prj_2'' 0 ''spy'' (demo_config ''two'')]\<rparr>) 0)"

theorem branches_need_ownership_witness:
  "refused two_tenants (DeleteBranch ''spy'' ''prj_2'' ''br_1'' deprovision_ok two_tenants) \<and>
   refused two_tenants (DescribeBranch ''spy'' ''prj_1'' ''br_1'' two_tenants) \<and>
   refused two_tenants (ListBranches ''spy'' ''prj_1'' two_tenants) \<and> owns_project ''spy'' ''prj_2'' (committed two_tenants)"
proof -
  have rows: "list_all (\<lambda>r. pr_id r = ''prj_1'' \<longrightarrow> pr_org r \<noteq> ''spy'') (t_projects (committed two_tenants))"
    "list_all (\<lambda>b. br_project b \<noteq> ''prj_2'') (t_branches (committed two_tenants))"
    "list_ex (\<lambda>r. pr_id r = ''prj_2'' \<and> pr_org r = ''spy'' \<and> pr_active r) (t_projects (committed two_tenants))"
    "txn two_tenants = None" by code_simp+
  have p: "\<not> owns_project ''spy'' ''prj_1'' (committed two_tenants)" "owns_project ''spy'' ''prj_2'' (committed two_tenants)"
    unfolding owns_project_def using rows(1,3) by (auto simp: list_all_iff list_ex_iff)
  have b: "\<not> owns_branch ''spy'' ''prj_1'' ''br_1'' (committed two_tenants)" "\<not> owns_branch ''spy'' ''prj_2'' ''br_1'' (committed two_tenants)"
    unfolding owns_branch_def using rows(1,2) by (auto simp: list_all_iff)
  note own = branches_need_ownership[OF rows(4), of "''spy''" _ "''br_1''"]
  show ?thesis using p own[of "''prj_2''", THEN conjunct1, rule_format, OF b(2)]
      own[of "''prj_1''", THEN conjunct1, rule_format, OF b(1)] own[of "''prj_1''", THEN conjunct2, THEN conjunct1, rule_format, OF p(1)]
    by simp
qed

section \<open>Deleting and cleaning up\<close>

lemma first_join_None:
  assumes "\<forall>b\<in>set (t_branches d). \<not> p b"
  shows "first_row (branches_join p d) = None"
proof -
  have "set (branches_join p d) = {}" unfolding set_branches_join using assms by auto
  then show ?thesis by (simp add: first_row_None_iff)
qed

text \<open>\<open>DeleteBranch\<close> is a soft delete of one branch: whatever faults the session meets, after a success
  the branch was active and owned, exactly its row is terminated, every other row (its children
  included) is unchanged, its continuous backup is gone, and \<open>DescribeBranch\<close> no longer finds it.\<close>

lemma DeleteBranch_soft:
  assumes "txn s = None" "store_inv md (committed s)" "DeleteBranch org pid bid f s = (Inr (), s')"
  shows "owns_branch org pid bid (committed s)
    \<and> list_all2 (\<lambda>b b'. if br_id b = bid then br_status b' = StatusTerminated \<and> br_parent b' = br_parent b \<and> br_id b' = bid else b' = b)
        (t_branches (committed s)) (t_branches (committed s'))
    \<and> (\<forall>k\<in>set (t_backups (committed s')). bk_id k \<noteq> bid)
    \<and> (faults s' \<noteq> [] \<or> DescribeBranch org pid bid s' = (Inl (ErrBranchNotFound bid), s'))"
proof -
  from delete_branch.run_post[OF assms(1) assms(3)[unfolded DeleteBranch_def] triple_DeleteBranch[OF assms(2)]]
  obtain now where own: "owns_branch org pid bid (committed s)"
    and t: "t_branches (committed s') = update_where (\<lambda>b. br_id b = bid)
       (\<lambda>b. b\<lparr>br_status := StatusTerminated, br_status_changed := now\<rparr>) (t_branches (committed s))"
    and k: "t_backups (committed s') = delete_where (\<lambda>k. bk_id k = bid) (t_backups (committed s))"
    and p: "t_projects (committed s') = t_projects (committed s)" by blast
  have "DescribeBranch org pid bid s' = (Inl (ErrBranchNotFound bid), s')" if "faults s' = []"
  proof -
    obtain x where x: "find (\<lambda>r. pr_id r = pid \<and> pr_org r = org \<and> pr_active r) (t_projects (committed s')) = Some x"
      using own find_NoneD[of "\<lambda>r. pr_id r = pid \<and> pr_org r = org \<and> pr_active r" "t_projects (committed s)"]
      unfolding p owns_branch_def by fastforce
    have "\<forall>b\<in>set (t_branches (committed s')). \<not> (br_project b = pid \<and> br_id b = bid \<and> br_active b)"
      unfolding t ball_update_where by simp
    note none = first_join_None[OF this]
    have "txn s' = None" using op_keepsD[OF keeps_DeleteBranch assms(1,2,3)] by blast
    then show ?thesis using that x none
      by (simp add: DescribeBranch_def calm_simps calm_getProject calm_describeBranch)
  qed
  then show ?thesis using own k unfolding t
    by (auto simp: list_all2_conv_all_nth update_where_def set_delete_where)
qed

text \<open>\<open>CleanupTerminatedBranches\<close> with a retention of \<open>n\<close> seconds removes exactly the branches of the
  cell that were terminated for longer, and returns their number: every active branch stays, and of
  the rows that stay only the parent pointer to a removed branch is cleared.\<close>

lemma CleanupTerminatedBranches_exact:
  fixes cell :: string
  assumes "calm s" "0 \<le> n" "n < 2 ^ 33"
  defines "old \<equiv> (\<lambda>b. br_cell b = cell \<and> br_status b = StatusTerminated \<and> br_status_changed b < clock s - n * 1000000)"
  shows "\<exists>s'. CleanupTerminatedBranches cell (n * second_ns) s = (Inr (int (count_where old (t_branches (committed s)))), s')
    \<and> list_all2 (\<lambda>b b'. b' = b\<lparr>br_parent := br_parent b'\<rparr> \<and>
          (br_parent b' = br_parent b \<or> br_parent b' = None \<and> (\<exists>a\<in>set (t_branches (committed s)). old a \<and> br_parent b = Some (br_id a))))
        (filter (\<lambda>b. \<not> old b) (t_branches (committed s))) (t_branches (committed s'))
    \<and> filter br_active (map (\<lambda>b. b\<lparr>br_parent := None\<rparr>) (t_branches (committed s'))) =
      filter br_active (map (\<lambda>b. b\<lparr>br_parent := None\<rparr>) (t_branches (committed s)))"
proof -
  let ?gone = "map br_id (filter old (t_branches (committed s)))"
  let ?d = "(committed s)\<lparr>t_branches := map (clear_parent ?gone) (delete_where old (t_branches (committed s))),
    t_backups := map (clear_branch ?gone) (t_backups (committed s)),
    t_github_repositories := delete_where (\<lambda>m. gm_RootBranchID m \<in> set ?gone) (t_github_repositories (committed s))\<rparr>"
  have run: "CleanupTerminatedBranches cell (n * second_ns) s =
      (Inr (int (count_where old (t_branches (committed s)))), s\<lparr>committed := ?d\<rparr>)"
    using assms(1) interval_us_Seconds_whole[OF assms(2,3)]
    by (simp add: CleanupTerminatedBranches_def calm_def calm_simps del_branches_def Let_def old_def)
  have clear: "clear_parent ?gone b = b\<lparr>br_parent := br_parent (clear_parent ?gone b)\<rparr>"
    "br_parent (clear_parent ?gone b) = br_parent b \<or> br_parent (clear_parent ?gone b) = None \<and>
      (\<exists>a\<in>set (t_branches (committed s)). old a \<and> br_parent b = Some (br_id a))"
    "(clear_parent ?gone b)\<lparr>br_parent := None\<rparr> = b\<lparr>br_parent := None\<rparr>" for b
    by (auto simp: clear_parent_def split: option.splits)
  have active: "filter br_active (map (\<lambda>b. b\<lparr>br_parent := None\<rparr>) (map (clear_parent ?gone) (delete_where old t))) =
      filter br_active (map (\<lambda>b. b\<lparr>br_parent := None\<rparr>) t)" for t
  proof (induction t)
    case (Cons a t)
    have "old a \<Longrightarrow> \<not> br_active a" by (simp add: old_def)
    then show ?case using Cons by (auto simp: delete_where_def clear(3))
  qed (simp add: delete_where_def)
  show ?thesis unfolding run
    by (intro exI conjI) (rule refl, use clear active in \<open>auto simp: list_all2_conv_all_nth delete_where_def\<close>)
qed

section \<open>A stream of rows that breaks\<close>

text \<open>\<open>ListBranches\<close> does not ask \<open>rows.Err()\<close>: when the stream of rows breaks after \<open>n\<close> rows it
  returns the first \<open>n\<close> branches as a success, so a caller cannot tell a short answer from a complete one.\<close>

lemma ListBranches_truncates:
  assumes "txn s = None" "faults s = [NoFault, NoFault, RowsCut n]"
    "\<exists>r\<in>set (t_projects (committed s)). pr_id r = pid \<and> pr_org r = org \<and> pr_active r"
  shows "\<exists>bs. fst (ListBranches org pid (s\<lparr>faults := []\<rparr>)) = Inr bs \<and> fst (ListBranches org pid s) = Inr (take n bs)"
proof -
  obtain x where x: "find (\<lambda>r. pr_id r = pid \<and> pr_org r = org \<and> pr_active r) (t_projects (committed s)) = Some x"
    using assms(3) find_NoneD[of "\<lambda>r. pr_id r = pid \<and> pr_org r = org \<and> pr_active r" "t_projects (committed s)"]
    by fastforce
  have calm: "fst (ListBranches org pid (s\<lparr>faults := []\<rparr>)) = Inr (map (\<lambda>x. (to_Branch x)\<lparr>b_Depth := 0\<rparr>)
      (branches_join (\<lambda>b. br_project b = pid \<and> br_active b) (committed s)))"
    using x by (simp add: ListBranches_def calm_simps calm_getProject)
  show ?thesis unfolding calm using assms(1,2) x
    by (simp add: ListBranches_def getProject_def go_defs query_rows_def rows_err_def reads_def one_row_def take_map)
qed

end
