(* ===== verification/Org_Correct.thy ===== *)
theory Org_Correct
  imports Store_System Branches_Correct
begin

text \<open>
  What the organization status worker guarantees, over the definitions of \<open>Org_Worker\<close>: the retry
  schedule, the end of a pass, and for the concurrent system that no desired state is recorded as
  applied before it was, and that one organization is synced by one worker at a time.
\<close>

section \<open>The retry schedule\<close>

text \<open>The delay before a retry starts at one second, doubles per attempt, never exceeds the configured
  maximum or \<open>2^20\<close> seconds (so the \<open>int64\<close> multiplication cannot wrap), and never shrinks as attempts grow.\<close>

lemma backoff_bounds:
  assumes "second_ns \<le> MaxBackoff cfg"
  shows "second_ns \<le> backoff cfg a \<and> backoff cfg a \<le> MaxBackoff cfg \<and> backoff cfg a \<le> 2 ^ 20 * second_ns
    \<and> in_int64 (2 ^ 20 * second_ns)
    \<and> (1 \<le> a \<longrightarrow> a \<le> 20 \<longrightarrow> 2 ^ nat (a - 1) * second_ns \<le> MaxBackoff cfg \<longrightarrow> backoff cfg a = 2 ^ nat (a - 1) * second_ns)
    \<and> (a \<le> b \<longrightarrow> backoff cfg a \<le> backoff cfg b)"
proof -
  let ?e = "\<lambda>a. nat (min ((if a < 1 then 1 else a) - 1) 20)"
  have pow: "(2 :: int) ^ ?e a \<le> 2 ^ 20" for a by (rule power_increasing) (auto simp: min_def)
  have B: "backoff cfg a = min (2 ^ ?e a * second_ns) (MaxBackoff cfg)" for a by (simp add: backoff_def Let_def)
  have "second_ns \<le> 2 ^ ?e a * second_ns" "2 ^ ?e a * second_ns \<le> 2 ^ 20 * second_ns"
    using pow[of a] by simp_all
  then have "second_ns \<le> backoff cfg a" "backoff cfg a \<le> 2 ^ 20 * second_ns" "backoff cfg a \<le> MaxBackoff cfg"
    unfolding B using assms by (simp_all add: min_le_iff_disj)
  moreover have "a \<le> b \<Longrightarrow> backoff cfg a \<le> backoff cfg b"
    unfolding B by (intro min.mono mult_right_mono power_increasing) (auto simp: min_def)
  moreover have "1 \<le> a \<Longrightarrow> a \<le> 20 \<Longrightarrow> ?e a = nat (a - 1)" by (simp add: min_def)
  ultimately show ?thesis by (simp add: B in_int64_def int64_min_def int64_max_def min_def)
qed

definition default_cfg :: Config where
  "default_cfg = withDefaults \<lparr>PollInterval = 0, SyncTimeout = 0, Lease = 0, MaxBackoff = 0\<rparr>"

section \<open>A pass ends\<close>

text \<open>A command that does not set the worker's clock back, and the judgement along the structure of commands.\<close>

named_theorems forward_intros

definition forward :: "('w \<Rightarrow> int) \<Rightarrow> ('d, 'w, 'a) go \<Rightarrow> bool" where
  "forward t m \<longleftrightarrow> (\<forall>s r s'. m s = (r, s') \<longrightarrow> t (world s) \<le> t (world s'))"

lemma forwardD: "forward t m \<Longrightarrow> m s = (r, s') \<Longrightarrow> t (world s) \<le> t (world s')"
  by (rule forward_def[THEN iffD1, rule_format])

lemma forward_simple [forward_intros]: "forward t (ret x)" "forward t (raise_err e)"
  by (simp_all add: forward_def ret_def raise_err_def)

lemma forward_call_fn: "(\<And>w r w'. f w = (r, w') \<Longrightarrow> t w \<le> t w') \<Longrightarrow> forward t (call_fn f)"
  by (auto simp: forward_def call_fn_def split: prod.splits)

lemma forward_observe [forward_intros]: "forward t (observe f)"
  unfolding observe_def by (rule forward_call_fn) simp

lemma forward_with_res [forward_intros]:
  assumes "forward t m" "\<And>r. forward t (f r)"
  shows "forward t (with_res m f)"
  unfolding forward_def
proof (intro allI impI)
  fix s r s' assume run: "with_res m f s = (r, s')"
  obtain r1 s1 where m: "m s = (r1, s1)" by fastforce
  have "f r1 s1 = (r, s')" using run m by (simp add: with_res_def)
  then show "t (world s) \<le> t (world s')" using forwardD[OF assms(1) m] forwardD[OF assms(2)] by fastforce
qed

lemma forward_cases [forward_intros]:
  "forward t m \<Longrightarrow> forward t n \<Longrightarrow> forward t (if c then m else n)"
  "forward t n \<Longrightarrow> (\<And>x. forward t (f x)) \<Longrightarrow> forward t (case v of None \<Rightarrow> n | Some x \<Rightarrow> f x)"
  "(\<And>x. forward t (g x)) \<Longrightarrow> (\<And>x. forward t (h x)) \<Longrightarrow> forward t (case u of Inl x \<Rightarrow> g x | Inr x \<Rightarrow> h x)"
  by (simp_all split: option.split sum.split)

lemma andthen_with_res: "andthen m f = with_res m (\<lambda>r. case r of Inl e \<Rightarrow> raise_err e | Inr x \<Rightarrow> f x)"
  by (rule ext) (simp add: with_res_def andthen_def raise_err_def split: prod.split sum.split)

lemma forward_andthen [forward_intros]: "forward t m \<Longrightarrow> (\<And>x. forward t (f x)) \<Longrightarrow> forward t (andthen m f)"
  unfolding andthen_with_res by (intro forward_intros)

lemma forward_map_err [forward_intros]: "forward t m \<Longrightarrow> forward t (map_err f m)"
  unfolding forward_def map_err_def by (auto split: prod.splits sum.splits)

lemma exec_Pool_result:
  assumes "exec Pool st conv s = (r, s')"
  shows "txn s' = txn s \<and> world s' = world s \<and> (\<forall>x. r = Inr x \<longrightarrow> st (committed s) = Inr (x, committed s'))"
  using assms by (auto simp: exec_def run_pool_def pop_fault_def split: prod.splits sum.splits list.splits fault.splits)

text \<open>How often a row can still be claimed up to the time \<open>H\<close>, when each failed sync puts it off by at least a second.\<close>

definition claims_until :: "int \<Rightarrow> OrganizationStatus \<Rightarrow> nat" where
  "claims_until H r = (if os_SyncedAt r \<noteq> None \<or> H < os_NextRetryAt r then 0
     else Suc (nat ((H - os_NextRetryAt r) div 1000000)))"

definition claims_left :: "int \<Rightarrow> OrganizationStatus list \<Rightarrow> nat" where
  "claims_left H t = sum_list (map (claims_until H) t)"

lemma claims_until_less:
  assumes "os_SyncedAt r = None" "os_NextRetryAt r \<le> H"
    "os_SyncedAt r' \<noteq> None \<or> os_NextRetryAt r + 1000000 \<le> os_NextRetryAt r'"
  shows "claims_until H r' < claims_until H r"
proof (cases "os_SyncedAt r' \<noteq> None \<or> H < os_NextRetryAt r'")
  case False
  then have "(H - os_NextRetryAt r') div 1000000 \<le> (H - os_NextRetryAt r - 1000000) div 1000000"
    using assms(3) by (intro zdiv_mono1) auto
  also have "\<dots> = (H - os_NextRetryAt r) div 1000000 - 1" by simp
  finally have "(H - os_NextRetryAt r') div 1000000 < (H - os_NextRetryAt r) div 1000000" by simp
  moreover have "0 \<le> (H - os_NextRetryAt r') div 1000000" using False by (simp add: pos_imp_zdiv_nonneg_iff)
  ultimately show ?thesis using False assms(1,2) by (simp add: claims_until_def)
qed (use assms(1,2) in \<open>auto simp: claims_until_def\<close>)

lemma claims_until_mark [simp]: "claims_until H (take_lease now l r) = claims_until H r"
  by (simp add: claims_until_def take_lease_def)

lemma claims_left_update_le:
  assumes "\<And>x. x \<in> set t \<Longrightarrow> P x \<Longrightarrow> claims_until H (f x) \<le> claims_until H x"
  shows "claims_left H (update_where P f t) \<le> claims_left H t"
proof -
  have "map (claims_until H) (update_where P f t) = map (\<lambda>x. claims_until H (if P x then f x else x)) t"
    by (simp add: update_where_def)
  then show ?thesis unfolding claims_left_def using assms by (auto intro!: sum_list_mono)
qed

lemma claims_left_update_less:
  assumes "r \<in> set t" "P r" "\<And>x. x \<in> set t \<Longrightarrow> P x \<Longrightarrow> x = r" "claims_until H (f r) < claims_until H r"
  shows "claims_left H (update_where P f t) < claims_left H t"
  using assms
proof (induction t)
  case (Cons x t)
  have le: "claims_left H (update_where P f t) \<le> claims_left H t"
    using Cons.prems(3,4) by (intro claims_left_update_le) (metis less_imp_le_nat list.set_intros(2))
  show ?case
  proof (cases "x = r")
    case True
    then show ?thesis using le Cons.prems(2,4) by (simp add: claims_left_def update_where_def)
  next
    case False
    then have "\<not> P x" using Cons.prems(3) by auto
    moreover have "claims_left H (update_where P f t) < claims_left H t"
    proof (rule Cons.IH[OF _ Cons.prems(2) _ Cons.prems(4)])
      show "r \<in> set t" using Cons.prems(1) False by simp
      show "y = r" if "y \<in> set t" "P y" for y by (rule Cons.prems(3)) (use that in simp_all)
    qed
    ultimately show ?thesis by (simp add: claims_left_def update_where_def)
  qed
qed simp

lemma claims_left_pos: "r \<in> set t \<Longrightarrow> due now r \<Longrightarrow> now \<le> H \<Longrightarrow> 0 < claims_left H t"
  by (induction t) (auto simp: claims_left_def claims_until_def due_def)

text \<open>One sync of a claimed row, whatever requests and replies the database loses.\<close>

definition pass_sync :: "'w worker_env \<Rightarrow> (string \<Rightarrow> bool \<Rightarrow> ('w, unit) cmd) \<Rightarrow> bool" where
  "pass_sync env syncFn \<longleftrightarrow> (\<forall>k b. quiet (syncFn k b) \<and> forward (now_of env) (syncFn k b))"

definition retry_at :: "Config \<Rightarrow> 'w worker_env \<Rightarrow> 'w \<Rightarrow> int \<Rightarrow> int" where
  "retry_at cfg env w attempts =
     (if ctx_err env w \<noteq> None then now_of env w else add_dur (now_of env w) (backoff cfg attempts))"

definition marked_row :: "'w worker_env \<Rightarrow> 'w \<Rightarrow> int \<Rightarrow> int \<Rightarrow> goerr + unit \<Rightarrow> OrganizationStatus \<Rightarrow> OrganizationStatus" where
  "marked_row env w retry version q = (case q of
     Inl e \<Rightarrow> mark_failed_row version (error_text env e) retry | Inr _ \<Rightarrow> mark_synced_row version (now_of env w))"

lemma syncOne_marks:
  assumes sync: "syncFn (os_OrganizationID p) (os_Disabled p) s = (q1, s1)" and run: "syncOne cfg env syncFn p s = (q, s')"
  shows "txn s' = txn s1 \<and> world s' = world s1 \<and> (q = Inr () \<longrightarrow> t_organization_statuses (committed s') =
    update_where (of_org (os_OrganizationID p)) (marked_row env (world s1) (retry_at cfg env (world s1) (os_Attempts p)) (os_Version p) q1)
      (t_organization_statuses (committed s1)))"
proof -
  let ?k = "os_OrganizationID p" and ?v = "os_Version p" and ?now = "now_of env (world s1)"
  let ?retry = "retry_at cfg env (world s1) (os_Attempts p)"
  let ?put = "\<lambda>f d. d\<lparr>t_organization_statuses := f (t_organization_statuses d)\<rparr>"
  have table: "?put f d = d' \<Longrightarrow> t_organization_statuses d' = f (t_organization_statuses d)" for f and d d' :: db
    by (drule sym) simp
  show ?thesis
  proof (cases q1)
    case (Inl e)
    have eq: "syncOne cfg env syncFn p s =
        map_err (Wrap (''record sync failure for '' @ ?k)) (MarkOrganizationStatusFailed ?k ?v (error_text env e) ?retry) s1"
      using sync Inl by (simp add: syncOne_def with_res_def andthen_def observe_def call_fn_def retry_at_def)
    obtain q2 where m: "MarkOrganizationStatusFailed ?k ?v (error_text env e) ?retry s1 = (q2, s')" "q = Inr () \<longrightarrow> q2 = Inr ()"
      using run[unfolded eq] by (auto simp: map_err_def split: prod.splits sum.splits)
    show ?thesis using exec_Pool_result[OF m(1)[unfolded MarkOrganizationStatusFailed_def]] m(2) Inl
      by (auto simp: marked_row_def mark_failed_def dest: table)
  next
    case (Inr x)
    let ?ex = "exec Pool (\<lambda>d. Inr (find (of_org ?k) (t_organization_statuses d), ?put (mark_synced ?k ?v ?now) d))
      (\<lambda>e. Wrap ''mark organization status synced'' (ErrSql e))"
    have eq: "syncOne cfg env syncFn p s = andthen (map_err (Wrap (''record sync success for '' @ ?k))
        (MarkOrganizationStatusSynced ?k ?v ?now)) (\<lambda>_. ret ()) s1"
      using sync Inr by (simp add: syncOne_def with_res_def andthen_def observe_def call_fn_def)
    obtain q2 where m: "?ex s1 = (q2, s')" "q = Inr () \<longrightarrow> (\<exists>b. q2 = Inr b)"
      using run[unfolded eq] by (auto simp: MarkOrganizationStatusSynced_def andthen_def map_err_def ret_def split: prod.splits sum.splits)
    show ?thesis using exec_Pool_result[OF m(1)] m(2) Inr
      by (auto simp: marked_row_def mark_synced_def dest: table)
  qed
qed

lemma syncOne_spends:
  assumes s: "txn s = None" and still: "pass_sync env syncFn"
    and u: "unique_on os_OrganizationID anyrow t" and r: "r \<in> set t" "due now r"
    and tab: "t_organization_statuses (committed s) = update_where (of_org (os_OrganizationID r)) (take_lease now l) t"
    and mb: "second_ns \<le> MaxBackoff cfg" and now: "now \<le> now_of env (world s)"
    and run: "syncOne cfg env syncFn (take_lease now l r) s = (q, s')"
  shows "txn s' = None" "now_of env (world s) \<le> now_of env (world s')"
    "q = Inr () \<Longrightarrow> unique_on os_OrganizationID anyrow (t_organization_statuses (committed s'))"
    "q = Inr () \<Longrightarrow> now \<le> H \<Longrightarrow> ctx_err env (world s') = None \<Longrightarrow>
       claims_left H (t_organization_statuses (committed s')) < claims_left H t"
proof -
  let ?k = "os_OrganizationID r"
  let ?go = "syncFn ?k (os_Disabled (take_lease now l r))"
  obtain q1 s1 where sync: "syncFn ?k (os_Disabled (take_lease now l r)) s = (q1, s1)" by fastforce
  have s1: "txn s1 = None" "committed s1 = committed s" "now_of env (world s) \<le> now_of env (world s1)"
    using still quietD[OF _ s, of ?go q1 s1] forwardD[of "now_of env" ?go s q1 s1] sync unfolding pass_sync_def by blast+
  define retry where "retry = retry_at cfg env (world s1) (os_Attempts (take_lease now l r))"
  define f where "f = marked_row env (world s1) retry (os_Version (take_lease now l r)) q1"
  have marked: "txn s' = None \<and> world s' = world s1 \<and>
      (q = Inr () \<longrightarrow> t_organization_statuses (committed s') = update_where (of_org ?k) f (t_organization_statuses (committed s)))"
    using syncOne_marks[OF _ run, of q1 s1] sync s1(1,2) by (simp add: f_def retry_def)
  have f_id: "os_OrganizationID (f x) = os_OrganizationID x" for x by (simp add: f_def marked_row_def split: sum.split)
  show "txn s' = None" "now_of env (world s) \<le> now_of env (world s')" using marked s1(3) by simp_all
  have keys: "unique_on os_OrganizationID anyrow (t_organization_statuses (committed s))"
    unfolding tab by (rule unique_on_update_mono[OF u]) simp
  show "unique_on os_OrganizationID anyrow (t_organization_statuses (committed s'))" if "q = Inr ()"
    using marked that by (simp add: unique_on_update_mono[OF keys] f_id)
  show "claims_left H (t_organization_statuses (committed s')) < claims_left H t"
    if "q = Inr ()" "now \<le> H" "ctx_err env (world s') = None"
  proof -
    have "second_ns \<le> backoff cfg (os_Attempts (take_lease now l r))" using mb by (auto simp: backoff_def Let_def)
    then have "quot_go second_ns 1000 \<le> quot_go (backoff cfg (os_Attempts (take_lease now l r))) 1000"
      by (simp add: quot_go_nonneg zdiv_mono1)
    then have "now + 1000000 \<le> retry"
      using that(3) marked now s1(3) by (simp add: retry_def retry_at_def add_dur_def quot_go_nonneg)
    then have "claims_until H (f (take_lease now l r)) < claims_until H r"
      using r(2) that(2)
      by (intro claims_until_less)
        (auto simp: f_def marked_row_def due_def take_lease_def mark_failed_row_def mark_synced_row_def split: sum.splits)
    then have "claims_left H (update_where (of_org ?k) (\<lambda>x. f (take_lease now l x)) t) < claims_left H t"
      by (intro claims_left_update_less[OF r(1)]) (auto dest: unique_onD[OF u _ r(1)])
    moreover have "update_where (of_org ?k) f (update_where (of_org ?k) (take_lease now l) t) =
        update_where (of_org ?k) (\<lambda>x. f (take_lease now l x)) t" by (simp add: update_where_def)
    ultimately show ?thesis using marked that(1) tab by simp
  qed
qed

lemma claim_result:
  assumes "ClaimOrganizationStatusForSync now l s = (q, s')"
  shows "txn s' = txn s \<and> world s' = world s \<and> (\<forall>x. q = Inr x \<longrightarrow>
    claim_status now l (t_organization_statuses (committed s)) = (x, t_organization_statuses (committed s')))"
proof -
  have keep: "committed s\<lparr>t_organization_statuses := x\<rparr> = committed s' \<Longrightarrow> t_organization_statuses (committed s') = x" for x
    by (drule sym) simp
  show ?thesis using exec_Pool_result[OF assms[unfolded ClaimOrganizationStatusForSync_def]] keep by (auto split: prod.splits)
qed

text \<open>A pass of any length: the clock only goes forward, and a pass that ends without an error leaves no row that is due.
  With fuel for the claims that are possible until \<open>H\<close> it has ended, or the clock has passed \<open>H\<close>.\<close>

lemma ProcessOnce_bounded:
  assumes "txn s = None" "pass_sync env syncFn" "second_ns \<le> MaxBackoff cfg"
    "unique_on os_OrganizationID anyrow (t_organization_statuses (committed s))"
    "ProcessOnce fuel cfg env syncFn a s = (q, s')"
  shows "now_of env (world s) \<le> now_of env (world s') \<and>
    (\<forall>n. q = Some (n, None) \<longrightarrow> (\<forall>r\<in>set (t_organization_statuses (committed s')). \<not> due (now_of env (world s')) r)) \<and>
    (claims_left H (t_organization_statuses (committed s)) < fuel \<longrightarrow> H < now_of env (world s') \<or>
      (\<exists>n e. q = Some (a + int n, e) \<and> n \<le> claims_left H (t_organization_statuses (committed s))))"
  using assms
proof (induction fuel arbitrary: a s)
  case (Suc fuel)
  let ?now = "now_of env (world s)" and ?t = "t_organization_statuses (committed s)"
  obtain c s1 where claim: "ClaimOrganizationStatusForSync ?now (Lease cfg) s = (c, s1)" by fastforce
  note res = claim_result[OF claim]
  show ?case
  proof (cases "ctx_err env (world s) \<noteq> None \<or> (\<forall>p. c \<noteq> Inr (Some p))")
    case True
    then show ?thesis using Suc.prems(5) claim res
      by (fastforce simp: claim_status_def oldest_due_None split: sum.splits option.splits)
  next
    case False
    then obtain p where ctx: "ctx_err env (world s) = None" and c: "c = Inr (Some p)" by blast
    have st: "claim_status ?now (Lease cfg) ?t = (Some p, t_organization_statuses (committed s1))" using res c by blast
    then obtain r where r: "oldest_due ?now ?t = Some r" "p = take_lease ?now (Lease cfg) r"
      "t_organization_statuses (committed s1) = update_where (of_org (os_OrganizationID r)) (take_lease ?now (Lease cfg)) ?t"
      by (auto simp: claim_status_def split: option.splits)
    note due = oldest_dueD[OF r(1)]
    have pos: "?now \<le> H \<Longrightarrow> 0 < claims_left H ?t" using due claims_left_pos by blast
    obtain q2 s2 where one: "syncOne cfg env syncFn p s1 = (q2, s2)" by fastforce
    have s1: "txn s1 = None" "?now \<le> now_of env (world s1)" "world s1 = world s" using res Suc.prems(1) by simp_all
    note sp = syncOne_spends[OF s1(1) Suc.prems(2,4) due[THEN conjunct1] due[THEN conjunct2] r(3) Suc.prems(3) s1(2) one[unfolded r(2)]]
    have mono: "?now \<le> now_of env (world s2)" using sp(2) s1(3) by simp
    show ?thesis
    proof (cases q2)
      case (Inl e)
      then have "q = Some (a + 1, Some e)" "s' = s2" using Suc.prems(5) claim c ctx one by simp_all
      then show ?thesis using mono pos by (cases "?now \<le> H") (auto intro!: exI[of _ 1])
    next
      case (Inr x)
      then have rest: "ProcessOnce fuel cfg env syncFn (a + 1) s2 = (q, s')" using Suc.prems(5) claim c ctx one by simp
      note IH = Suc.IH[OF sp(1) Suc.prems(2,3) sp(3) rest]
      show ?thesis
      proof (cases "ctx_err env (world s2)")
        case (Some e)
        then have "fuel = 0 \<or> q = Some (a + 1, Some e) \<and> s' = s2" using rest by (cases fuel) simp_all
        then show ?thesis using IH Inr mono pos by (cases fuel; cases "?now \<le> H") (auto intro!: exI[of _ 1])
      next
        case None
        from IH Inr have tail: "now_of env (world s2) \<le> now_of env (world s')" by simp
        have "claims_left H ?t < Suc fuel \<Longrightarrow> ?now \<le> H \<Longrightarrow> H < now_of env (world s') \<or>
            (\<exists>n e. q = Some (a + 1 + int n, e) \<and> Suc n \<le> claims_left H ?t)"
          using IH Inr sp(4)[of H] None by (auto dest: less_le_trans)
        then have "claims_left H ?t < Suc fuel \<Longrightarrow> H < now_of env (world s') \<or>
            (\<exists>n e. q = Some (a + int n, e) \<and> n \<le> claims_left H ?t)"
          using mono tail by (metis (no_types, opaque_lifting) add.assoc le_less_linear of_nat_Suc add.commute order.trans order.strict_trans2)
        then show ?thesis using IH Inr mono tail by auto
      qed
    qed
  qed
qed simp

section \<open>Concurrent workers\<close>

text \<open>C5. No desired state is lost: in every reachable state of writers, deletions and workers interleaved in any way, with
  crashes and late bookkeeping, a row marked as synced carries a version and a state that some worker fanned out
  successfully since the row was created, and a state written during a sync stays pending; unless the row of this
  organization was deleted while a sync of it was in flight.\<close>

theorem synced_was_applied:
  assumes "wreach cfg st" "r \<in> set (ws_table st)" "os_SyncedAt r \<noteq> None" "os_OrganizationID r \<notin> ws_torn st"
  shows "(os_OrganizationID r, os_Version r, os_Disabled r) \<in> set (ws_applied st)"
proof -
  have "status_row (ws_table st) (os_OrganizationID r) = Some r"
    unfolding status_row_def using assms(2) by (intro find_unique[OF wreach_valid[OF assms(1)]]) auto
  then show ?thesis using wreach_fresh[OF assms(1)] assms(3,4) unfolding fresh_def by blast
qed

text \<open>C4. One worker per organization: when a lease outlasts a sync and its bookkeeping, as with the default
  configuration, no reachable state has two syncs of one organization in flight, even though marks do not
  check who holds the lease; unless the row of this organization was deleted while a sync of it was in flight.\<close>

theorem one_sync_per_organization:
  assumes "wreach cfg st" "0 \<le> run_budget cfg" "run_budget cfg < lease_us cfg"
  shows "distinct (map rn_org (filter (\<lambda>x. rn_org x \<notin> ws_torn st) (ws_runs st)))"
  using wreach_leased[OF assms(1,3,2)] by (simp add: leased_def)

text \<open>The system after a desired state was written and claimed.\<close>

definition ws_start :: wsys where
  "ws_start = \<lparr>ws_table = [], ws_clock = 0, ws_runs = [], ws_applied = [], ws_torn = {}\<rparr>"

definition ws_upsert :: wsys where
  "ws_upsert = ws_start\<lparr>ws_table := upsert_status ''org'' True (ws_clock ws_start) (ws_table ws_start)\<rparr>"

definition ws_claim :: "Config \<Rightarrow> wsys \<Rightarrow> wsys" where
  "ws_claim cfg st = (case claim_status (ws_clock st) (Lease cfg) (ws_table st) of
     (None, t) \<Rightarrow> st
   | (Some c, t) \<Rightarrow> st\<lparr>ws_table := t, ws_runs := \<lparr>rn_pending = c, rn_start = ws_clock st\<rparr> # ws_runs st\<rparr>)"

lemma wreach_upsert_demo: "wreach cfg ws_upsert"
  unfolding ws_upsert_def using wreach.start[of cfg 0] wstep.upsert wreach.step by (metis ws_start_def)

lemma wreach_claim: "wreach cfg st \<Longrightarrow> wreach cfg (ws_claim cfg st)"
  unfolding ws_claim_def by (auto intro: wreach.step wstep.claim split: prod.split option.split)

theorem one_sync_per_organization_witness:
  "length (filter (\<lambda>x. rn_org x \<notin> ws_torn (ws_claim default_cfg ws_upsert)) (ws_runs (ws_claim default_cfg ws_upsert))) = 1 \<and>
   distinct (map rn_org (filter (\<lambda>x. rn_org x \<notin> ws_torn (ws_claim default_cfg ws_upsert)) (ws_runs (ws_claim default_cfg ws_upsert))))"
proof -
  have "length (filter (\<lambda>x. rn_org x \<notin> ws_torn (ws_claim default_cfg ws_upsert)) (ws_runs (ws_claim default_cfg ws_upsert))) = 1" "0 \<le> run_budget default_cfg"
    "run_budget default_cfg < lease_us default_cfg" by code_simp+
  then show ?thesis using one_sync_per_organization[OF wreach_claim[OF wreach_upsert_demo]] by blast
qed

definition ws_marked :: "Config \<Rightarrow> wsys" where
  "ws_marked cfg = (let st = ws_claim cfg ws_upsert; x = hd (ws_runs st) in
     st\<lparr>ws_table := mark_synced (rn_org x) (os_Version (rn_pending x)) (ws_clock st) (ws_table st),
        ws_runs := remove1 x (ws_runs st),
        ws_applied := (rn_org x, os_Version (rn_pending x), os_Disabled (rn_pending x)) # ws_applied st\<rparr>)"

theorem synced_was_applied_witness:
  "list_ex (\<lambda>r. os_SyncedAt r \<noteq> None) (ws_table (ws_marked default_cfg)) \<and>
   (''org'', 1, True) \<in> set (ws_applied (ws_marked default_cfg))"
proof -
  have ne: "ws_runs (ws_claim default_cfg ws_upsert) \<noteq> []" by code_simp
  then have reach: "wreach default_cfg (ws_marked default_cfg)"
    unfolding ws_marked_def Let_def by (intro wreach.step[OF wreach_claim[OF wreach_upsert_demo] wstep.synced]) simp
  have s: "list_ex (\<lambda>r. os_SyncedAt r \<noteq> None) (ws_table (ws_marked default_cfg))"
    "list_all (\<lambda>r. os_OrganizationID r = ''org'' \<and> os_Version r = 1 \<and> os_Disabled r) (ws_table (ws_marked default_cfg))"
    "ws_torn (ws_marked default_cfg) = {}"
    by code_simp+
  then obtain r where r: "r \<in> set (ws_table (ws_marked default_cfg))" "os_SyncedAt r \<noteq> None" by (auto simp: list_ex_iff)
  from synced_was_applied[OF reach r] s r s(3) show ?thesis by (auto simp: list_all_iff)
qed

text \<open>A deletion of the row, as \<open>DeleteProjectsInOrg\<close> makes one, and a later write of a desired state.\<close>

definition ws_delete :: "string \<Rightarrow> wsys \<Rightarrow> wsys" where
  "ws_delete k st = st\<lparr>ws_table := delete_where (of_org k) (ws_table st),
      ws_applied := filter (\<lambda>(organization, _). organization \<noteq> k) (ws_applied st),
      ws_torn := (if k \<in> rn_org ` set (ws_runs st) then insert k (ws_torn st) else ws_torn st - {k})\<rparr>"

definition ws_write :: "string \<Rightarrow> bool \<Rightarrow> wsys \<Rightarrow> wsys" where
  "ws_write k b st = st\<lparr>ws_table := upsert_status k b (ws_clock st) (ws_table st)\<rparr>"

definition ws_sync :: "wsys \<Rightarrow> wsys" where
  "ws_sync st = (let x = last (ws_runs st) in
     st\<lparr>ws_table := mark_synced (rn_org x) (os_Version (rn_pending x)) (ws_clock st) (ws_table st),
        ws_runs := remove1 x (ws_runs st),
        ws_applied := (rn_org x, os_Version (rn_pending x), os_Disabled (rn_pending x)) # ws_applied st\<rparr>)"

definition ws_rewritten :: "Config \<Rightarrow> wsys" where
  "ws_rewritten cfg = ws_write ''org'' False (ws_delete ''org'' (ws_claim cfg ws_upsert))"

lemma wreach_rewritten: "wreach cfg (ws_rewritten cfg)"
  unfolding ws_rewritten_def ws_write_def ws_delete_def
  by (rule wreach.step[OF wreach.step[OF wreach_claim[OF wreach_upsert_demo] wstep.delete] wstep.upsert])

text \<open>C36. A deletion during a sync undoes both guarantees.  With the default configuration, once the row was deleted and
  written again while a sync was in flight, a second worker can sync the same organization at the same time; and the late
  success mark of the first sync can mark the new desired state, which nobody ever applied, as synced.\<close>

theorem deletion_tears_sync:
  "(\<exists>st x y. wreach default_cfg st \<and> ws_runs st = [x, y] \<and> rn_org x = rn_org y) \<and>
   (\<exists>st r. wreach default_cfg st \<and> ws_runs st = [] \<and> r \<in> set (ws_table st) \<and> os_SyncedAt r \<noteq> None \<and>
      (\<forall>v. (os_OrganizationID r, v, os_Disabled r) \<notin> set (ws_applied st)))"
proof
  let ?two = "ws_claim default_cfg (ws_rewritten default_cfg)"
  have "length (ws_runs ?two) = 2" "rn_org (ws_runs ?two ! 0) = rn_org (ws_runs ?two ! 1)" by code_simp+
  moreover then obtain x y where "ws_runs ?two = [x, y]" by (auto simp: length_Suc_conv numeral_2_eq_2)
  ultimately show "\<exists>st x y. wreach default_cfg st \<and> ws_runs st = [x, y] \<and> rn_org x = rn_org y"
    using wreach_claim[OF wreach_rewritten, of default_cfg] by fastforce
next
  let ?late = "ws_sync (ws_rewritten default_cfg)"
  have "ws_runs (ws_rewritten default_cfg) \<noteq> []" by code_simp
  then have "wreach default_cfg ?late"
    unfolding ws_sync_def Let_def by (intro wreach.step[OF wreach_rewritten wstep.synced]) simp
  moreover have "ws_runs ?late = []" "list_ex (\<lambda>r. os_SyncedAt r \<noteq> None \<and> os_Disabled r = False) (ws_table ?late)"
    "list_all (\<lambda>(_, _, b). b) (ws_applied ?late)" by code_simp+
  ultimately show "\<exists>st r. wreach default_cfg st \<and> ws_runs st = [] \<and> r \<in> set (ws_table st) \<and> os_SyncedAt r \<noteq> None \<and>
      (\<forall>v. (os_OrganizationID r, v, os_Disabled r) \<notin> set (ws_applied st))"
    by (fastforce simp: list_ex_iff list_all_iff)
qed

end
