(* ===== verification/Org_Sync.thy ===== *)
theory Org_Sync
  imports Org_Correct
begin

text \<open>
  \<open>services/projects/orgstatus/sync.go\<close>: bringing every branch of an organization in line with its
  status.  The cells and their gRPC clients are not code of this repository's projects service; they are
  the operations of the record \<open>fleet\<close>, which act on the world and may answer anything.  Closing a
  connection and logging are left out, and the joined causes of a partial failure are the text of the
  summary only.
\<close>

section \<open>What the cells service speaks\<close>

datatype StatusType = STATUS_TYPE_UNSPECIFIED | STATUS_TYPE_HEALTHY | STATUS_TYPE_TRANSIENT | STATUS_TYPE_FAULT
  | STATUS_TYPE_HIBERNATED

record s2z_proto =
  sz_Enabled :: bool
  sz_InactivityPeriodMinutes :: int

record cluster_view =
  cv_StatusType :: StatusType
  cv_ScaleToZero :: "s2z_proto option"

text \<open>The two fields of \<open>UpdateClusterConfiguration\<close> that the sync sets.\<close>

record UpdateClusterConfiguration =
  uc_Hibernate :: "bool option"
  uc_ScaleToZero :: "s2z_proto option"

record 'w fleet =
  ctx_done :: "'w \<Rightarrow> goerr option"
  GetCellConnection :: "string \<Rightarrow> string \<Rightarrow> 'w \<Rightarrow> (goerr + unit) \<times> 'w"
  DescribePostgresCluster :: "string \<Rightarrow> string \<Rightarrow> 'w \<Rightarrow> (goerr + cluster_view) \<times> 'w"
  UpdatePostgresCluster :: "string \<Rightarrow> string \<Rightarrow> UpdateClusterConfiguration \<Rightarrow> 'w \<Rightarrow> (goerr + unit) \<times> 'w"

section \<open>The decision for one branch\<close>

definition hadS2Z :: "cluster_view \<Rightarrow> bool" where
  "hadS2Z cluster = (case cv_ScaleToZero cluster of None \<Rightarrow> False | Some z \<Rightarrow> sz_InactivityPeriodMinutes z > 0)"

definition sync_plan :: "bool \<Rightarrow> cluster_view \<Rightarrow> UpdateClusterConfiguration option" where
  "sync_plan disabled cluster =
     (let isHibernated = (cv_StatusType cluster = STATUS_TYPE_HIBERNATED);
          hibernate = disabled;
          h = (if hibernate \<noteq> isHibernated then Some hibernate else None);
          z = (case cv_ScaleToZero cluster of
                 None \<Rightarrow> None
               | Some z \<Rightarrow> let desiredEnabled = (\<not> disabled \<and> hadS2Z cluster) in
                   if sz_Enabled z \<noteq> desiredEnabled
                   then Some \<lparr>sz_Enabled = desiredEnabled, sz_InactivityPeriodMinutes = sz_InactivityPeriodMinutes z\<rparr>
                   else None);
          shouldUpdate = (h \<noteq> None \<or> z \<noteq> None) in
      if shouldUpdate then Some \<lparr>uc_Hibernate = h, uc_ScaleToZero = z\<rparr> else None)"

section \<open>The sync\<close>

record progress =
  pg_seen :: int
  pg_updated :: int
  pg_failed :: "goerr list"
  pg_conns :: "string list"

definition abortIfDone :: "('w, 'z) fleet_scheme \<Rightarrow> string \<Rightarrow> int \<Rightarrow> int \<Rightarrow> string \<Rightarrow> ('w, unit) cmd" where
  "abortIfDone fl organizationID seen updated label =
     andthen (observe (ctx_done fl)) (\<lambda>e. case e of
       None \<Rightarrow> ret ()
     | Some cause \<Rightarrow> raise_err (Wrap (''update organization ['' @ organizationID @ ''] status aborted after '' @
         show_int seen @ '' branches ('' @ show_int updated @ '' '' @ label @ '')'') cause))"

definition give_up :: "('w, 'z) fleet_scheme \<Rightarrow> string \<Rightarrow> string \<Rightarrow> progress \<Rightarrow> goerr \<Rightarrow> ('w, progress) cmd" where
  "give_up fl organizationID label pg err =
     andthen (abortIfDone fl organizationID (pg_seen pg) (pg_updated pg) label) (\<lambda>_.
     ret (pg\<lparr>pg_failed := pg_failed pg @ [err]\<rparr>))"

text \<open>The loop body from the moment the cell is connected.\<close>

definition sync_cluster ::
  "('w, 'z) fleet_scheme \<Rightarrow> string \<Rightarrow> bool \<Rightarrow> bool \<Rightarrow> string \<Rightarrow> Branch \<Rightarrow> progress \<Rightarrow> ('w, progress) cmd" where
  "sync_cluster fl organizationID disabled dryRun label branch pg =
     with_res (call_fn (DescribePostgresCluster fl (b_CellID branch) (b_ID branch))) (\<lambda>r. case r of
       Inl err \<Rightarrow> give_up fl organizationID label pg (Wrap (''describe cluster '' @ b_ID branch) err)
     | Inr cluster \<Rightarrow> (case sync_plan disabled cluster of
         None \<Rightarrow> ret pg
       | Some configuration \<Rightarrow>
           if dryRun then ret (pg\<lparr>pg_updated := pg_updated pg + 1\<rparr>)
           else with_res (call_fn (UpdatePostgresCluster fl (b_CellID branch) (b_ID branch) configuration)) (\<lambda>r. case r of
             Inl err \<Rightarrow> give_up fl organizationID label pg (Wrap (''update cluster '' @ b_ID branch) err)
           | Inr _ \<Rightarrow> ret (pg\<lparr>pg_updated := pg_updated pg + 1\<rparr>))))"

definition connect_cell :: "('w, 'z) fleet_scheme \<Rightarrow> string \<Rightarrow> string \<Rightarrow> progress \<Rightarrow> ('w, unit) cmd" where
  "connect_cell fl organizationID cell pg =
     (if cell \<in> set (pg_conns pg) then ret () else call_fn (GetCellConnection fl organizationID cell))"

definition sync_branch ::
  "('w, 'z) fleet_scheme \<Rightarrow> string \<Rightarrow> bool \<Rightarrow> bool \<Rightarrow> string \<Rightarrow> Branch \<Rightarrow> progress \<Rightarrow> ('w, progress) cmd" where
  "sync_branch fl organizationID disabled dryRun label branch pg0 =
     andthen (abortIfDone fl organizationID (pg_seen pg0) (pg_updated pg0) label) (\<lambda>_.
     let pg = pg0\<lparr>pg_seen := pg_seen pg0 + 1\<rparr>; cell = b_CellID branch in
     with_res (connect_cell fl organizationID cell pg) (\<lambda>r. case r of
       Inl err \<Rightarrow> give_up fl organizationID label pg (Wrap (''cell '' @ cell @ '' connection for branch '' @ b_ID branch) err)
     | Inr _ \<Rightarrow> sync_cluster fl organizationID disabled dryRun label branch
         (pg\<lparr>pg_conns := List.insert cell (pg_conns pg)\<rparr>)))"

fun sync_list ::
  "('w, 'z) fleet_scheme \<Rightarrow> string \<Rightarrow> bool \<Rightarrow> bool \<Rightarrow> string \<Rightarrow> Branch list \<Rightarrow> progress \<Rightarrow> ('w, progress) cmd" where
  "sync_list fl organizationID disabled dryRun label [] pg = ret pg"
| "sync_list fl organizationID disabled dryRun label (b # branches) pg =
     andthen (sync_branch fl organizationID disabled dryRun label b pg)
       (sync_list fl organizationID disabled dryRun label branches)"

fun sync_projects ::
  "('w, 'z) fleet_scheme \<Rightarrow> string \<Rightarrow> bool \<Rightarrow> bool \<Rightarrow> string \<Rightarrow> Project list \<Rightarrow> progress \<Rightarrow> ('w, progress) cmd" where
  "sync_projects fl organizationID disabled dryRun label [] pg = ret pg"
| "sync_projects fl organizationID disabled dryRun label (p # projects) pg =
     andthen (map_err (Wrap (''list branches for project '' @ p_ID p)) (ListBranches organizationID (p_ID p))) (\<lambda>branches.
     andthen (sync_list fl organizationID disabled dryRun label branches pg)
       (sync_projects fl organizationID disabled dryRun label projects))"

definition syncBranches :: "('w, 'z) fleet_scheme \<Rightarrow> bool \<Rightarrow> string \<Rightarrow> bool \<Rightarrow> ('w, unit) cmd" where
  "syncBranches fl dryRun organizationID disabled =
     andthen (map_err (Wrap ''list projects'') (ListProjects organizationID)) (\<lambda>projects.
     let label = (if dryRun then ''planned'' else ''updated'') in
     andthen (sync_projects fl organizationID disabled dryRun label projects
         \<lparr>pg_seen = 0, pg_updated = 0, pg_failed = [], pg_conns = []\<rparr>) (\<lambda>pg.
     if pg_failed pg \<noteq> [] then
       raise_err (Errorf (''organization ['' @ organizationID @ '']: '' @ show_int (int (length (pg_failed pg))) @ '' of '' @
         show_int (pg_seen pg) @ '' branches failed ('' @ show_int (pg_updated pg) @ '' '' @ label @ '')''))
     else ret ()))"

definition Sync :: "('w, 'z) fleet_scheme \<Rightarrow> string \<Rightarrow> bool \<Rightarrow> ('w, unit) cmd" where
  "Sync fl = syncBranches fl False"

definition SyncDryRun :: "('w, 'z) fleet_scheme \<Rightarrow> string \<Rightarrow> bool \<Rightarrow> ('w, unit) cmd" where
  "SyncDryRun fl = syncBranches fl True"

section \<open>A record of the calls\<close>

text \<open>The same fleet, writing down every cluster that was described or updated and what came back.\<close>

datatype event =
    Described string string "goerr + cluster_view"
  | Updated string string UpdateClusterConfiguration "goerr + unit"

definition traced :: "('w, 'z) fleet_scheme \<Rightarrow> ('w \<times> event list) fleet" where
  "traced fl = \<lparr>
     ctx_done = (\<lambda>w. ctx_done fl (fst w)),
     GetCellConnection = (\<lambda>org cell w. case GetCellConnection fl org cell (fst w) of (r, w') \<Rightarrow> (r, w', snd w)),
     DescribePostgresCluster = (\<lambda>cell i w. case DescribePostgresCluster fl cell i (fst w) of
        (r, w') \<Rightarrow> (r, w', snd w @ [Described cell i r])),
     UpdatePostgresCluster = (\<lambda>cell i conf w. case UpdatePostgresCluster fl cell i conf (fst w) of
        (r, w') \<Rightarrow> (r, w', snd w @ [Updated cell i conf r]))\<rparr>"

text \<open>A branch is covered when its cluster was described, and updated as planned if it differed.\<close>

definition covered :: "bool \<Rightarrow> event list \<Rightarrow> string \<Rightarrow> string \<Rightarrow> bool" where
  "covered disabled tr cell i \<longleftrightarrow> (\<exists>cluster. Described cell i (Inr cluster) \<in> set tr \<and>
     (case sync_plan disabled cluster of None \<Rightarrow> True | Some conf \<Rightarrow> Updated cell i conf (Inr ()) \<in> set tr))"

definition is_update :: "event \<Rightarrow> bool" where
  "is_update e \<longleftrightarrow> (case e of Updated _ _ _ _ \<Rightarrow> True | _ \<Rightarrow> False)"

definition whole :: "('d, 'w) sess \<Rightarrow> bool" where
  "whole s \<longleftrightarrow> txn s = None \<and> (\<forall>n. RowsCut n \<notin> set (faults s))"

definition runs_on :: "(db, 'w \<times> event list) sess \<Rightarrow> (db, 'w \<times> event list) sess \<Rightarrow> bool \<Rightarrow> event list \<Rightarrow> bool" where
  "runs_on s s' dryRun tr \<longleftrightarrow> whole s' \<and> committed s' = committed s \<and> snd (world s') = snd (world s) @ tr \<and>
     (dryRun \<longrightarrow> \<not> list_ex is_update tr)"

lemma covered_mono: "covered disabled tr cell i \<Longrightarrow> set tr \<subseteq> set tr' \<Longrightarrow> covered disabled tr' cell i"
  unfolding covered_def by (auto split: option.splits)

lemma covered_append:
  "covered disabled tr cell i \<Longrightarrow> covered disabled (tr @ tr') cell i"
  "covered disabled tr' cell i \<Longrightarrow> covered disabled (tr @ tr') cell i"
  by (auto elim: covered_mono)

lemma runs_on_refl: "whole s \<Longrightarrow> runs_on s s dryRun []"
  by (simp add: runs_on_def)

lemma runs_on_trans: "runs_on s s' dryRun tr \<Longrightarrow> runs_on s' s'' dryRun tr' \<Longrightarrow> runs_on s s'' dryRun (tr @ tr')"
  by (auto simp: runs_on_def)

lemma abort_cases:
  assumes "whole s"
  obtains "abortIfDone (traced fl) org n m label s = (Inr (), s)"
  | e where "abortIfDone (traced fl) org n m label s = (Inl e, s)"
  by (cases "ctx_done fl (fst (world s))")
    (auto simp: abortIfDone_def observe_def call_fn_def andthen_def ret_def raise_err_def traced_def split: prod.splits)

lemma give_up_result:
  assumes "whole s" "give_up (traced fl) org label pg err s = (r, s')"
  shows "s' = s \<and> (\<forall>pg'. r = Inr pg' \<longrightarrow> pg_failed pg' \<noteq> [])"
  using assms(2) unfolding give_up_def
  by (cases rule: abort_cases[OF assms(1), of fl org "pg_seen pg" "pg_updated pg" label])
    (auto simp: andthen_def ret_def)

lemma traced_calls:
  assumes "whole s"
  shows "\<exists>r s'. call_fn (GetCellConnection (traced fl) org cell) s = (r, s') \<and> runs_on s s' dryRun []"
    "\<exists>r s'. call_fn (DescribePostgresCluster (traced fl) cell i) s = (r, s') \<and> runs_on s s' dryRun [Described cell i r]"
    "\<exists>r s'. call_fn (UpdatePostgresCluster (traced fl) cell i conf) s = (r, s') \<and> runs_on s s' False [Updated cell i conf r]"
  using assms by (auto simp: call_fn_def traced_def runs_on_def whole_def is_update_def split: prod.splits)

text \<open>What a part of the loop body leaves behind for one branch.\<close>

definition branch_post ::
  "bool \<Rightarrow> bool \<Rightarrow> Branch \<Rightarrow> progress \<Rightarrow> (db, 'w \<times> event list) sess \<Rightarrow> goerr + progress \<Rightarrow> (db, 'w \<times> event list) sess \<Rightarrow> event list \<Rightarrow> bool" where
  "branch_post disabled dryRun b pg s r s' tr \<longleftrightarrow> runs_on s s' dryRun tr \<and>
     (\<forall>pg'. r = Inr pg' \<longrightarrow> pg_failed pg' = [] \<longrightarrow>
        pg_failed pg = [] \<and> (\<not> dryRun \<longrightarrow> covered disabled tr (b_CellID b) (b_ID b)))"

lemma give_up_post:
  assumes "runs_on s s1 dryRun tr" "give_up (traced fl) org label pg' err s1 = (r, s')"
  shows "branch_post disabled dryRun b pg s r s' tr"
proof -
  have "whole s1" using assms(1) by (simp add: runs_on_def)
  then show ?thesis using give_up_result[OF _ assms(2)] assms(1) by (auto simp: branch_post_def)
qed

lemma sync_cluster_post:
  assumes s: "whole s" and run: "sync_cluster (traced fl) org disabled dryRun label b pg s = (r, s')"
  shows "\<exists>tr. branch_post disabled dryRun b pg s r s' tr"
proof -
  let ?ds = "\<lambda>r. Described (b_CellID b) (b_ID b) r"
  obtain r2 s2 where d: "call_fn (DescribePostgresCluster (traced fl) (b_CellID b) (b_ID b)) s = (r2, s2)"
    "runs_on s s2 dryRun [?ds r2]" using traced_calls(2)[OF s] by blast
  have s2: "whole s2" using d(2) by (simp add: runs_on_def)
  show ?thesis
  proof (cases "\<exists>cluster conf. r2 = Inr cluster \<and> sync_plan disabled cluster = Some conf \<and> \<not> dryRun")
    case False
    then have "(\<exists>e. give_up (traced fl) org label pg e s2 = (r, s')) \<or>
        s' = s2 \<and> (\<exists>cluster. r2 = Inr cluster \<and> (dryRun \<or> sync_plan disabled cluster = None)) \<and>
        (\<exists>pg'. r = Inr pg' \<and> pg_failed pg' = pg_failed pg)"
      using run d(1) by (auto simp: sync_cluster_def with_res_def ret_def split: sum.splits option.splits)
    then show ?thesis
    proof
      assume "\<exists>e. give_up (traced fl) org label pg e s2 = (r, s')"
      then show ?thesis using give_up_post[OF d(2)] by blast
    qed (use d(2) in \<open>auto simp: branch_post_def covered_def intro!: exI[of _ "[?ds r2]"]\<close>)
  next
    case True
    then obtain cluster conf where c: "r2 = Inr cluster" "sync_plan disabled cluster = Some conf" "\<not> dryRun" by blast
    obtain r3 s3 where u: "call_fn (UpdatePostgresCluster (traced fl) (b_CellID b) (b_ID b) conf) s2 = (r3, s3)"
      "runs_on s2 s3 False [Updated (b_CellID b) (b_ID b) conf r3]" using traced_calls(3)[OF s2] by blast
    let ?tr = "[?ds r2, Updated (b_CellID b) (b_ID b) conf r3]"
    have s3: "runs_on s s3 dryRun ?tr" using d(2) u(2) c(3) by (auto simp: runs_on_def)
    have "(\<exists>e. give_up (traced fl) org label pg e s3 = (r, s')) \<or>
        s' = s3 \<and> r3 = Inr () \<and> (\<exists>pg'. r = Inr pg' \<and> pg_failed pg' = pg_failed pg)"
      using run d(1) u(1) c by (auto simp: sync_cluster_def with_res_def ret_def split: sum.splits)
    then show ?thesis
    proof
      assume "\<exists>e. give_up (traced fl) org label pg e s3 = (r, s')"
      then show ?thesis using give_up_post[OF s3] by blast
    qed (use s3 c(1,2) in \<open>auto simp: branch_post_def covered_def intro!: exI[of _ ?tr]\<close>)
  qed
qed

lemma sync_branch_post:
  assumes s: "whole s" and run: "sync_branch (traced fl) org disabled dryRun label b pg s = (r, s')"
  shows "\<exists>tr. branch_post disabled dryRun b pg s r s' tr"
proof (cases rule: abort_cases[OF s, of fl org "pg_seen pg" "pg_updated pg" label])
  case (2 e)
  then show ?thesis using run runs_on_refl[OF s, of dryRun] by (auto simp: sync_branch_def andthen_def branch_post_def)
next
  case 1
  let ?pg = "pg\<lparr>pg_seen := pg_seen pg + 1\<rparr>"
  have "\<exists>r1 s1. connect_cell (traced fl) org (b_CellID b) ?pg s = (r1, s1) \<and> runs_on s s1 dryRun []"
    using traced_calls(1)[OF s, of fl org "b_CellID b" dryRun] runs_on_refl[OF s, of dryRun] by (simp add: connect_cell_def ret_def)
  then obtain r1 s1 where c: "connect_cell (traced fl) org (b_CellID b) ?pg s = (r1, s1)" "runs_on s s1 dryRun []" by blast
  have s1: "whole s1" using c(2) by (simp add: runs_on_def)
  show ?thesis
  proof (cases r1)
    case (Inl e)
    then have "\<exists>e. give_up (traced fl) org label ?pg e s1 = (r, s')"
      using run c(1) 1 by (auto simp: sync_branch_def andthen_def with_res_def Let_def)
    then show ?thesis using give_up_post[OF c(2)] by blast
  next
    case (Inr u)
    then have "sync_cluster (traced fl) org disabled dryRun label b (?pg\<lparr>pg_conns := List.insert (b_CellID b) (pg_conns ?pg)\<rparr>) s1 = (r, s')"
      using run c(1) 1 by (auto simp: sync_branch_def andthen_def with_res_def Let_def)
    from sync_cluster_post[OF s1 this] obtain tr where "runs_on s1 s' dryRun tr" "branch_post disabled dryRun b pg s1 r s' tr"
      by (auto simp: branch_post_def)
    then show ?thesis using runs_on_trans[OF c(2)] by (auto simp: branch_post_def)
  qed
qed

section \<open>Every branch is covered\<close>

lemma sync_list_post:
  assumes "whole s" "sync_list (traced fl) org disabled dryRun label bs pg s = (r, s')"
  shows "\<exists>tr. runs_on s s' dryRun tr \<and> (\<forall>pg'. r = Inr pg' \<longrightarrow> pg_failed pg' = [] \<longrightarrow> pg_failed pg = [] \<and>
    (\<not> dryRun \<longrightarrow> (\<forall>b\<in>set bs. covered disabled tr (b_CellID b) (b_ID b))))"
  using assms
proof (induction bs arbitrary: pg s)
  case Nil
  then show ?case using runs_on_refl by (fastforce simp: ret_def)
next
  case (Cons b bs)
  obtain r1 s1 where one: "sync_branch (traced fl) org disabled dryRun label b pg s = (r1, s1)" by fastforce
  obtain tr where tr: "branch_post disabled dryRun b pg s r1 s1 tr" using sync_branch_post[OF Cons.prems(1) one] by blast
  show ?case
  proof (cases r1)
    case (Inl e)
    then show ?thesis using Cons.prems(2) one tr by (auto simp: andthen_def branch_post_def)
  next
    case (Inr pg1)
    have s1: "whole s1" using tr by (simp add: branch_post_def runs_on_def)
    have "sync_list (traced fl) org disabled dryRun label bs pg1 s1 = (r, s')" using Cons.prems(2) one Inr by (simp add: andthen_def)
    from Cons.IH[OF s1 this] obtain tr' where tr': "runs_on s1 s' dryRun tr'"
      "\<forall>pg'. r = Inr pg' \<longrightarrow> pg_failed pg' = [] \<longrightarrow> pg_failed pg1 = [] \<and>
         (\<not> dryRun \<longrightarrow> (\<forall>b\<in>set bs. covered disabled tr' (b_CellID b) (b_ID b)))" by blast
    have "runs_on s s' dryRun (tr @ tr')" using runs_on_trans tr tr'(1) by (auto simp: branch_post_def)
    then show ?thesis using tr tr'(2) Inr
      by (intro exI[of _ "tr @ tr'"]) (auto simp: branch_post_def intro: covered_append)
  qed
qed

definition branches_of :: "string \<Rightarrow> db \<Rightarrow> Branch list" where
  "branches_of pid d = map (\<lambda>x. (to_Branch x)\<lparr>b_Depth := 0\<rparr>) (branches_join (\<lambda>b. br_project b = pid \<and> br_active b) d)"

lemma whole_pop: "whole s \<Longrightarrow> pop_fault s = (f, s') \<Longrightarrow> whole s' \<and> committed s' = committed s \<and> world s' = world s \<and> (\<forall>n. f \<noteq> RowsCut n)"
  by (auto simp: whole_def pop_fault_def split: list.splits)

text \<open>A list of branches that comes back is the complete one, unless the stream of rows breaks.\<close>

lemma whole_ListBranches:
  assumes "whole s" "ListBranches org pid s = (r, s')"
  shows "whole s' \<and> committed s' = committed s \<and> world s' = world s \<and> (\<forall>bs. r = Inr bs \<longrightarrow> bs = branches_of pid (committed s))"
  using assms unfolding ListBranches_def getProject_def
  by (auto simp: with_tx_def begin_tx_def andthen_def query_def exec_def run_tx_def query_rows_def reads_def one_row_def pop_fault_def whole_def branches_of_def
      split: prod.splits sum.splits fault.splits option.splits list.splits if_splits)

lemma whole_ListProjects:
  assumes "whole s" "ListProjects org s = (r, s')"
  shows "whole s' \<and> committed s' = committed s \<and> world s' = world s \<and>
    (\<forall>ps. r = Inr ps \<longrightarrow> ps = map to_Project (filter (\<lambda>r. pr_org r = org \<and> pr_active r) (t_projects (committed s))))"
  using assms unfolding ListProjects_def
  by (auto simp: query_rows_def query_def exec_def run_pool_def reads_def pop_fault_def whole_def
      split: prod.splits sum.splits fault.splits list.splits)

lemma sync_projects_post:
  assumes "whole s" "sync_projects (traced fl) org disabled dryRun label ps pg s = (r, s')"
  shows "\<exists>tr. runs_on s s' dryRun tr \<and> (\<forall>pg'. r = Inr pg' \<longrightarrow> pg_failed pg' = [] \<longrightarrow> pg_failed pg = [] \<and>
    (\<not> dryRun \<longrightarrow> (\<forall>p\<in>set ps. \<forall>b\<in>set (branches_of (p_ID p) (committed s)). covered disabled tr (b_CellID b) (b_ID b))))"
  using assms
proof (induction ps arbitrary: pg s)
  case Nil
  then show ?case using runs_on_refl by (fastforce simp: ret_def)
next
  case (Cons p ps)
  obtain r0 s0 where ls: "ListBranches org (p_ID p) s = (r0, s0)" by fastforce
  note listed = whole_ListBranches[OF Cons.prems(1) ls]
  have s0: "runs_on s s0 dryRun []" using listed by (simp add: runs_on_def)
  show ?case
  proof (cases r0)
    case (Inl e)
    then show ?thesis using Cons.prems(2) ls s0 by (auto simp: andthen_def map_err_def)
  next
    case (Inr bs)
    obtain r1 s1 where one: "sync_list (traced fl) org disabled dryRun label bs pg s0 = (r1, s1)" by fastforce
    obtain tr where tr: "runs_on s0 s1 dryRun tr" "\<forall>pg'. r1 = Inr pg' \<longrightarrow> pg_failed pg' = [] \<longrightarrow> pg_failed pg = [] \<and>
        (\<not> dryRun \<longrightarrow> (\<forall>b\<in>set bs. covered disabled tr (b_CellID b) (b_ID b)))" using sync_list_post[OF _ one] listed by blast
    have tr_s: "runs_on s s1 dryRun tr" using runs_on_trans[OF s0 tr(1)] by simp
    show ?thesis
    proof (cases r1)
      case (Inl e)
      then show ?thesis using Cons.prems(2) ls Inr one tr_s by (auto simp: andthen_def map_err_def)
    next
      case (Inr pg1)
      have s1: "whole s1" "committed s1 = committed s" using tr_s by (simp_all add: runs_on_def)
      have "sync_projects (traced fl) org disabled dryRun label ps pg1 s1 = (r, s')"
        using Cons.prems(2) ls \<open>r0 = Inr bs\<close> one Inr by (simp add: andthen_def map_err_def)
      from Cons.IH[OF s1(1) this] obtain tr' where tr': "runs_on s1 s' dryRun tr'"
        "\<forall>pg'. r = Inr pg' \<longrightarrow> pg_failed pg' = [] \<longrightarrow> pg_failed pg1 = [] \<and>
         (\<not> dryRun \<longrightarrow> (\<forall>p\<in>set ps. \<forall>b\<in>set (branches_of (p_ID p) (committed s)). covered disabled tr' (b_CellID b) (b_ID b)))"
        unfolding s1(2) by blast
      have "runs_on s s' dryRun (tr @ tr')" using runs_on_trans[OF tr_s tr'(1)] .
      then show ?thesis using tr(2) tr'(2) Inr listed \<open>r0 = Inr bs\<close> by (intro exI[of _ "tr @ tr'"]) (auto intro: covered_append)
    qed
  qed
qed

lemma whole_syncBranches:
  assumes "whole s" "syncBranches (traced fl) dryRun org disabled s = (r, s')"
  shows "\<exists>tr. runs_on s s' dryRun tr \<and> (r = Inr () \<longrightarrow> \<not> dryRun \<longrightarrow>
    (\<forall>p\<in>set (t_projects (committed s)). pr_org p = org \<longrightarrow> pr_active p \<longrightarrow>
       (\<forall>b\<in>set (branches_of (pr_id p) (committed s)). covered disabled tr (b_CellID b) (b_ID b))))"
proof -
  let ?label = "if dryRun then ''planned'' else ''updated''"
  let ?pg = "\<lparr>pg_seen = 0, pg_updated = 0, pg_failed = [], pg_conns = []\<rparr>"
  obtain r0 s0 where ls: "ListProjects org s = (r0, s0)" by fastforce
  note listed = whole_ListProjects[OF assms(1) ls]
  have s0: "runs_on s s0 dryRun []" using listed by (simp add: runs_on_def)
  show ?thesis
  proof (cases r0)
    case (Inl e)
    then show ?thesis using assms(2) ls s0 unfolding syncBranches_def by (auto simp: andthen_def map_err_def)
  next
    case (Inr ps)
    obtain r1 s1 where run: "sync_projects (traced fl) org disabled dryRun ?label ps ?pg s0 = (r1, s1)" by fastforce
    have "s' = s1" "r = Inr () \<Longrightarrow> \<exists>pg. r1 = Inr pg \<and> pg_failed pg = []"
      using assms(2) ls Inr run unfolding syncBranches_def
      by (auto simp: andthen_def map_err_def ret_def raise_err_def Let_def split: sum.splits if_splits)
    moreover obtain tr where tr: "runs_on s0 s1 dryRun tr" "\<forall>pg'. r1 = Inr pg' \<longrightarrow> pg_failed pg' = [] \<longrightarrow>
        (\<not> dryRun \<longrightarrow> (\<forall>p\<in>set ps. \<forall>b\<in>set (branches_of (p_ID p) (committed s)). covered disabled tr (b_CellID b) (b_ID b)))"
      using sync_projects_post[OF _ run] listed by auto
    moreover have "runs_on s s1 dryRun tr" using runs_on_trans[OF s0 tr(1)] by simp
    moreover have "\<exists>x\<in>set ps. p_ID x = pr_id p" if "p \<in> set (t_projects (committed s))" "pr_org p = org" "pr_active p" for p
      using that listed Inr by (auto simp: to_Project_def intro!: bexI[of _ "to_Project p"])
    ultimately show ?thesis by (intro exI[of _ tr]) metis
  qed
qed


text \<open>A fleet of one cluster per branch identifier that answers every call: the world maps identifiers to clusters.\<close>

definition apply_conf :: "UpdateClusterConfiguration \<Rightarrow> cluster_view \<Rightarrow> cluster_view" where
  "apply_conf conf c = c\<lparr>
     cv_StatusType := (case uc_Hibernate conf of None \<Rightarrow> cv_StatusType c
       | Some h \<Rightarrow> if h then STATUS_TYPE_HIBERNATED else STATUS_TYPE_HEALTHY),
     cv_ScaleToZero := (case uc_ScaleToZero conf of None \<Rightarrow> cv_ScaleToZero c | Some z \<Rightarrow> Some z)\<rparr>"

definition demo_fleet :: "(string \<Rightarrow> cluster_view) fleet" where
  "demo_fleet = \<lparr>ctx_done = (\<lambda>_. None), GetCellConnection = (\<lambda>_ _ w. (Inr (), w)),
     DescribePostgresCluster = (\<lambda>_ i w. (Inr (w i), w)),
     UpdatePostgresCluster = (\<lambda>_ i conf w. (Inr (), w(i := apply_conf conf (w i))))\<rparr>"

definition awake :: "string \<Rightarrow> cluster_view" where
  "awake _ = \<lparr>cv_StatusType = STATUS_TYPE_HEALTHY, cv_ScaleToZero = Some \<lparr>sz_Enabled = True, sz_InactivityPeriodMinutes = 30\<rparr>\<rparr>"

definition demo_fleet_sess :: "fault list \<Rightarrow> (db, (string \<Rightarrow> cluster_view) \<times> event list) sess" where
  "demo_fleet_sess fs = \<lparr>committed = committed demo_branch, txn = None, faults = fs, clock = 0, locked = [], world = (awake, [])\<rparr>"

definition synced_demo :: "fault list \<Rightarrow> (goerr + unit) \<times> (db, (string \<Rightarrow> cluster_view) \<times> event list) sess" where
  "synced_demo fs = Sync (traced demo_fleet) ''org'' True (demo_fleet_sess fs)"


text \<open>A dry run sends no update, whatever the clusters answer, and neither it nor a sync writes to the database.\<close>

lemma SyncDryRun_sends_nothing:
  assumes "whole s" "SyncDryRun (traced fl) org disabled s = (r, s')"
  shows "\<exists>tr. snd (world s') = snd (world s) @ tr \<and> \<not> list_ex is_update tr \<and> committed s' = committed s"
  using whole_syncBranches[OF assms(1) assms(2)[unfolded SyncDryRun_def]] by (auto simp: runs_on_def)

text \<open>The update a sync plans removes exactly the difference: a cluster needs none precisely when it is hibernated
  as desired and scale to zero is on for an enabled organization's branches that have an inactivity period and off for
  all others; a planned update keeps the inactivity period, and a cluster that took it needs no further one.\<close>

lemma sync_plan_settles:
  "(sync_plan disabled c = None \<longleftrightarrow> (cv_StatusType c = STATUS_TYPE_HIBERNATED \<longleftrightarrow> disabled) \<and>
     (\<forall>z. cv_ScaleToZero c = Some z \<longrightarrow> (sz_Enabled z \<longleftrightarrow> \<not> disabled \<and> 0 < sz_InactivityPeriodMinutes z)))
   \<and> (\<forall>conf. sync_plan disabled c = Some conf \<longrightarrow> sync_plan disabled (apply_conf conf c) = None \<and>
     map_option sz_InactivityPeriodMinutes (cv_ScaleToZero (apply_conf conf c)) = map_option sz_InactivityPeriodMinutes (cv_ScaleToZero c))"
  by (cases "cv_ScaleToZero c"; cases "cv_StatusType c")
    (auto simp: sync_plan_def hadS2Z_def apply_conf_def Let_def split: if_splits)

text \<open>The list of branches a sync walks may be cut short without an error, and then the sync reports success
  although it never described a branch of the organization: the stream of rows of \<open>ListBranches\<close> breaks after no row.\<close>

lemma Sync_misses_branches:
  "fst (synced_demo [NoFault, NoFault, NoFault, RowsCut 0]) = Inr () \<and>
   \<not> covered True (snd (world (snd (synced_demo [NoFault, NoFault, NoFault, RowsCut 0])))) ''cell'' ''br_1'' \<and>
   (\<exists>b\<in>set (t_branches (committed (demo_fleet_sess []))). br_id b = ''br_1'' \<and> br_active b)"
proof -
  have "fst (synced_demo [NoFault, NoFault, NoFault, RowsCut 0]) = Inr ()"
    "snd (world (snd (synced_demo [NoFault, NoFault, NoFault, RowsCut 0]))) = []"
    "list_ex (\<lambda>b. br_id b = ''br_1'' \<and> br_active b) (t_branches (committed (demo_fleet_sess [])))" by code_simp+
  then show ?thesis by (simp add: covered_def list_ex_iff)
qed

section \<open>A pass with this sync ends\<close>

text \<open>Calls to the cells take time: the clock the worker reads does not go back over them.\<close>

definition fleet_forward :: "('w \<Rightarrow> int) \<Rightarrow> ('w, 'z) fleet_scheme \<Rightarrow> bool" where
  "fleet_forward t fl \<longleftrightarrow> (\<forall>org cell w r w'. GetCellConnection fl org cell w = (r, w') \<longrightarrow> t w \<le> t w') \<and>
     (\<forall>cell i w r w'. DescribePostgresCluster fl cell i w = (r, w') \<longrightarrow> t w \<le> t w') \<and>
     (\<forall>cell i conf w r w'. UpdatePostgresCluster fl cell i conf w = (r, w') \<longrightarrow> t w \<le> t w')"

lemma forward_fleet:
  assumes "fleet_forward t fl"
  shows "forward t (call_fn (GetCellConnection fl org cell))" "forward t (call_fn (DescribePostgresCluster fl cell i))"
    "forward t (call_fn (UpdatePostgresCluster fl cell i conf))"
  using assms unfolding fleet_forward_def by (auto intro!: forward_call_fn)

lemma forward_lists [forward_intros]: "forward t (ListProjects org)" "forward t (ListBranches org pid)"
  unfolding ListProjects_def ListBranches_def getProject_def forward_def
  by (auto simp: with_tx_def begin_tx_def andthen_def query_def exec_def run_tx_def run_pool_def query_rows_def reads_def one_row_def pop_fault_def
      split: prod.splits sum.splits fault.splits option.splits list.splits if_splits)

lemma quiet_observe: "quiet (observe f)"
  unfolding observe_def by (rule quiet_simple)

lemma pass_sync_list:
  assumes "fleet_forward t fl"
  shows "forward t (sync_list fl org disabled dryRun label bs pg) \<and> quiet (sync_list fl org disabled dryRun label bs pg)"
proof (induction bs arbitrary: pg)
  case (Cons b bs)
  then show ?case
    unfolding sync_list.simps sync_branch_def abortIfDone_def connect_cell_def sync_cluster_def give_up_def Let_def
    by (auto intro!: forward_intros forward_fleet[OF assms] quiet_intros quiet_observe)
qed (auto intro: forward_intros quiet_intros)

lemma pass_sync_projects:
  assumes "fleet_forward t fl"
  shows "forward t (sync_projects fl org disabled dryRun label ps pg) \<and> quiet (sync_projects fl org disabled dryRun label ps pg)"
  by (induction ps arbitrary: pg) (auto intro!: forward_intros quiet_intros pass_sync_list[OF assms, THEN conjunct1]
      pass_sync_list[OF assms, THEN conjunct2])

lemma pass_sync_Sync: "fleet_forward (now_of env) fl \<Longrightarrow> pass_sync env (Sync fl)"
  unfolding pass_sync_def Sync_def syncBranches_def Let_def
  by (auto intro!: forward_intros quiet_intros pass_sync_projects[THEN conjunct1] pass_sync_projects[THEN conjunct2])

text \<open>C7. A pass does not spin: whatever the cells answer and whatever requests and replies the database loses, between
  its start and any time \<open>H\<close> the loop of \<open>ProcessOnce\<close> makes at most the claims that rows put off by a second per failure
  allow; given fuel for these it has returned by \<open>H\<close>, and if it returns without an error, no row is due at that moment.
  This is for a worker that is alone with the table, whose clock does not go back, with a maximal backoff of a second or more.\<close>

theorem ProcessOnce_terminates:
  assumes "txn s = None" "store_inv md (committed s)" "fleet_forward (now_of env) fl" "second_ns \<le> MaxBackoff cfg"
    "claims_left H (t_organization_statuses (committed s)) < fuel" "ProcessOnce fuel cfg env (Sync fl) 0 s = (q, s')"
  shows "H < now_of env (world s') \<or> (\<exists>n e. q = Some (int n, e) \<and> n \<le> claims_left H (t_organization_statuses (committed s)) \<and>
    (e = None \<longrightarrow> (\<forall>r\<in>set (t_organization_statuses (committed s')). \<not> due (now_of env (world s')) r)))"
  using ProcessOnce_bounded[OF assms(1) pass_sync_Sync[OF assms(3)] assms(4) statuses_keys[OF assms(2)] assms(6), of H] assms(5)
  by auto

text \<open>A fleet whose every call takes a second and whose clusters do not answer the description.\<close>

definition slow_fleet :: "int fleet" where
  "slow_fleet = \<lparr>ctx_done = (\<lambda>_. None), GetCellConnection = (\<lambda>_ _ w. (Inr (), w + 1000000)),
     DescribePostgresCluster = (\<lambda>_ i w. (Inl (ErrCallback ''unreachable''), w + 1000000)),
     UpdatePostgresCluster = (\<lambda>_ i conf w. (Inr (), w + 1000000))\<rparr>"

definition slow_env :: "int worker_env" where
  "slow_env = \<lparr>now_of = (\<lambda>w. w), ctx_err = (\<lambda>_. None), error_text = (\<lambda>_. ''failed'')\<rparr>"

definition slow_sess :: "(db, int) sess" where
  "slow_sess = \<lparr>committed = (committed demo_branch)\<lparr>t_organization_statuses := upsert_status ''org'' True 0 []\<rparr>, txn = None,
     faults = [NoFault, NoFault, ReqLost], clock = 0, locked = [], world = 0\<rparr>"

definition slow_pass :: "(int \<times> goerr option) option \<times> (db, int) sess" where
  "slow_pass = ProcessOnce 7 default_cfg slow_env (Sync slow_fleet) 0 slow_sess"

theorem ProcessOnce_terminates_witness:
  "\<exists>n e. fst slow_pass = Some (int n, e) \<and> n \<le> 6 \<and>
     (e = None \<longrightarrow> (\<forall>r\<in>set (t_organization_statuses (committed (snd slow_pass))). \<not> due (now_of slow_env (world (snd slow_pass))) r))"
proof -
  have inv: "store_inv 3 (committed slow_sess)"
    using set_statuses_inv[OF demo_branch_inv(2), of "upsert_status ''org'' True 0 []"] upsert_status_keys[of "[]" "''org''" True 0]
    by (simp add: slow_sess_def unique_on_def)
  have run: "ProcessOnce 7 default_cfg slow_env (Sync slow_fleet) 0 slow_sess = (fst slow_pass, snd slow_pass)"
    by (simp add: slow_pass_def)
  have fwd: "fleet_forward (now_of slow_env) slow_fleet" by (auto simp: fleet_forward_def slow_fleet_def slow_env_def)
  have "txn slow_sess = None" "second_ns \<le> MaxBackoff default_cfg"
    "claims_left 5000000 (t_organization_statuses (committed slow_sess)) = 6" by code_simp+
  moreover have "now_of slow_env (world (snd slow_pass)) \<le> 5000000" by code_simp
  ultimately show ?thesis using ProcessOnce_terminates[OF _ inv fwd _ _ run, of 5000000] by auto
qed

section \<open>A lease as long as the sync is not enough\<close>

text \<open>
  The configuration raises the lease to the timeout of a sync.  The bookkeeping of a sync still runs after that
  timeout, and it releases whatever lease the row has.
\<close>

definition tight_cfg :: Config where
  "tight_cfg = withDefaults \<lparr>PollInterval = 0, SyncTimeout = 10 * minute_ns, Lease = minute_ns, MaxBackoff = 0\<rparr>"

definition ws_at :: "int \<Rightarrow> wsys \<Rightarrow> wsys" where
  "ws_at u st = st\<lparr>ws_clock := u\<rparr>"

definition ws_fail :: "wsys \<Rightarrow> wsys" where
  "ws_fail st = (let x = last (ws_runs st) in
     st\<lparr>ws_table := mark_failed (rn_org x) (os_Version (rn_pending x)) ''interrupted'' (ws_clock st) (ws_table st),
        ws_runs := remove1 x (ws_runs st)\<rparr>)"

text \<open>A claims at 0; its sync ends at 600 s, when B claims; A's mark at 603 s frees the row, and C claims.\<close>

definition ws_overlap :: wsys where
  "ws_overlap = (let second = ws_claim tight_cfg (ws_at 600000000 (ws_claim tight_cfg ws_upsert)) in
     ws_claim tight_cfg (ws_fail (ws_at 603000000 second)))"

lemma wreach_at:
  assumes "wreach cfg st" "ws_clock st \<le> u" "list_all (\<lambda>x. u \<le> rn_start x + run_budget cfg) (ws_runs st)"
  shows "wreach cfg (ws_at u st)"
  unfolding ws_at_def using assms by (intro wreach.step[OF assms(1)] wstep.tick) (auto simp: list_all_iff)

lemma wreach_fail: "wreach cfg st \<Longrightarrow> ws_runs st \<noteq> [] \<Longrightarrow> wreach cfg (ws_fail st)"
  unfolding ws_fail_def Let_def by (erule wreach.step, rule wstep.failed) simp

lemma ws_overlap_reach: "wreach tight_cfg ws_overlap"
proof -
  let ?a = "ws_claim tight_cfg ws_upsert" let ?b = "ws_claim tight_cfg (ws_at 600000000 ?a)"
  have "ws_clock ?a \<le> 600000000" "list_all (\<lambda>x. 600000000 \<le> rn_start x + run_budget tight_cfg) (ws_runs ?a)"
    "ws_clock ?b \<le> 603000000" "list_all (\<lambda>x. 603000000 \<le> rn_start x + run_budget tight_cfg) (ws_runs ?b)"
    "ws_runs (ws_at 603000000 ?b) \<noteq> []" by code_simp+
  then show ?thesis unfolding ws_overlap_def Let_def
    by (intro wreach_claim wreach_fail wreach_at wreach_upsert_demo)
qed

text \<open>C37. With a lease of exactly the sync timeout, which is what the configuration guarantees, two workers can
  sync one organization at the same time, both well within their own sync timeout.\<close>

theorem lease_stolen_by_late_mark:
  "\<exists>st x y. wreach tight_cfg st \<and> SyncTimeout tight_cfg \<le> Lease tight_cfg \<and> ws_runs st = [x, y] \<and> rn_org x = rn_org y \<and>
     ws_clock st * 1000 < rn_start x * 1000 + SyncTimeout tight_cfg \<and> ws_clock st * 1000 < rn_start y * 1000 + SyncTimeout tight_cfg"
proof -
  have "SyncTimeout tight_cfg \<le> Lease tight_cfg" "length (ws_runs ws_overlap) = 2"
    "rn_org (ws_runs ws_overlap ! 0) = rn_org (ws_runs ws_overlap ! 1)"
    "ws_clock ws_overlap * 1000 < rn_start (ws_runs ws_overlap ! 0) * 1000 + SyncTimeout tight_cfg"
    "ws_clock ws_overlap * 1000 < rn_start (ws_runs ws_overlap ! 1) * 1000 + SyncTimeout tight_cfg" by code_simp+
  moreover then obtain x y where "ws_runs ws_overlap = [x, y]" by (auto simp: length_Suc_conv numeral_2_eq_2)
  ultimately show ?thesis using ws_overlap_reach by fastforce
qed

end
