(* ===== verification/Cell_Scheduler.thy ===== *)
theory Cell_Scheduler
  imports Store_Types "HOL-Library.Word"
begin

text \<open>
  Where a new branch is placed: \<open>services/projects/scheduler\<close>.  A strategy gives every cell a weight, a
  Go \<open>uint\<close> of 64 bits, and \<open>pick\<close> draws one cell in proportion.  The random number is an argument
  \<open>draw\<close>; of \<open>rand.UintN\<close> the code relies on \<open>draw n < n\<close>.  A pointer into the slice of cells is
  an index.  The YAML library behind \<open>UnmarshalYAML\<close> is the two decoders it is called for.
\<close>

section \<open>Drawing a cell\<close>

type_synonym weights = "Cell \<Rightarrow> 64 word"

fun total_weight :: "weights \<Rightarrow> 64 word \<Rightarrow> Cell list \<Rightarrow> 64 word" where
  "total_weight weightOf acc [] = acc"
| "total_weight weightOf acc (c # cells) = total_weight weightOf (acc + weightOf c) cells"

fun walk :: "weights \<Rightarrow> 64 word \<Rightarrow> nat \<Rightarrow> Cell list \<Rightarrow> nat option" where
  "walk weightOf r i [] = None"
| "walk weightOf r i (c # cells) =
     (let w = weightOf c in if r < w then Some i else walk weightOf (r - w) (i + 1) cells)"

definition no_cells :: goerr where "no_cells = Errorf ''no cells available for scheduling''"

definition pick :: "(64 word \<Rightarrow> 64 word) \<Rightarrow> Cell list \<Rightarrow> weights \<Rightarrow> goerr + nat" where
  "pick draw cells weightOf =
     (let sum = total_weight weightOf 0 cells in
      if sum = 0 then Inl no_cells
      else (case walk weightOf (draw sum) 0 cells of Some i \<Rightarrow> Inr i | None \<Rightarrow> Inl no_cells))"

section \<open>Strategies\<close>

text \<open>The three constructors of the registry, with the fields of their structs.\<close>

datatype strategy = Random | Pinned string | Weighted "string \<rightharpoonup> 64 word"

text \<open>A missing key of a Go map reads as zero.\<close>

fun weight_of :: "strategy \<Rightarrow> weights" where
  "weight_of Random = (\<lambda>_. 1)"
| "weight_of (Pinned cell) = (\<lambda>c. if cl_ID c = cell then 1 else 0)"
| "weight_of (Weighted ws) = (\<lambda>c. case ws (cl_ID c) of Some w \<Rightarrow> w | None \<Rightarrow> 0)"

definition Schedule :: "(64 word \<Rightarrow> 64 word) \<Rightarrow> strategy \<Rightarrow> Cell list \<Rightarrow> goerr + nat" where
  "Schedule draw s cells = pick draw cells (weight_of s)"

text \<open>The keys of the map are given beside it, so that the loop over them is a list.\<close>

fun Validate :: "string list \<Rightarrow> strategy \<Rightarrow> (goerr, unit) sum" where
  "Validate keys Random = Inr ()"
| "Validate keys (Pinned cell) = (if cell = '''' then Inl (Errorf ''cell is required'') else Inr ())"
| "Validate keys (Weighted ws) =
     (if list_ex (\<lambda>k. case ws k of Some w \<Rightarrow> w > 0 | None \<Rightarrow> False) keys then Inr ()
      else Inl (Errorf ''at least one cell must have a positive weight''))"

section \<open>Configuration\<close>

datatype 'v node = MappingNode "(string \<times> 'v) list" | OtherNode nat

definition withoutType :: "(string \<times> 'v) list \<Rightarrow> (string \<times> 'v) list" where
  "withoutType values = filter (\<lambda>(key, _). key \<noteq> ''type'') values"

definition registry :: "string \<rightharpoonup> strategy" where
  "registry = [''Random'' \<mapsto> Random, ''Pinned'' \<mapsto> Pinned '''', ''Weighted'' \<mapsto> Weighted Map.empty]"

definition invalid_strategy :: "string \<Rightarrow> goerr \<Rightarrow> goerr" where
  "invalid_strategy strategyType e = Wrap (''invalid strategy - '' @ strategyType) e"

definition UnmarshalYAML ::
  "((string \<times> 'v) list \<Rightarrow> goerr + string) \<Rightarrow> ((string \<times> 'v) list \<Rightarrow> strategy \<Rightarrow> goerr + strategy \<times> string list) \<Rightarrow>
   'v node \<Rightarrow> goerr + strategy" where
  "UnmarshalYAML decodeType decodeStrict node = (case node of
     OtherNode line \<Rightarrow> Inl (Errorf (''line '' @ show_int (int line) @ '': strategy must be a mapping''))
   | MappingNode mapping \<Rightarrow> (case decodeType mapping of
       Inl e \<Rightarrow> Inl e
     | Inr strategyType \<Rightarrow> (case registry strategyType of
         None \<Rightarrow> Inl (invalid_strategy strategyType (Errorf ''''))
       | Some s \<Rightarrow> (case decodeStrict (withoutType mapping) s of
           Inl e \<Rightarrow> Inl (invalid_strategy strategyType e)
         | Inr (s', keys) \<Rightarrow> (case Validate keys s' of
             Inl e \<Rightarrow> Inl (invalid_strategy strategyType e)
           | Inr _ \<Rightarrow> Inr s')))))"

text \<open>The decoded file: a strategy is missing where the file names none.\<close>

record scheduler_config =
  cfg_Default :: "strategy option"
  cfg_Regions :: "string \<rightharpoonup> strategy option"

record Scheduler =
  DefaultStrategy :: strategy
  regionStrategies :: "string \<rightharpoonup> strategy option"

definition NewScheduler :: "goerr + scheduler_config \<Rightarrow> goerr + Scheduler" where
  "NewScheduler decoded = (case decoded of
     Inl e \<Rightarrow> Inl (Wrap ''invalid scheduler config file'' e)
   | Inr cfg \<Rightarrow> Inr \<lparr>DefaultStrategy = (case cfg_Default cfg of None \<Rightarrow> Random | Some s \<Rightarrow> s),
       regionStrategies = cfg_Regions cfg\<rparr>)"

definition StrategyForRegion :: "Scheduler \<Rightarrow> string \<Rightarrow> strategy option" where
  "StrategyForRegion s regionID = (case regionStrategies s regionID of
     Some st \<Rightarrow> st | None \<Rightarrow> Some (DefaultStrategy s))"

section \<open>Proportional draws\<close>

text \<open>The true sum of the weights, which the 64-bit total follows modulo \<open>2^64\<close>.\<close>

definition weight_sum :: "weights \<Rightarrow> Cell list \<Rightarrow> nat" where
  "weight_sum weightOf cells = (\<Sum>c\<leftarrow>cells. unat (weightOf c))"

lemma weight_sum_simps [simp]:
  "weight_sum w [] = 0" "weight_sum w (c # cells) = unat (w c) + weight_sum w cells"
  by (simp_all add: weight_sum_def)

lemma unat_total_weight: "unat (total_weight w t cells) = (unat t + weight_sum w cells) mod 2 ^ 64"
proof (induction cells arbitrary: t)
  case Nil
  have "unat t < 2 ^ LENGTH(64)" by (rule unsigned_less)
  then show ?case by simp
next
  case (Cons c cells)
  then show ?case by (simp add: unat_word_ariths(1) mod_simps add.assoc)
qed

text \<open>The walk finds the cell whose interval of the running sum holds \<open>r\<close>.\<close>

lemma walk_interval:
  "walk w r i cells = Some j \<longleftrightarrow> (i \<le> j \<and> j - i < length cells \<and>
     weight_sum w (take (j - i) cells) \<le> unat r \<and> unat r < weight_sum w (take (j - i) cells) + unat (w (cells ! (j - i))))"
proof (induction cells arbitrary: r i)
  case (Cons c cells)
  show ?case
  proof (cases "r < w c")
    case True
    then have less: "unat r < unat (w c)" by (simp add: word_less_nat_alt)
    show ?thesis
    proof (cases "j = i")
      case False
      then have "i \<le> j \<Longrightarrow> weight_sum w (take (j - i) (c # cells)) \<ge> unat (w c)" by (cases "j - i") auto
      then show ?thesis using True False less by (auto simp: Let_def)
    qed (use True less in \<open>simp add: Let_def\<close>)
  next
    case False
    then have ge: "unat (w c) \<le> unat r" by (simp add: word_less_nat_alt)
    then have sub: "unat (r - w c) = unat r - unat (w c)" by (simp add: unat_sub word_le_nat_alt)
    show ?thesis
    proof (cases "j - i")
      case 0
      then show ?thesis using False ge by (auto simp: Let_def Cons.IH)
    next
      case (Suc n)
      then have "j - (i + 1) = n" "i + 1 \<le> j" "i \<le> j" by auto
      then show ?thesis using False ge Suc sub by (auto simp: Let_def Cons.IH) linarith+
    qed
  qed
qed simp

lemma weight_sum_take_nth:
  "j < length cells \<Longrightarrow> weight_sum w (take j cells) + unat (w (cells ! j)) \<le> weight_sum w cells"
  by (induction cells arbitrary: j) (auto simp: nth_Cons take_Cons split: nat.split)

lemma walk_total:
  assumes "unat r < weight_sum w cells"
  shows "\<exists>j. walk w r i cells = Some j"
  using assms
proof (induction cells arbitrary: r i)
  case (Cons c cells)
  then show ?case
  proof (cases "r < w c")
    case False
    then have "unat (r - w c) = unat r - unat (w c)" "unat (w c) \<le> unat r"
      by (simp_all add: unat_sub word_le_nat_alt word_less_nat_alt)
    then show ?thesis using Cons False by (simp add: Let_def)
  qed (simp add: Let_def)
qed simp

text \<open>Words in a range of their values.\<close>

lemma words_in_range:
  assumes "hi < 2 ^ 64"
  shows "{r :: 64 word. unat r \<in> {lo ..< hi}} = word_of_nat ` {lo ..< hi}"
proof (intro set_eqI iffI)
  fix r :: "64 word"
  assume "r \<in> {r. unat r \<in> {lo ..< hi}}"
  then show "r \<in> word_of_nat ` {lo ..< hi}" by (intro image_eqI[where x = "unat r"]) auto
next
  fix r :: "64 word"
  assume "r \<in> word_of_nat ` {lo ..< hi}"
  then obtain n where "r = word_of_nat n" "lo \<le> n" "n < hi" by auto
  then show "r \<in> {r. unat r \<in> {lo ..< hi}}" using assms by (simp add: unat_of_nat)
qed

lemma card_words_in_range:
  assumes "hi < 2 ^ 64"
  shows "card ((word_of_nat :: nat \<Rightarrow> 64 word) ` {lo ..< hi}) = hi - lo"
proof -
  have "inj_on (word_of_nat :: nat \<Rightarrow> 64 word) {lo ..< hi}"
  proof (rule inj_onI)
    fix x y
    assume "x \<in> {lo ..< hi}" "y \<in> {lo ..< hi}" and eq: "(word_of_nat x :: 64 word) = word_of_nat y"
    then have "x < 2 ^ 64" "y < 2 ^ 64" using assms by auto
    moreover have "unat (word_of_nat x :: 64 word) = unat (word_of_nat y :: 64 word)" using eq by simp
    ultimately show "x = y" by (simp add: unat_of_nat)
  qed
  then show ?thesis by (simp add: card_image)
qed

section \<open>What a strategy promises\<close>

text \<open>
  The contract of the interface \<open>strategy.Interface\<close>, as the three strategies keep it: they draw with
  \<open>pick\<close> under their own weights.
\<close>

locale scheduling =
  fixes weigh :: weights and schedule :: "(64 word \<Rightarrow> 64 word) \<Rightarrow> Cell list \<Rightarrow> goerr + nat"
  assumes draws: "schedule draw cells = pick draw cells weigh"
begin

lemma chosen:
  assumes "\<And>n. n \<noteq> 0 \<Longrightarrow> draw n < n" "schedule draw cells = Inr i"
  shows "i < length cells \<and> weigh (cells ! i) \<noteq> 0"
  using assms walk_interval[of weigh "draw (total_weight weigh 0 cells)" 0 cells i]
  by (auto simp: draws pick_def Let_def split: if_splits option.splits)

lemma never_stuck:
  assumes "\<And>n. n \<noteq> 0 \<Longrightarrow> draw n < n" "total_weight weigh 0 cells \<noteq> 0"
  shows "\<exists>i. schedule draw cells = Inr i"
proof -
  let ?n = "total_weight weigh 0 cells"
  have "unat (draw ?n) < unat ?n" using assms by (simp add: word_less_nat_alt)
  also have "unat ?n \<le> weight_sum weigh cells" by (simp add: unat_total_weight)
  finally obtain j where "walk weigh (draw ?n) 0 cells = Some j" using walk_total by blast
  then show ?thesis using assms(2) by (simp add: draws pick_def)
qed

lemma draws_for:
  assumes "weight_sum weigh cells < 2 ^ 64" "i < length cells"
  shows "card {r. r < total_weight weigh 0 cells \<and> schedule (\<lambda>_. r) cells = Inr i} = unat (weigh (cells ! i))"
proof -
  let ?n = "total_weight weigh 0 cells" and ?lo = "weight_sum weigh (take i cells)"
  let ?hi = "?lo + unat (weigh (cells ! i))"
  have n: "unat ?n = weight_sum weigh cells" using assms(1) by (simp add: unat_total_weight)
  have hi: "?hi \<le> unat ?n" using weight_sum_take_nth[OF assms(2)] n by simp
  have small: "?hi < 2 ^ 64" using hi n assms(1) by linarith
  have walk: "walk weigh r 0 cells = Some i \<longleftrightarrow> ?lo \<le> unat r \<and> unat r < ?hi" for r
    using assms(2) walk_interval[of weigh r 0 cells i] by simp
  have "r < ?n \<and> schedule (\<lambda>_. r) cells = Inr i \<longleftrightarrow> ?lo \<le> unat r \<and> unat r < ?hi" for r
  proof -
    have "?lo \<le> unat r \<and> unat r < ?hi \<longrightarrow> r < ?n \<and> ?n \<noteq> 0"
      using hi by (auto simp: word_less_nat_alt)
    then show ?thesis unfolding walk[symmetric] by (auto simp: draws pick_def Let_def split: if_splits option.splits)
  qed
  then have "{r. r < ?n \<and> schedule (\<lambda>_. r) cells = Inr i} = {r. unat r \<in> {?lo ..< ?hi}}" by auto
  also have "\<dots> = word_of_nat ` {?lo ..< ?hi}" by (rule words_in_range[OF small])
  also have "card \<dots> = ?hi - ?lo" by (rule card_words_in_range[OF small])
  finally show ?thesis by simp
qed

end

interpretation strategies: scheduling "weight_of s" "\<lambda>draw. Schedule draw s" for s
  by unfold_locales (simp add: Schedule_def)

text \<open>C16. Scheduling is proportional: as long as the weights of the cells add up to less than \<open>2^64\<close>, the
  number of draws that select a cell is that cell's weight, out of as many draws as the weights add up to.\<close>

theorem Schedule_proportional:
  assumes "weight_sum (weight_of s) cells < 2 ^ 64" "i < length cells"
  shows "card {r. r < total_weight (weight_of s) 0 cells \<and> Schedule (\<lambda>_. r) s cells = Inr i} = unat (weight_of s (cells ! i))
    \<and> unat (total_weight (weight_of s) 0 cells) = weight_sum (weight_of s) cells"
  using strategies.draws_for[OF assms] assms(1) by (simp add: unat_total_weight)

definition cell_named :: "string \<Rightarrow> Cell" where
  "cell_named n = \<lparr>cl_ID = n, cl_RegionID = ''eu'', cl_CreatedAt = 0, cl_ClustersGRPCURL = '''', cl_Subdomain = None\<rparr>"

theorem Schedule_proportional_witness:
  "card {r. r < (4 :: 64 word) \<and> Schedule (\<lambda>_. r) (Weighted [''a'' \<mapsto> 3, ''b'' \<mapsto> 1]) [cell_named ''a'', cell_named ''b''] = Inr 0} = 3"
proof -
  have "total_weight (weight_of (Weighted [''a'' \<mapsto> 3, ''b'' \<mapsto> 1])) 0 [cell_named ''a'', cell_named ''b''] = 4"
    by (simp add: cell_named_def)
  then show ?thesis
    using Schedule_proportional[of "Weighted [''a'' \<mapsto> 3, ''b'' \<mapsto> 1]" "[cell_named ''a'', cell_named ''b'']" 0]
    by (simp add: cell_named_def)
qed

text \<open>A strategy only selects a cell of the list that it gives a positive weight: the pinned cell, or a cell
  on the allow-list; and whenever the 64-bit total is not zero it does select one, so the error after the loop of
  \<open>pick\<close> is never returned, not even when the total wrapped around.\<close>

lemma Schedule_allowed:
  assumes "\<And>n. n \<noteq> 0 \<Longrightarrow> draw n < n"
  shows "(\<forall>i. Schedule draw s cells = Inr i \<longrightarrow> i < length cells \<and>
      (case s of Random \<Rightarrow> True | Pinned cell \<Rightarrow> cl_ID (cells ! i) = cell
       | Weighted ws \<Rightarrow> \<exists>w. ws (cl_ID (cells ! i)) = Some w \<and> 0 < w))
    \<and> (total_weight (weight_of s) 0 cells \<noteq> 0 \<longrightarrow> (\<exists>i. Schedule draw s cells = Inr i))"
  using strategies.chosen[of draw s cells] strategies.never_stuck[of draw s cells] assms
  by (cases s) (auto split: if_splits option.splits simp: word_neq_0_conv)

text \<open>The total is a 64-bit sum: two cells whose weights the validation accepts, each \<open>2^63\<close>, add up to
  zero, and every draw is refused as if there were no cell.\<close>

lemma Schedule_overflow:
  "Validate [''a'', ''b''] (Weighted [''a'' \<mapsto> 2 ^ 63, ''b'' \<mapsto> 2 ^ 63]) = Inr () \<and>
   Schedule draw (Weighted [''a'' \<mapsto> 2 ^ 63, ''b'' \<mapsto> 2 ^ 63]) [cell_named ''a'', cell_named ''b''] = Inl no_cells"
  by (simp add: Schedule_def pick_def cell_named_def word_gt_0)

end
