(* ===== verification/Coalescer.thy ===== *)
theory Coalescer
  imports Xata_Prelude
begin

text \<open>
  \<open>internal/coalesce\<close>: concurrent calls for one key share one run of a function.  A flight is an entry
  of a pool, its index standing for the pointer; \<open>flights\<close> is the map the mutex guards.  Every section
  of code between a lock and its unlock, and every channel or context operation, is one function on the
  state; \<open>cstep\<close> interleaves them for any number of callers.  The function that is run is a relation
  \<open>fn\<close> between a key and the pair of value and error it may return, and it may take any time.  The
  context of a caller may end at any moment.  Spans and links are not modelled.
\<close>

section \<open>State\<close>

text \<open>How far the goroutine of a flight has come: \<open>fn\<close> runs; it has returned; the flight has left the map; its context is cancelled; \<open>done\<close> is closed.\<close>

datatype stage = Running | Fetched | Unregistered | Cancelled | Closed

record ('k, 'v) flight =
  fl_key :: 'k
  fl_cancelled :: bool
  fl_val :: "'v option"
  numWaiters :: int
  fl_stage :: stage

datatype ('k, 'v) phase = Idle | Waiting 'k nat | Got 'k 'v | Left 'k

record ('k, 'v) coalescer =
  flights :: "'k \<rightharpoonup> nat"
  pool :: "('k, 'v) flight list"
  phase :: "nat \<Rightarrow> ('k, 'v) phase"

definition New :: "('k, 'v) coalescer" where
  "New = \<lparr>flights = Map.empty, pool = [], phase = (\<lambda>_. Idle)\<rparr>"

section \<open>Operations\<close>

definition upd_flight :: "nat \<Rightarrow> (('k, 'v) flight \<Rightarrow> ('k, 'v) flight) \<Rightarrow> ('k, 'v) coalescer \<Rightarrow> ('k, 'v) coalescer" where
  "upd_flight f g c = c\<lparr>pool := (pool c)[f := g (pool c ! f)]\<rparr>"

text \<open>\<open>start\<close> registers a new flight in place of whatever the key had.\<close>

definition start :: "'k \<Rightarrow> ('k, 'v) coalescer \<Rightarrow> nat \<times> ('k, 'v) coalescer" where
  "start key c = (length (pool c), c\<lparr>
     flights := (flights c)(key \<mapsto> length (pool c)),
     pool := pool c @ [\<lparr>fl_key = key, fl_cancelled = False, fl_val = None, numWaiters = 0, fl_stage = Running\<rparr>]\<rparr>)"

text \<open>The locked section of \<open>Do\<close>, then the caller waits.\<close>

definition startNew :: "'k \<Rightarrow> ('k, 'v) coalescer \<Rightarrow> bool" where
  "startNew key c = (case flights c key of None \<Rightarrow> True | Some f \<Rightarrow> fl_cancelled (pool c ! f))"

definition Do_enter :: "nat \<Rightarrow> 'k \<Rightarrow> ('k, 'v) coalescer \<Rightarrow> ('k, 'v) coalescer" where
  "Do_enter who key c =
     (let (f, c') = (if startNew key c then start key c else (the (flights c key), c));
          c'' = upd_flight f (\<lambda>x. x\<lparr>numWaiters := numWaiters x + 1\<rparr>) c' in
      c''\<lparr>phase := (phase c'')(who := Waiting key f)\<rparr>)"

text \<open>The two arms of the \<open>select\<close>: \<open>done\<close> is closed, or the caller's own context has ended.\<close>

definition Do_result :: "nat \<Rightarrow> 'k \<Rightarrow> 'v \<Rightarrow> ('k, 'v) coalescer \<Rightarrow> ('k, 'v) coalescer" where
  "Do_result who key v c = c\<lparr>phase := (phase c)(who := Got key v)\<rparr>"

definition leave :: "nat \<Rightarrow> ('k, 'v) coalescer \<Rightarrow> ('k, 'v) coalescer" where
  "leave f c = upd_flight f (\<lambda>x. let n = numWaiters x - 1 in
     x\<lparr>numWaiters := n, fl_cancelled := (fl_cancelled x \<or> n = 0)\<rparr>) c"

definition Do_leave :: "nat \<Rightarrow> 'k \<Rightarrow> nat \<Rightarrow> ('k, 'v) coalescer \<Rightarrow> ('k, 'v) coalescer" where
  "Do_leave who key f c = (leave f c)\<lparr>phase := (phase c)(who := Left key)\<rparr>"

text \<open>The goroutine of a flight, one function per step.\<close>

definition fn_returns :: "nat \<Rightarrow> 'v \<Rightarrow> ('k, 'v) coalescer \<Rightarrow> ('k, 'v) coalescer" where
  "fn_returns f v c = upd_flight f (\<lambda>x. x\<lparr>fl_val := Some v, fl_stage := Fetched\<rparr>) c"

definition unregister :: "nat \<Rightarrow> ('k, 'v) coalescer \<Rightarrow> ('k, 'v) coalescer" where
  "unregister f c = (let key = fl_key (pool c ! f);
       c' = (if flights c key = Some f then c\<lparr>flights := (flights c)(key := None)\<rparr> else c) in
     upd_flight f (\<lambda>x. x\<lparr>fl_stage := Unregistered\<rparr>) c')"

definition release :: "nat \<Rightarrow> ('k, 'v) coalescer \<Rightarrow> ('k, 'v) coalescer" where
  "release f c = upd_flight f (\<lambda>x. x\<lparr>fl_cancelled := True, fl_stage := Cancelled\<rparr>) c"

definition close_done :: "nat \<Rightarrow> ('k, 'v) coalescer \<Rightarrow> ('k, 'v) coalescer" where
  "close_done f c = upd_flight f (\<lambda>x. x\<lparr>fl_stage := Closed\<rparr>) c"

lemmas coalescer_defs = upd_flight_def start_def startNew_def Do_enter_def Do_result_def leave_def Do_leave_def
  fn_returns_def unregister_def release_def close_done_def

section \<open>Interleavings\<close>

abbreviation at_stage :: "nat \<Rightarrow> stage \<Rightarrow> ('k, 'v) coalescer \<Rightarrow> bool" where
  "at_stage f s c \<equiv> f < length (pool c) \<and> fl_stage (pool c ! f) = s"

inductive cstep :: "('k \<Rightarrow> 'v \<Rightarrow> bool) \<Rightarrow> ('k, 'v) coalescer \<Rightarrow> ('k, 'v) coalescer \<Rightarrow> bool" for fn where
  enter: "phase c who = Idle \<Longrightarrow> cstep fn c (Do_enter who key c)"
| result: "phase c who = Waiting key f \<Longrightarrow> at_stage f Closed c \<Longrightarrow> fl_val (pool c ! f) = Some v \<Longrightarrow>
    cstep fn c (Do_result who key v c)"
| leave: "phase c who = Waiting key f \<Longrightarrow> cstep fn c (Do_leave who key f c)"
| fetch: "at_stage f Running c \<Longrightarrow> fn (fl_key (pool c ! f)) v \<Longrightarrow> cstep fn c (fn_returns f v c)"
| unregister: "at_stage f Fetched c \<Longrightarrow> cstep fn c (unregister f c)"
| release: "at_stage f Unregistered c \<Longrightarrow> cstep fn c (release f c)"
| close: "at_stage f Cancelled c \<Longrightarrow> cstep fn c (close_done f c)"

inductive_cases cstepE: "cstep fn c c'"

abbreviation creach :: "('k \<Rightarrow> 'v \<Rightarrow> bool) \<Rightarrow> ('k, 'v) coalescer \<Rightarrow> bool" where
  "creach fn c \<equiv> (cstep fn)\<^sup>*\<^sup>* New c"

section \<open>Invariant\<close>

definition waits :: "nat \<Rightarrow> (nat \<Rightarrow> ('k, 'v) phase) \<Rightarrow> nat set" where
  "waits f p = {who. \<exists>key. p who = Waiting key f}"

abbreviation waiters :: "nat \<Rightarrow> ('k, 'v) coalescer \<Rightarrow> nat set" where
  "waiters f c \<equiv> waits f (phase c)"

definition early :: "stage \<Rightarrow> bool" where
  "early s \<longleftrightarrow> s = Running \<or> s = Fetched"

text \<open>
  The map only holds flights that are not over; a flight that is neither over nor cancelled is in the map;
  the counter counts the callers that wait; and nobody waits for a flight that was cancelled early.
\<close>

definition registered :: "('k, 'v) coalescer \<Rightarrow> bool" where
  "registered c \<longleftrightarrow>
     (\<forall>key f. flights c key = Some f \<longrightarrow> f < length (pool c) \<and> fl_key (pool c ! f) = key \<and> early (fl_stage (pool c ! f))) \<and>
     (\<forall>f < length (pool c). early (fl_stage (pool c ! f)) \<longrightarrow> \<not> fl_cancelled (pool c ! f) \<longrightarrow>
        flights c (fl_key (pool c ! f)) = Some f)"

text \<open>What each flight's entry has to keep.\<close>

definition entry_ok :: "('k, 'v) flight \<Rightarrow> nat set \<Rightarrow> bool" where
  "entry_ok x W \<longleftrightarrow> (fl_stage x \<noteq> Closed \<longrightarrow> numWaiters x = int (card W)) \<and>
     (early (fl_stage x) \<longrightarrow> fl_cancelled x \<longrightarrow> W = {})"

definition counted :: "('k, 'v) coalescer \<Rightarrow> bool" where
  "counted c \<longleftrightarrow> finite {who. phase c who \<noteq> Idle} \<and>
     (\<forall>who key f. phase c who = Waiting key f \<longrightarrow> f < length (pool c) \<and> fl_key (pool c ! f) = key) \<and>
     (\<forall>f < length (pool c). entry_ok (pool c ! f) (waiters f c))"

definition answered :: "('k \<Rightarrow> 'v \<Rightarrow> bool) \<Rightarrow> ('k, 'v) coalescer \<Rightarrow> bool" where
  "answered fn c \<longleftrightarrow>
     (\<forall>f < length (pool c). fl_stage (pool c ! f) \<noteq> Running \<longrightarrow>
        (\<exists>v. fl_val (pool c ! f) = Some v \<and> fn (fl_key (pool c ! f)) v)) \<and>
     (\<forall>who key v. phase c who = Got key v \<longrightarrow> fn key v)"

lemma Do_enter_cases:
  obtains (join) f where "flights c key = Some f" "\<not> fl_cancelled (pool c ! f)"
    "Do_enter who key c = c\<lparr>pool := (pool c)[f := (pool c ! f)\<lparr>numWaiters := numWaiters (pool c ! f) + 1\<rparr>],
       phase := (phase c)(who := Waiting key f)\<rparr>"
  | (fresh) "\<forall>f. flights c key = Some f \<longrightarrow> fl_cancelled (pool c ! f)"
    "Do_enter who key c = c\<lparr>flights := (flights c)(key \<mapsto> length (pool c)),
       pool := pool c @ [\<lparr>fl_key = key, fl_cancelled = False, fl_val = None, numWaiters = 1, fl_stage = Running\<rparr>],
       phase := (phase c)(who := Waiting key (length (pool c)))\<rparr>"
proof (cases "startNew key c")
  case True
  then show ?thesis by (intro fresh) (auto simp: Do_enter_def start_def startNew_def upd_flight_def split: option.splits)
next
  case False
  then obtain f where "flights c key = Some f" "\<not> fl_cancelled (pool c ! f)"
    by (auto simp: startNew_def split: option.splits)
  then show ?thesis using False by (intro join) (auto simp: Do_enter_def upd_flight_def)
qed

lemma nth_set: "j < length xs \<Longrightarrow> xs[i := x] ! j = (if i = j then x else xs ! j)"
  by (cases "i = j") simp_all

lemma waiters_phase:
  "waits f (p(who := Waiting key g)) = (if f = g then insert who (waits f p) else waits f p - {who})"
  "waits f (p(who := Got key v)) = waits f p - {who}"
  "waits f (p(who := Left key)) = waits f p - {who}"
  by (auto simp: waits_def)

lemma registered_step:
  assumes "cstep fn c c'" "registered c"
  shows "registered c'"
  using assms
proof (cases rule: cstep.cases)
  case (enter who key)
  show ?thesis
  proof (cases rule: Do_enter_cases[of c key who])
    case (join f)
    then show ?thesis using assms(2) unfolding enter registered_def by (simp add: nth_set)
  next
    case fresh
    have "flights c' k = Some f \<longrightarrow> f < length (pool c') \<and> fl_key (pool c' ! f) = k \<and> early (fl_stage (pool c' ! f))" for k f
      using assms(2) unfolding enter fresh(2) registered_def by (auto simp: nth_append early_def less_Suc_eq)
    moreover have "flights c' (fl_key (pool c' ! f)) = Some f"
      if f: "f < length (pool c')" "early (fl_stage (pool c' ! f))" "\<not> fl_cancelled (pool c' ! f)" for f
    proof (cases "f = length (pool c)")
      case False
      then have "flights c (fl_key (pool c ! f)) = Some f" "\<not> fl_cancelled (pool c ! f)" "f < length (pool c)"
        using f assms(2) unfolding enter fresh(2) registered_def by (auto simp: nth_append)
      moreover then have "fl_key (pool c ! f) \<noteq> key" using fresh(1) by auto
      ultimately show ?thesis unfolding enter fresh(2) by (simp add: nth_append)
    qed (simp add: enter fresh(2))
    ultimately show ?thesis unfolding registered_def by blast
  qed
next
  case (unregister f)
  let ?k = "fl_key (pool c ! f)"
  have c': "flights c' = (if flights c ?k = Some f then (flights c)(?k := None) else flights c)"
    "pool c' = (pool c)[f := (pool c ! f)\<lparr>fl_stage := Unregistered\<rparr>]"
    by (simp_all add: unregister unregister_def upd_flight_def Let_def)
  have in_map: "g < length (pool c)" "fl_key (pool c ! g) = k" "early (fl_stage (pool c ! g))" if "flights c k = Some g" for k g
    using assms(2) that unfolding registered_def by blast+
  have other: "flights c k = Some g \<and> g \<noteq> f" if "flights c' k = Some g" for k g
    using that in_map[of k g] by (auto simp: c' split: if_splits)
  have "g < length (pool c') \<and> fl_key (pool c' ! g) = k \<and> early (fl_stage (pool c' ! g))" if "flights c' k = Some g" for k g
    using other[OF that] in_map[of k g] by (simp add: c' nth_set)
  moreover have "flights c' (fl_key (pool c' ! g)) = Some g"
    if g: "g < length (pool c')" "early (fl_stage (pool c' ! g))" "\<not> fl_cancelled (pool c' ! g)" for g
  proof -
    have "g \<noteq> f" using g by (auto simp: c' nth_set early_def)
    moreover then have "flights c (fl_key (pool c ! g)) = Some g"
      using g assms(2) unfolding registered_def by (simp add: c' nth_set)
    ultimately show ?thesis using g(1) by (auto simp: c' nth_set)
  qed
  ultimately show ?thesis unfolding registered_def by blast
qed (auto simp: registered_def coalescer_defs Let_def nth_set early_def split: if_splits, force+)

lemma answered_step:
  assumes "cstep fn c c'" "answered fn c" "counted c"
  shows "answered fn c'"
  using assms
proof (cases rule: cstep.cases)
  case (enter who key)
  show ?thesis
    by (cases rule: Do_enter_cases[of c key who])
      (use assms(2) in \<open>auto simp: enter answered_def nth_set nth_append\<close>)
next
  case (result who key f v)
  then have "fn key v" using assms(2,3) unfolding answered_def counted_def by (metis option.inject stage.distinct(7))
  then show ?thesis using assms(2) by (auto simp: result answered_def Do_result_def)
qed (auto simp: answered_def coalescer_defs Let_def nth_set split: if_splits)

lemma finite_waiters: "counted c \<Longrightarrow> finite (waiters f c)"
  unfolding counted_def waits_def by (auto elim: rev_finite_subset)

lemma waiters_bound: "counted c \<Longrightarrow> who \<in> waiters f c \<Longrightarrow> f < length (pool c)"
  unfolding counted_def waits_def by blast

lemma waiters_one: "phase c who = Waiting key g \<Longrightarrow> who \<in> waiters f c \<longleftrightarrow> f = g"
  by (auto simp: waits_def)

lemma idle_waits_not: "phase c who = Idle \<Longrightarrow> who \<notin> waiters f c"
  by (simp add: waits_def)

lemma entry_enter:
  "entry_ok x W \<Longrightarrow> finite W \<Longrightarrow> who \<notin> W \<Longrightarrow> \<not> fl_cancelled x \<Longrightarrow>
   entry_ok (x\<lparr>numWaiters := numWaiters x + 1\<rparr>) (insert who W)"
  by (simp add: entry_ok_def)

lemma entry_leave:
  assumes "entry_ok x W" "finite W" "who \<in> W"
  shows "entry_ok (x\<lparr>numWaiters := numWaiters x - 1, fl_cancelled := (fl_cancelled x \<or> numWaiters x - 1 = 0)\<rparr>) (W - {who})"
proof -
  have c: "card W = Suc (card (W - {who}))" by (rule card.remove[OF assms(2,3)])
  have live: "early (fl_stage x) \<Longrightarrow> \<not> fl_cancelled x" using assms(1,3) by (auto simp: entry_ok_def)
  have n: "fl_stage x \<noteq> Closed \<Longrightarrow> numWaiters x - 1 = int (card (W - {who}))" using assms(1) c by (simp add: entry_ok_def)
  have "W - {who} = {}" if "early (fl_stage x)" "numWaiters x - 1 = 0"
  proof -
    have "fl_stage x \<noteq> Closed" using that(1) by (auto simp: early_def)
    then have "card (W - {who}) = 0" using n that(2) by simp
    then show ?thesis using assms(2) by simp
  qed
  then show ?thesis using n live unfolding entry_ok_def by simp
qed

lemma finite_phase: "finite {x. P x} \<Longrightarrow> finite {x. x \<noteq> who \<longrightarrow> P x}"
  by (rule finite_subset[of _ "insert who {x. P x}"]) auto

lemma counted_entry: "counted c \<Longrightarrow> f < length (pool c) \<Longrightarrow> entry_ok (pool c ! f) (waiters f c)"
  by (simp add: counted_def)

lemma counted_step:
  assumes "cstep fn c c'" and cnt: "counted c" and reg: "registered c"
  shows "counted c'"
  using assms(1)
proof (cases rule: cstep.cases)
  case (enter who key)
  note idle = idle_waits_not[OF enter(2)]
  show ?thesis
  proof (cases rule: Do_enter_cases[of c key who])
    case (join f)
    have f: "f < length (pool c)" "fl_key (pool c ! f) = key" using join(1) reg unfolding registered_def by blast+
    have "entry_ok ((pool c ! f)\<lparr>numWaiters := numWaiters (pool c ! f) + 1\<rparr>) (insert who (waiters f c))"
      using entry_enter[OF counted_entry[OF cnt f(1)] finite_waiters[OF cnt] idle join(2)] by simp
    then show ?thesis using cnt idle f unfolding counted_def enter join(3)
      by (simp add: nth_set finite_phase waiters_phase)
  next
    case fresh
    have none: "waiters (length (pool c)) c = {}" using waiters_bound[OF cnt] by blast
    then have "entry_ok \<lparr>fl_key = key, fl_cancelled = False, fl_val = None, numWaiters = 1, fl_stage = Running\<rparr> {who}"
      by (simp add: entry_ok_def)
    then show ?thesis using cnt idle none unfolding counted_def enter fresh(2)
      by (auto simp: nth_append finite_phase waiters_phase less_Suc_eq)
  qed
next
  case (result who key f v)
  have "entry_ok (pool c ! g) (waiters g c - {who})" if "g < length (pool c)" for g
    using counted_entry[OF cnt that] waiters_one[OF result(2), of g] result(3) by (auto simp: entry_ok_def early_def)
  then show ?thesis using cnt unfolding counted_def result Do_result_def by (simp add: finite_phase waiters_phase)
next
  case (leave who key f)
  have f: "f < length (pool c)" "who \<in> waiters f c"
    using leave(2) cnt waiters_one[OF leave(2), of f] by (simp_all add: counted_def)
  note * = entry_leave[OF counted_entry[OF cnt f(1)] finite_waiters[OF cnt] f(2)]
  show ?thesis using * f cnt waiters_one[OF leave(2)] unfolding counted_def leave Do_leave_def leave_def upd_flight_def Let_def
    by (simp add: nth_set finite_phase waiters_phase)
qed (use cnt in \<open>auto simp: counted_def coalescer_defs Let_def nth_set entry_ok_def early_def\<close>)

lemma creach_inv:
  assumes "creach fn c"
  shows "registered c \<and> counted c \<and> answered fn c"
  using assms
proof (induction rule: rtranclp_induct)
  case base
  then show ?case by (simp add: registered_def counted_def answered_def New_def)
next
  case (step c c')
  then show ?case using registered_step counted_step answered_step by metis
qed

section \<open>What callers can rely on\<close>

text \<open>C13. Whatever the interleaving, a caller that waits for a flight whose function still runs waits for the
  flight registered under its key, and that flight's context is not cancelled: leaving callers never cancel an
  operation somebody still waits for, and the goroutine of an abandoned flight never unregisters its
  replacement.  Two running flights of one key that are not cancelled are the same flight.\<close>

theorem flight_serves_waiters:
  assumes "creach fn c"
  shows "(\<forall>who key f. phase c who = Waiting key f \<longrightarrow> at_stage f Running c \<longrightarrow>
      fl_key (pool c ! f) = key \<and> \<not> fl_cancelled (pool c ! f) \<and> flights c key = Some f)
    \<and> (\<forall>f g. at_stage f Running c \<longrightarrow> at_stage g Running c \<longrightarrow> fl_key (pool c ! f) = fl_key (pool c ! g) \<longrightarrow>
      \<not> fl_cancelled (pool c ! f) \<longrightarrow> \<not> fl_cancelled (pool c ! g) \<longrightarrow> f = g)"
proof -
  note inv = creach_inv[OF assms]
  have reg: "flights c (fl_key (pool c ! f)) = Some f" if "at_stage f Running c" "\<not> fl_cancelled (pool c ! f)" for f
    using inv that unfolding registered_def by (simp add: early_def)
  have "fl_key (pool c ! f) = key \<and> \<not> fl_cancelled (pool c ! f)"
    if w: "phase c who = Waiting key f" "at_stage f Running c" for who key f
  proof -
    have "who \<in> waiters f c" using w(1) by (auto simp: waits_def)
    moreover have "entry_ok (pool c ! f) (waiters f c)" using inv w(2) by (simp add: counted_def)
    ultimately have "\<not> fl_cancelled (pool c ! f)" using w(2) by (auto simp: entry_ok_def early_def)
    moreover have "fl_key (pool c ! f) = key" using inv w(1) unfolding counted_def by blast
    ultimately show ?thesis by simp
  qed
  then have serves: "phase c who = Waiting key f \<longrightarrow> at_stage f Running c \<longrightarrow>
      fl_key (pool c ! f) = key \<and> \<not> fl_cancelled (pool c ! f) \<and> flights c key = Some f" for who key f
    using reg[of f] by auto
  have one: "f = g" if "at_stage f Running c" "at_stage g Running c" "fl_key (pool c ! f) = fl_key (pool c ! g)"
      "\<not> fl_cancelled (pool c ! f)" "\<not> fl_cancelled (pool c ! g)" for f g
  proof -
    have "Some f = flights c (fl_key (pool c ! g))" using reg[OF that(1,4)] unfolding that(3) by (rule sym)
    also have "\<dots> = Some g" by (rule reg[OF that(2,5)])
    finally show ?thesis by simp
  qed
  show ?thesis
  proof (rule conjI)
    show "\<forall>who key f. phase c who = Waiting key f \<longrightarrow> at_stage f Running c \<longrightarrow>
        fl_key (pool c ! f) = key \<and> \<not> fl_cancelled (pool c ! f) \<and> flights c key = Some f"
      using serves by simp
    show "\<forall>f g. at_stage f Running c \<longrightarrow> at_stage g Running c \<longrightarrow> fl_key (pool c ! f) = fl_key (pool c ! g) \<longrightarrow>
        \<not> fl_cancelled (pool c ! f) \<longrightarrow> \<not> fl_cancelled (pool c ! g) \<longrightarrow> f = g"
      using one by simp
  qed
qed

text \<open>A caller enters, and the function returns the successor of the key.\<close>

definition succ_fn :: "nat \<Rightarrow> nat \<Rightarrow> bool" where
  "succ_fn key v \<longleftrightarrow> v = key + 1"

definition one_waits :: "(nat, nat) coalescer" where
  "one_waits = Do_enter 0 5 New"

lemma one_waits_reach: "creach succ_fn one_waits"
  using cstep.enter[of New 0 succ_fn 5] by (auto simp: one_waits_def New_def)

lemma one_waits_state: "phase one_waits 0 = Waiting 5 0" "at_stage 0 Running one_waits" "fl_key (pool one_waits ! 0) = 5"
  by (simp_all add: one_waits_def New_def Do_enter_def startNew_def start_def upd_flight_def)

theorem flight_serves_waiters_witness: "flights one_waits 5 = Some 0 \<and> \<not> fl_cancelled (pool one_waits ! 0)"
  using flight_serves_waiters[OF one_waits_reach] one_waits_state by blast

text \<open>A caller that gets a result gets one that the function returned for the caller's own key.\<close>

lemma result_is_for_key:
  assumes "creach fn c" "phase c who = Got key v"
  shows "fn key v"
  using creach_inv[OF assms(1)] assms(2) unfolding answered_def by blast

lemma goroutine_moves:
  "at_stage f Fetched c \<Longrightarrow> at_stage f Unregistered (unregister f c) \<and> phase (unregister f c) = phase c"
  "at_stage f Unregistered c \<Longrightarrow> at_stage f Cancelled (release f c) \<and> phase (release f c) = phase c"
  "at_stage f Cancelled c \<Longrightarrow> at_stage f Closed (close_done f c) \<and> phase (close_done f c) = phase c"
  by (simp_all add: coalescer_defs Let_def)

lemma flight_closes:
  assumes "at_stage f s c" "s \<noteq> Running"
  shows "\<exists>c'. (cstep fn)\<^sup>*\<^sup>* c c' \<and> phase c' = phase c \<and> at_stage f Closed c'"
proof -
  let ?ends = "\<lambda>c. \<exists>c'. (cstep fn)\<^sup>*\<^sup>* c c' \<and> phase c' = phase c \<and> at_stage f Closed c'"
  have closed: "?ends c" if "at_stage f Closed c" for c using that by blast
  have cancelled: "?ends c" if "at_stage f Cancelled c" for c
    using closed[of "close_done f c"] goroutine_moves(3)[OF that] cstep.close[OF that, of fn]
    by (metis converse_rtranclp_into_rtranclp)
  have unregistered: "?ends c" if "at_stage f Unregistered c" for c
    using cancelled[of "release f c"] goroutine_moves(2)[OF that] cstep.release[OF that, of fn]
    by (metis converse_rtranclp_into_rtranclp)
  have "?ends c" if "at_stage f Fetched c" for c
    using unregistered[of "unregister f c"] goroutine_moves(1)[OF that] cstep.unregister[OF that, of fn]
    by (metis converse_rtranclp_into_rtranclp)
  then show ?thesis using assms closed cancelled unregistered by (cases s) blast+
qed

text \<open>The flight of \<open>one_waits\<close> has its result, and then is over.\<close>

definition one_fetched :: "(nat, nat) coalescer" where
  "one_fetched = fn_returns 0 6 one_waits"

definition one_served :: "(nat, nat) coalescer" where
  "one_served = Do_result 0 5 6 (close_done 0 (release 0 (unregister 0 one_fetched)))"

lemma one_fetched_reach: "creach succ_fn one_fetched"
  using one_waits_reach cstep.fetch[OF one_waits_state(2), of succ_fn 6] one_waits_state(3)
  by (simp add: one_fetched_def succ_fn_def)

lemma one_fetched_state: "at_stage 0 Fetched one_fetched" "phase one_fetched = phase one_waits"
    "fl_val (pool one_fetched ! 0) = Some 6"
  using one_waits_state by (simp_all add: one_fetched_def fn_returns_def upd_flight_def)

lemma one_served_reach: "creach succ_fn one_served"
proof -
  let ?u = "unregister 0 one_fetched" let ?r = "release 0 ?u" let ?d = "close_done 0 ?r"
  note u = goroutine_moves(1)[OF one_fetched_state(1)]
  note r = goroutine_moves(2)[OF conjunct1[OF u]]
  note d = goroutine_moves(3)[OF conjunct1[OF r]]
  have "fl_val (pool ?d ! 0) = Some 6" using one_fetched_state
    by (simp add: unregister_def release_def close_done_def upd_flight_def Let_def)
  moreover have "phase ?d 0 = Waiting 5 0" using u r d one_fetched_state(2) one_waits_state(1) by simp
  ultimately have "cstep succ_fn ?d one_served"
    unfolding one_served_def using d cstep.result[of ?d 0 5 0 6] by simp
  moreover have "creach succ_fn ?d"
    using one_fetched_reach cstep.unregister[OF one_fetched_state(1), of succ_fn] cstep.release[OF conjunct1[OF u], of succ_fn]
      cstep.close[OF conjunct1[OF r], of succ_fn] by (meson rtranclp.rtrancl_into_rtrancl)
  ultimately show ?thesis by (rule rtranclp.rtrancl_into_rtrancl[rotated])
qed

text \<open>C14. Nobody waits forever for a function that has returned: from every reachable state in which a waiting
  caller's flight has left the function, the steps of the flight's goroutine alone lead to a state in which the
  caller returns the function's result for its key.\<close>

theorem waiter_gets_result:
  assumes "creach fn c" "phase c who = Waiting key f" "fl_stage (pool c ! f) \<noteq> Running"
  shows "\<exists>c' v. (cstep fn)\<^sup>*\<^sup>* c c' \<and> phase c' = phase c \<and> cstep fn c' (Do_result who key v c') \<and> fn key v"
proof -
  have f: "f < length (pool c)" using creach_inv[OF assms(1)] assms(2) unfolding counted_def by blast
  obtain c' where c': "(cstep fn)\<^sup>*\<^sup>* c c'" "phase c' = phase c" "at_stage f Closed c'"
    using flight_closes[where s = "fl_stage (pool c ! f)" and c = c] f assms(3) by blast
  then have inv: "answered fn c'" "counted c'" using creach_inv[of fn c'] assms(1) by (meson rtranclp_trans)+
  then obtain v where v: "fl_val (pool c' ! f) = Some v" "fn (fl_key (pool c' ! f)) v" "fl_key (pool c' ! f) = key"
    using c'(2,3) assms(2) unfolding answered_def counted_def by (metis stage.distinct(7))
  then have "cstep fn c' (Do_result who key v c')" using c' assms(2) cstep.result by metis
  then show ?thesis using c' v by auto
qed

theorem waiter_gets_result_witness:
  "\<exists>c' v. (cstep succ_fn)\<^sup>*\<^sup>* one_fetched c' \<and> cstep succ_fn c' (Do_result 0 5 v c') \<and> v = 6"
proof -
  have "phase one_fetched 0 = Waiting 5 0" "fl_stage (pool one_fetched ! 0) \<noteq> Running"
    using one_fetched_state one_waits_state by simp_all
  from waiter_gets_result[OF one_fetched_reach this] show ?thesis by (auto simp: succ_fn_def)
qed

text \<open>C38. The function does not run at most once per key at any time: after the only caller has left, the
  cancelled run goes on until it notices, and a new caller starts a second run of the same key beside it.\<close>

theorem two_runs_of_one_key:
  "\<exists>c. creach succ_fn c \<and> (\<exists>f g. f \<noteq> g \<and> at_stage f Running c \<and> at_stage g Running c \<and>
     fl_key (pool c ! f) = fl_key (pool c ! g))"
proof -
  let ?l = "Do_leave 0 5 0 one_waits" let ?c = "Do_enter 1 5 ?l"
  have "cstep succ_fn one_waits ?l" using one_waits_state(1) by (rule cstep.leave)
  moreover have "phase ?l 1 = Idle"
    by (simp add: Do_leave_def leave_def upd_flight_def one_waits_def Do_enter_def startNew_def start_def New_def Let_def)
  then have "cstep succ_fn ?l ?c" by (rule cstep.enter)
  ultimately have "creach succ_fn ?c" using one_waits_reach by (meson rtranclp.rtrancl_into_rtrancl)
  moreover have "at_stage 0 Running ?c \<and> at_stage 1 Running ?c \<and> fl_key (pool ?c ! 0) = fl_key (pool ?c ! 1)"
    by (simp add: Do_leave_def leave_def upd_flight_def one_waits_def Do_enter_def startNew_def start_def New_def Let_def)
  ultimately show ?thesis by (metis zero_neq_one)
qed

end
