(* ===== verification/Scale_To_Zero.thy ===== *)
theory Scale_To_Zero
  imports Store_Types
begin

text \<open>
  The scale-to-zero sidecar (\<open>services/scale-to-zero-sidecar/internal/sidecar\<close>): once a minute it asks
  Postgres for open connections and hibernates the cluster after a period without any.  The Kubernetes
  client, the connection pool and the clock are the operations of the record \<open>cluster_env\<close>, which act on
  the world.  A tick of the loop in \<open>Start\<close> is one function; what it did is its outcome.  The zero time is
  \<open>None\<close>, times are nanoseconds, and \<open>time.Since\<close> saturates at the largest duration.
\<close>

section \<open>The cluster and its client\<close>

record cluster =
  cr_Phase :: string
  cr_CurrentPrimary :: string
  cr_Annotations :: "string \<rightharpoonup> string"

record branch_cr =
  bc_Name :: string
  bc_Annotations :: "string \<rightharpoonup> string"

record scheduled_backup =
  sb_Suspend :: "bool option"

datatype kerr = NotFound | ApiError goerr

datatype pgerr = ConnRefused | AuthError | QueryError goerr

record 'w cluster_env =
  Now :: "'w \<Rightarrow> int"
  api_get_cluster :: "'w \<Rightarrow> (goerr + cluster) \<times> 'w"
  api_update_cluster :: "cluster \<Rightarrow> 'w \<Rightarrow> (goerr + unit) \<times> 'w"
  api_get_backup :: "string \<Rightarrow> 'w \<Rightarrow> (kerr + scheduled_backup) \<times> 'w"
  api_update_backup :: "scheduled_backup \<Rightarrow> 'w \<Rightarrow> (goerr + unit) \<times> 'w"
  api_get_branch :: "string \<Rightarrow> 'w \<Rightarrow> (kerr + branch_cr) \<times> 'w"
  patchBranchHibernation :: "branch_cr \<Rightarrow> 'w \<Rightarrow> (goerr + unit) \<times> 'w"
  patchBranchClusterName :: "branch_cr \<Rightarrow> 'w \<Rightarrow> (goerr + unit) \<times> 'w"
  openConnections :: "'w \<Rightarrow> (pgerr + int) \<times> 'w"
  newQuerier :: "'w \<Rightarrow> (goerr + unit) \<times> 'w"

record scaleToZero =
  currentPodName :: string
  clusterName :: string
  clusterRefreshInterval :: int
  cachedCluster :: "cluster option"
  lastClusterUpdate :: "int option"
  lastActive :: "int option"

record scaleToZeroConfig =
  s2z_enabled :: bool
  s2z_inactivityMinutes :: int

definition max_duration :: int where "max_duration = 2 ^ 63 - 1"

definition Since :: "int \<Rightarrow> int \<Rightarrow> int" where
  "Since now t = max (- (2 ^ 63)) (min max_duration (now - t))"

text \<open>The cache of the cluster: refreshed when asked to or when it is old; the zero time is always old.\<close>

definition getCluster :: "('w, 'z) cluster_env_scheme \<Rightarrow> bool \<Rightarrow> scaleToZero \<Rightarrow> 'w \<Rightarrow> (goerr + cluster) \<times> scaleToZero \<times> 'w" where
  "getCluster env forceUpdate st w =
     (let cached = (case (lastClusterUpdate st, cachedCluster st) of
          (Some t, Some c) \<Rightarrow> if \<not> forceUpdate \<and> Since (Now env w) t < clusterRefreshInterval st then Some c else None
        | _ \<Rightarrow> None) in
      case cached of
        Some c \<Rightarrow> (Inr c, st, w)
      | None \<Rightarrow> (case api_get_cluster env w of
            (Inl e, w') \<Rightarrow> (Inl e, st, w')
          | (Inr c, w') \<Rightarrow> (Inr c, st\<lparr>cachedCluster := Some c, lastClusterUpdate := Some (Now env w')\<rparr>, w')))"

definition getBranchName :: "('w, 'z) cluster_env_scheme \<Rightarrow> scaleToZero \<Rightarrow> 'w \<Rightarrow> (goerr + string) \<times> scaleToZero \<times> 'w" where
  "getBranchName env st w = (case getCluster env False st w of
     (Inl e, st', w') \<Rightarrow> (Inl (Wrap ''get cluster for branch name resolution'' e), st', w')
   | (Inr c, st', w') \<Rightarrow> (Inr (case cr_Annotations c ''xata.io/branch'' of Some name \<Rightarrow> name | None \<Rightarrow> clusterName st), st', w'))"

definition getClusterScheduledBackup ::
  "('w, 'z) cluster_env_scheme \<Rightarrow> scaleToZero \<Rightarrow> 'w \<Rightarrow> (kerr + scheduled_backup) \<times> scaleToZero \<times> 'w" where
  "getClusterScheduledBackup env st w = (case getBranchName env st w of
     (Inl e, st', w') \<Rightarrow> (Inl (ApiError e), st', w')
   | (Inr name, st', w') \<Rightarrow> (case api_get_backup env name w' of (r, w'') \<Rightarrow> (r, st', w'')))"

definition getBranch ::
  "('w, 'z) cluster_env_scheme \<Rightarrow> scaleToZero \<Rightarrow> 'w \<Rightarrow> (kerr + branch_cr) \<times> scaleToZero \<times> 'w" where
  "getBranch env st w = (case getBranchName env st w of
     (Inl e, st', w') \<Rightarrow> (Inl (ApiError e), st', w')
   | (Inr name, st', w') \<Rightarrow> (case api_get_branch env name w' of (r, w'') \<Rightarrow> (r, st', w'')))"

section \<open>Watching activity\<close>

definition isPrimary :: "scaleToZero \<Rightarrow> cluster \<Rightarrow> bool" where
  "isPrimary st c \<longleftrightarrow> cr_CurrentPrimary c = '''' \<or> cr_CurrentPrimary c = currentPodName st"

definition getClusterScaleToZeroConfig :: "cluster \<Rightarrow> scaleToZeroConfig" where
  "getClusterScaleToZeroConfig c = \<lparr>
     s2z_enabled = (cr_Annotations c ''xata.io/scale-to-zero-enabled'' = Some ''true''),
     s2z_inactivityMinutes = (case cr_Annotations c ''xata.io/scale-to-zero-inactivity-minutes'' of
        None \<Rightarrow> 30
      | Some v \<Rightarrow> (case ParseInt v of Some n \<Rightarrow> n | None \<Rightarrow> 30))\<rparr>"

definition countConnections :: "('w, 'z) cluster_env_scheme \<Rightarrow> 'w \<Rightarrow> (goerr + int) \<times> 'w" where
  "countConnections env w = (case openConnections env w of
     (Inr n, w') \<Rightarrow> (Inr n, w')
   | (Inl (QueryError e), w') \<Rightarrow> (Inl (Wrap ''query open connections'' e), w')
   | (Inl _, w') \<Rightarrow> (case newQuerier env w' of
        (Inl e, w'') \<Rightarrow> (Inl (Wrap ''reinitialize PostgreSQL querier'' e), w'')
      | (Inr _, w'') \<Rightarrow> (case openConnections env w'' of
            (Inr n, w3) \<Rightarrow> (Inr n, w3)
          | (Inl _, w3) \<Rightarrow> (Inl (Errorf ''query open connections after reinitialization''), w3))))"

definition isClusterActive ::
  "('w, 'z) cluster_env_scheme \<Rightarrow> int \<Rightarrow> scaleToZero \<Rightarrow> 'w \<Rightarrow> (goerr + bool) \<times> scaleToZero \<times> 'w" where
  "isClusterActive env inactivityMinutes st w = (case countConnections env w of
     (Inl e, w') \<Rightarrow> (Inl e, st, w')
   | (Inr openConns, w') \<Rightarrow>
       (case lastActive st of
          Some t \<Rightarrow> if openConns > 0 then (Inr True, st\<lparr>lastActive := Some (Now env w')\<rparr>, w')
                     else (Inr (\<not> (Minutes (Since (Now env w') t) \<ge> fl64 (of_int inactivityMinutes))), st, w')
        | None \<Rightarrow> (Inr True, st\<lparr>lastActive := Some (Now env w')\<rparr>, w')))"

section \<open>Hibernating\<close>

definition pauseScheduledBackup :: "('w, 'z) cluster_env_scheme \<Rightarrow> scaleToZero \<Rightarrow> 'w \<Rightarrow> (goerr + unit) \<times> scaleToZero \<times> 'w" where
  "pauseScheduledBackup env st w = (case getClusterScheduledBackup env st w of
     (Inl NotFound, st', w') \<Rightarrow> (Inr (), st', w')
   | (Inl (ApiError e), st', w') \<Rightarrow> (Inl (Wrap (''failed to get scheduled backup for cluster '' @ clusterName st) e), st', w')
   | (Inr b, st', w') \<Rightarrow> (case api_update_backup env (b\<lparr>sb_Suspend := Some True\<rparr>) w' of
        (Inl e, w'') \<Rightarrow> (Inl (Wrap (''failed to update scheduled backup for cluster '' @ clusterName st) e), st', w'')
      | (Inr _, w'') \<Rightarrow> (Inr (), st', w'')))"

text \<open>The annotation is set on the object the cache points to, whether or not the update succeeds.  If the cache expired between
  the forced read and this call, \<open>getBranch\<close> has put another object of the same cluster there; the model then caches the annotated one.\<close>

definition hibernateCluster ::
  "('w, 'z) cluster_env_scheme \<Rightarrow> cluster \<Rightarrow> scaleToZero \<Rightarrow> 'w \<Rightarrow> (goerr + unit) \<times> scaleToZero \<times> 'w" where
  "hibernateCluster env c st w =
     (let c' = c\<lparr>cr_Annotations := (cr_Annotations c)(''cnpg.io/hibernation'' \<mapsto> ''on'')\<rparr>;
          st' = st\<lparr>cachedCluster := Some c'\<rparr> in
      case api_update_cluster env c' w of
        (Inl e, w') \<Rightarrow> (Inl e, st', w')
      | (Inr _, w') \<Rightarrow> pauseScheduledBackup env st' w')"

definition hibernateBranch :: "('w, 'z) cluster_env_scheme \<Rightarrow> branch_cr \<Rightarrow> 'w \<Rightarrow> (goerr + unit) \<times> 'w" where
  "hibernateBranch env b w =
     (if bc_Annotations b ''xata.io/wakeup-pool'' \<noteq> None then patchBranchClusterName env b w
      else patchBranchHibernation env b w)"

definition hibernate :: "('w, 'z) cluster_env_scheme \<Rightarrow> scaleToZero \<Rightarrow> 'w \<Rightarrow> (goerr + unit) \<times> scaleToZero \<times> 'w" where
  "hibernate env st w = (case getCluster env True st w of
     (Inl e, st1, w1) \<Rightarrow> (Inl (Wrap ''failed to retrieve cluster'' e), st1, w1)
   | (Inr c, st1, w1) \<Rightarrow>
       if cr_Phase c \<noteq> ''Cluster in healthy state'' then (Inr (), st1, w1)
       else (case getBranch env st1 w1 of
          (Inl (ApiError e), st2, w2) \<Rightarrow> (Inl (Wrap ''failed to check for branch'' e), st2, w2)
        | (Inr b, st2, w2) \<Rightarrow> (case hibernateBranch env b w2 of (r, w3) \<Rightarrow> (r, st2, w3))
        | (Inl NotFound, st2, w2) \<Rightarrow> hibernateCluster env c st2 w2))"

section \<open>The loop\<close>

datatype outcome = GetFailed goerr | NotPrimary | Disabled | CheckFailed goerr | Active | Hibernating int "goerr + unit"

text \<open>One tick of \<open>Start\<close>, and which way it went; \<open>Hibernating\<close> also names the inactivity period in force.\<close>

definition on_tick :: "('w, 'z) cluster_env_scheme \<Rightarrow> scaleToZero \<Rightarrow> 'w \<Rightarrow> outcome \<times> scaleToZero \<times> 'w" where
  "on_tick env st w = (case getCluster env False st w of
     (Inl e, st1, w1) \<Rightarrow> (GetFailed e, st1, w1)
   | (Inr c, st1, w1) \<Rightarrow>
       if \<not> isPrimary st1 c then (NotPrimary, st1\<lparr>lastActive := None\<rparr>, w1)
       else let cfg = getClusterScaleToZeroConfig c in
         if \<not> s2z_enabled cfg then (Disabled, st1\<lparr>lastActive := None\<rparr>, w1)
         else (case isClusterActive env (s2z_inactivityMinutes cfg) st1 w1 of
            (Inl e, st2, w2) \<Rightarrow> (CheckFailed e, st2, w2)
          | (Inr isActive, st2, w2) \<Rightarrow>
              if \<not> isActive then (case hibernate env st2 w2 of
                 (r, st3, w3) \<Rightarrow> (Hibernating (s2z_inactivityMinutes cfg) r, st3, w3))
              else (Active, st2, w2)))"

section \<open>What is known when a cluster is hibernated\<close>

text \<open>The same environment, writing down when connections were counted and what came back.\<close>

datatype sighting = Counted "pgerr + int" | Off

definition lift :: "('w \<Rightarrow> 'r \<times> 'w) \<Rightarrow> 'w \<times> 'h \<Rightarrow> 'r \<times> 'w \<times> 'h" where
  "lift f x = (case f (fst x) of (r, w) \<Rightarrow> (r, w, snd x))"

definition watched :: "('w, 'z) cluster_env_scheme \<Rightarrow> ('w \<times> (int \<times> sighting) list) cluster_env" where
  "watched env = \<lparr>Now = (\<lambda>x. Now env (fst x)), api_get_cluster = lift (api_get_cluster env),
     api_update_cluster = (\<lambda>c. lift (api_update_cluster env c)), api_get_backup = (\<lambda>n. lift (api_get_backup env n)),
     api_update_backup = (\<lambda>b. lift (api_update_backup env b)), api_get_branch = (\<lambda>n. lift (api_get_branch env n)),
     patchBranchHibernation = (\<lambda>b. lift (patchBranchHibernation env b)),
     patchBranchClusterName = (\<lambda>b. lift (patchBranchClusterName env b)),
     openConnections = (\<lambda>x. case openConnections env (fst x) of (r, w) \<Rightarrow> (r, w, snd x @ [(Now env w, Counted r)])),
     newQuerier = lift (newQuerier env)\<rparr>"

text \<open>No call turns the monotonic clock back.\<close>

definition onward :: "('w, 'z) cluster_env_scheme \<Rightarrow> ('w \<Rightarrow> 'r \<times> 'w) \<Rightarrow> bool" where
  "onward env f \<longleftrightarrow> (\<forall>w. Now env w \<le> Now env (snd (f w)))"

definition clock_ok :: "('w, 'z) cluster_env_scheme \<Rightarrow> bool" where
  "clock_ok env \<longleftrightarrow> onward env (api_get_cluster env) \<and> (\<forall>c. onward env (api_update_cluster env c)) \<and>
     (\<forall>n. onward env (api_get_backup env n)) \<and> (\<forall>b. onward env (api_update_backup env b)) \<and>
     (\<forall>n. onward env (api_get_branch env n)) \<and> (\<forall>b. onward env (patchBranchHibernation env b)) \<and>
     (\<forall>b. onward env (patchBranchClusterName env b)) \<and> onward env (openConnections env) \<and> onward env (newQuerier env)"

text \<open>
  The life of one sidecar: time passes and the world changes, or the loop ticks.  A tick in which the pod
  is not the primary or the feature is off is written down as well.
\<close>

inductive s2z_reach :: "'w cluster_env \<Rightarrow> scaleToZero \<Rightarrow> 'w \<times> (int \<times> sighting) list \<Rightarrow> bool" for env where
  start: "lastActive st = None \<Longrightarrow> s2z_reach env st (w, [])"
| wait: "s2z_reach env st (w, h) \<Longrightarrow> Now env w \<le> Now env w' \<Longrightarrow> s2z_reach env st (w', h)"
| tick: "s2z_reach env st x \<Longrightarrow> on_tick (watched env) st x = (out, st', (w', h')) \<Longrightarrow>
    s2z_reach env st' (w', h' @ (if out \<in> {NotPrimary, Disabled} then [(Now env w', Off)] else []))"

text \<open>Reasons not to hibernate: a connection, or not being responsible.\<close>

fun busy :: "sighting \<Rightarrow> bool" where
  "busy (Counted (Inr n)) = (n > 0)"
| "busy (Counted (Inl _)) = False"
| "busy Off = True"

definition busy_before :: "int \<Rightarrow> (int \<times> sighting) list \<Rightarrow> bool" where
  "busy_before t h \<longleftrightarrow> (\<forall>(u, e)\<in>set h. busy e \<longrightarrow> u \<le> t)"

lemma busy_before_simps [simp]:
  "busy_before t []" "busy_before t (h @ h') \<longleftrightarrow> busy_before t h \<and> busy_before t h'"
  "busy_before t ((u, e) # h) \<longleftrightarrow> (busy e \<longrightarrow> u \<le> t) \<and> busy_before t h"
  by (auto simp: busy_before_def)

lemma busy_before_mono: "busy_before t h \<Longrightarrow> t \<le> u \<Longrightarrow> busy_before u h"
  by (fastforce simp: busy_before_def)

lemma Minutes_nonpos:
  assumes "d \<le> 0"
  shows "Minutes d \<le> 0"
proof -
  have "quot_go d minute_ns = - ((- d) div minute_ns)" using assms by (cases "d = 0") (simp_all add: quot_go_def)
  moreover have "0 \<le> (- d) div minute_ns" using assms by (simp add: pos_imp_zdiv_nonneg_iff)
  moreover have "minute_ns * ((- d) div minute_ns) \<le> - d"
    using mult_div_mod_eq[of minute_ns "- d"] pos_mod_sign[of minute_ns "- d"] by linarith
  ultimately have q: "quot_go d minute_ns \<le> 0" "rem_go d minute_ns \<le> 0" by (simp_all add: rem_go_def)
  have "fl64 (of_int (quot_go d minute_ns)) \<le> 0" "fl64 (of_int (rem_go d minute_ns)) \<le> 0"
    using fl64.fl_mono[of "of_int (quot_go d minute_ns)" 0] fl64.fl_mono[of "of_int (rem_go d minute_ns)" 0] q
    by (simp_all add: fl64.fl_0)
  moreover then have "fl64 (fl64 (of_int (rem_go d minute_ns)) / 60000000000) \<le> 0"
    using fl64.fl_mono[of "fl64 (of_int (rem_go d minute_ns)) / 60000000000" 0] by (simp add: fl64.fl_0 divide_nonpos_pos)
  ultimately show ?thesis unfolding Minutes_def
    using fl64.fl_mono[of _ 0] by (metis add_nonpos_nonpos fl64.fl_0)
qed

lemma Since_Minutes:
  assumes "1 \<le> n" "n \<le> 2 ^ 16" "Minutes (Since now t) \<ge> fl64 (of_int n)"
  shows "n * minute_ns \<le> now - t"
proof -
  have n: "fl64 (of_int n) = of_int n" using assms(1,2) by (intro fl64.fl_of_int) simp
  then have pos: "Minutes (Since now t) > 0" using assms(1,3) by (simp add: order_less_le_trans[of 0 "of_int n"])
  then have d: "0 < Since now t" using Minutes_nonpos[of "Since now t"] by linarith
  then have "Since now t < 2 ^ 63" "Since now t \<le> now - t" by (auto simp: Since_def max_duration_def)
  then show ?thesis using Minutes_ge_iff[of "Since now t" n] assms n d by simp
qed

lemma lift_run:
  "lift f x = (r, y) \<Longrightarrow> snd y = snd x"
  "onward env f \<Longrightarrow> lift f x = (r, y) \<Longrightarrow> Now env (fst x) \<le> Now env (fst y)"
  by (auto simp: lift_def onward_def split: prod.splits) (metis snd_conv)

lemmas watched_ops = watched_def[THEN arg_cong[where f = Now]] watched_def[THEN arg_cong[where f = api_get_cluster]]
  watched_def[THEN arg_cong[where f = api_update_cluster]] watched_def[THEN arg_cong[where f = api_get_backup]]
  watched_def[THEN arg_cong[where f = api_update_backup]] watched_def[THEN arg_cong[where f = api_get_branch]]
  watched_def[THEN arg_cong[where f = patchBranchHibernation]] watched_def[THEN arg_cong[where f = patchBranchClusterName]]
  watched_def[THEN arg_cong[where f = newQuerier]]

text \<open>Steps that leave the record and the activity alone.\<close>

definition passes :: "('w, 'z) cluster_env_scheme \<Rightarrow> scaleToZero \<Rightarrow> 'w \<times> 'h \<Rightarrow> scaleToZero \<Rightarrow> 'w \<times> 'h \<Rightarrow> bool" where
  "passes env st x st' y \<longleftrightarrow> snd y = snd x \<and> lastActive st' = lastActive st \<and> Now env (fst x) \<le> Now env (fst y)"

lemma passes_trans: "passes env st x st' y \<Longrightarrow> passes env st' y st'' z \<Longrightarrow> passes env st x st'' z"
  by (auto simp: passes_def)

lemma passes_lift:
  "onward env f \<Longrightarrow> lift f x = (r, y) \<Longrightarrow> lastActive st' = lastActive st \<Longrightarrow> passes env st x st' y"
  unfolding passes_def using lift_run(1)[of f x r y] lift_run(2)[of env f x r y] by blast

lemma getCluster_passes:
  assumes "clock_ok env" "getCluster (watched env) forced st x = (r, st', y)"
  shows "passes env st x st' y"
proof -
  have on: "onward env (api_get_cluster env)" using assms(1) by (simp add: clock_ok_def)
  show ?thesis using assms(2) passes_lift[OF on, of x]
    by (auto simp: getCluster_def watched_ops Let_def passes_def split: option.splits prod.splits sum.splits if_splits)
qed

lemma getBranchName_passes:
  assumes "clock_ok env" "getBranchName (watched env) st x = (r, st', y)"
  shows "passes env st x st' y"
  using assms(2) getCluster_passes[OF assms(1), of False st x]
  by (auto simp: getBranchName_def split: prod.splits sum.splits)

lemma named_get_passes:
  assumes "clock_ok env"
  shows "getClusterScheduledBackup (watched env) st x = (r, st', y) \<Longrightarrow> passes env st x st' y"
    "getBranch (watched env) st x = (r', st', y) \<Longrightarrow> passes env st x st' y"
proof -
  have on: "onward env (api_get_backup env n)" "onward env (api_get_branch env n)" for n using assms by (simp_all add: clock_ok_def)
  obtain q st1 x1 where n: "getBranchName (watched env) st x = (q, st1, x1)" by (metis surj_pair)
  note one = getBranchName_passes[OF assms n]
  have "passes env st x st1 z" if "lift (api_get_backup env m) x1 = (v, z)" for m v z
    using passes_trans[OF one passes_lift[OF on(1) that refl]] .
  then show "getClusterScheduledBackup (watched env) st x = (r, st', y) \<Longrightarrow> passes env st x st' y"
    using n one by (cases q) (auto simp: getClusterScheduledBackup_def watched_ops split: prod.splits)
  have "passes env st x st1 z" if "lift (api_get_branch env m) x1 = (v, z)" for m v z
    using passes_trans[OF one passes_lift[OF on(2) that refl]] .
  then show "getBranch (watched env) st x = (r', st', y) \<Longrightarrow> passes env st x st' y"
    using n one by (cases q) (auto simp: getBranch_def watched_ops split: prod.splits)
qed

lemma pause_passes:
  assumes "clock_ok env" "pauseScheduledBackup (watched env) st x = (r, st', y)"
  shows "passes env st x st' y"
proof -
  obtain q st1 x1 where g: "getClusterScheduledBackup (watched env) st x = (q, st1, x1)" by (metis surj_pair)
  note one = named_get_passes(1)[OF assms(1) g]
  have on: "onward env (api_update_backup env b)" for b using assms(1) by (simp add: clock_ok_def)
  have "passes env st x st1 z" if "lift (api_update_backup env b) x1 = (v, z)" for b v z
    using passes_trans[OF one passes_lift[OF on that refl]] .
  then show ?thesis using assms(2) g one
    by (auto simp: pauseScheduledBackup_def watched_ops split: prod.splits sum.splits kerr.splits)
qed

lemma hibernateCluster_passes:
  assumes "clock_ok env" "hibernateCluster (watched env) c st x = (r, st', y)"
  shows "passes env st x st' y"
proof -
  let ?c = "c\<lparr>cr_Annotations := (cr_Annotations c)(''cnpg.io/hibernation'' \<mapsto> ''on'')\<rparr>"
  let ?st = "st\<lparr>cachedCluster := Some ?c\<rparr>"
  have on: "onward env (api_update_cluster env ?c)" using assms(1) by (simp add: clock_ok_def)
  obtain q x1 where u: "lift (api_update_cluster env ?c) x = (q, x1)" by (metis surj_pair)
  have one: "passes env st x ?st x1" by (rule passes_lift[OF on u]) simp
  show ?thesis
  proof (cases q)
    case (Inl e)
    then show ?thesis using assms(2) u one by (simp add: hibernateCluster_def watched_ops Let_def)
  next
    case (Inr v)
    then have "pauseScheduledBackup (watched env) ?st x1 = (r, st', y)"
      using assms(2) u by (simp add: hibernateCluster_def watched_ops Let_def)
    then show ?thesis using passes_trans[OF one] pause_passes[OF assms(1)] by blast
  qed
qed

lemma hibernate_passes:
  assumes "clock_ok env" "hibernate (watched env) st x = (r, st', y)"
  shows "passes env st x st' y"
proof -
  obtain q st1 x1 where g: "getCluster (watched env) True st x = (q, st1, x1)" by (metis surj_pair)
  note one = getCluster_passes[OF assms(1) g]
  obtain q2 st2 x2 where b: "getBranch (watched env) st1 x1 = (q2, st2, x2)" by (metis surj_pair)
  note two = passes_trans[OF one named_get_passes(2)[OF assms(1) b]]
  have on: "onward env (patchBranchHibernation env b)" "onward env (patchBranchClusterName env b)" for b
    using assms(1) by (simp_all add: clock_ok_def)
  have patch: "passes env st x st2 z" if "hibernateBranch (watched env) br x2 = (v, z)" for br v z
    using that passes_trans[OF two passes_lift[OF on(1)]] passes_trans[OF two passes_lift[OF on(2)]]
    by (auto simp: hibernateBranch_def watched_ops split: if_splits)
  have clus: "passes env st x st3 z" if "hibernateCluster (watched env) c st2 x2 = (v, st3, z)" for c v st3 z
    using passes_trans[OF two hibernateCluster_passes[OF assms(1) that]] .
  show ?thesis using assms(2) g one b two patch clus
    by (auto simp: hibernate_def split: prod.splits sum.splits kerr.splits if_splits)
qed

text \<open>Counting connections only appends to the record, and only a success of a count above zero is busy.\<close>

lemma counting:
  assumes "clock_ok env" "countConnections (watched env) x = (r, y)"
  shows "Now env (fst x) \<le> Now env (fst y) \<and> (\<exists>h. snd y = snd x @ h \<and>
    (case r of Inl _ \<Rightarrow> \<forall>t. busy_before t h | Inr n \<Rightarrow> busy_before (Now env (fst y)) h \<and> (n \<le> 0 \<longrightarrow> (\<forall>t. busy_before t h))))"
proof -
  let ?open = "openConnections (watched env)"
  have open_run: "Now env (fst u) \<le> Now env (fst v) \<and> snd v = snd u @ [(Now env (fst v), Counted q)]" if "?open u = (q, v)" for u q v
    using that assms(1) by (auto simp: watched_def clock_ok_def onward_def split: prod.splits) (metis snd_conv)
  have again: "Now env (fst u) \<le> Now env (fst v) \<and> snd v = snd u" if "newQuerier (watched env) u = (q, v)" for u q v
    using that assms(1) lift_run(1)[of "newQuerier env" u q v] lift_run(2)[of env "newQuerier env" u q v] by (auto simp: watched_ops clock_ok_def)
  obtain q1 x1 where o1: "?open x = (q1, x1)" by (metis surj_pair)
  obtain q2 x2 where o2: "newQuerier (watched env) x1 = (q2, x2)" by (metis surj_pair)
  obtain q3 x3 where o3: "?open x2 = (q3, x3)" by (metis surj_pair)
  note runs = open_run[OF o1] again[OF o2] open_run[OF o3]
  show ?thesis using assms(2) o1 o2 o3 runs unfolding countConnections_def
    by (auto split: sum.splits pgerr.splits)
qed

definition idle_known :: "('w, 'z) cluster_env_scheme \<Rightarrow> scaleToZero \<Rightarrow> 'w \<times> (int \<times> sighting) list \<Rightarrow> bool" where
  "idle_known env st x \<longleftrightarrow> busy_before (Now env (fst x)) (snd x) \<and> (\<forall>t. lastActive st = Some t \<longrightarrow> busy_before t (snd x))"

lemma idle_passes: "idle_known env st x \<Longrightarrow> passes env st x st' y \<Longrightarrow> idle_known env st' y"
  by (auto simp: idle_known_def passes_def elim: busy_before_mono)

text \<open>A check that finds the cluster idle leaves the record idle since the last activity, long enough ago.\<close>

lemma activity:
  assumes ok: "clock_ok env" and known: "idle_known env st x" and run: "isClusterActive (watched env) n st x = (r, st', y)"
  shows "idle_known env st' y \<and> (r = Inr False \<longrightarrow> lastActive st' = lastActive st \<and>
    (\<exists>t. lastActive st = Some t \<and> Minutes (Since (Now env (fst y)) t) \<ge> fl64 (of_int n)))"
proof -
  obtain q z where c: "countConnections (watched env) x = (q, z)" by (metis surj_pair)
  then have y: "y = z" using run by (auto simp: isClusterActive_def split: sum.splits option.splits if_splits)
  obtain h where h: "Now env (fst x) \<le> Now env (fst y)" "snd y = snd x @ h"
    "case q of Inl _ \<Rightarrow> \<forall>t. busy_before t h | Inr n \<Rightarrow> busy_before (Now env (fst y)) h \<and> (n \<le> 0 \<longrightarrow> (\<forall>t. busy_before t h))"
    using counting[OF ok c] unfolding y by blast
  have now: "busy_before (Now env (fst y)) (snd x)" using known h(1) busy_before_mono unfolding idle_known_def by blast
  show ?thesis using run c h known now unfolding isClusterActive_def y[symmetric]
    by (auto simp: idle_known_def watched_ops split: sum.splits option.splits if_splits)
qed

lemma tick_known:
  assumes ok: "clock_ok env" and known: "idle_known env st x" and run: "on_tick (watched env) st x = (out, st', y)"
  shows "idle_known env st' y \<and> (out \<in> {NotPrimary, Disabled} \<longrightarrow> lastActive st' = None) \<and>
    (\<forall>n r. out = Hibernating n r \<longrightarrow> (\<exists>t now. lastActive st = Some t \<and> busy_before t (snd y) \<and> now \<le> Now env (fst y) \<and>
       Minutes (Since now t) \<ge> fl64 (of_int n)))"
proof -
  obtain q st1 x1 where g: "getCluster (watched env) False st x = (q, st1, x1)" by (metis surj_pair)
  note one = getCluster_passes[OF ok g]
  note k1 = idle_passes[OF known one]
  have off: "idle_known env (st1\<lparr>lastActive := None\<rparr>) x1" using k1 by (simp add: idle_known_def)
  show ?thesis
  proof (cases "\<exists>c. q = Inr c \<and> isPrimary st1 c \<and> s2z_enabled (getClusterScaleToZeroConfig c)")
    case False
    then show ?thesis using run g k1 off by (auto simp: on_tick_def Let_def split: sum.splits if_splits)
  next
    case True
    then obtain c where c: "q = Inr c" "isPrimary st1 c" "s2z_enabled (getClusterScaleToZeroConfig c)" by blast
    let ?n = "s2z_inactivityMinutes (getClusterScaleToZeroConfig c)"
    obtain a st2 x2 where act: "isClusterActive (watched env) ?n st1 x1 = (a, st2, x2)" by (metis surj_pair)
    note k2 = activity[OF ok k1 act]
    show ?thesis
    proof (cases "a = Inr False")
      case False
      then show ?thesis using run g c act k2 by (auto simp: on_tick_def Let_def split: sum.splits if_splits)
    next
      case True
      obtain v st3 x3 where hib: "hibernate (watched env) st2 x2 = (v, st3, x3)" by (metis surj_pair)
      note three = hibernate_passes[OF ok hib]
      have "out = Hibernating ?n v" "st' = st3" "y = x3" using run g c act True hib by (simp_all add: on_tick_def)
      moreover obtain t where "lastActive st1 = Some t" "lastActive st2 = Some t" "Minutes (Since (Now env (fst x2)) t) \<ge> fl64 (of_int ?n)"
        using k2 True by auto
      moreover then have "lastActive st = Some t" "busy_before t (snd x2)" using one k2 by (simp_all add: passes_def idle_known_def)
      ultimately show ?thesis using idle_passes[OF conjunct1[OF k2] three] three unfolding passes_def by auto
    qed
  qed
qed

lemma reach_known:
  assumes "s2z_reach env st x" "clock_ok env"
  shows "idle_known env st x"
  using assms
proof (induction rule: s2z_reach.induct)
  case (tick st x out st' w' h')
  from tick_known[OF tick.prems tick.IH[OF tick.prems] tick.hyps(2)] show ?case
    by (auto simp: idle_known_def)
qed (auto simp: idle_known_def elim: busy_before_mono)

text \<open>C15. A sidecar hibernates a cluster only after the configured period without activity: when a tick does, every
  connection it ever counted, and every tick in which it was not the primary or the feature was off, lies at least the
  inactivity period (1 to 65536 minutes) back.  The comparison of \<open>float64\<close> minutes is exact, the clock is monotonic,
  and counts that failed do not stand for activity.\<close>

theorem hibernates_after_inactivity:
  assumes "clock_ok env" "s2z_reach env st x" "on_tick (watched env) st x = (Hibernating n r, st', y)" "1 \<le> n" "n \<le> 2 ^ 16"
  shows "\<forall>(u, e)\<in>set (snd y). busy e \<longrightarrow> n * minute_ns \<le> Now env (fst y) - u"
proof -
  obtain t now where t: "busy_before t (snd y)" "now \<le> Now env (fst y)" "Minutes (Since now t) \<ge> fl64 (of_int n)"
    using tick_known[OF assms(1) reach_known[OF assms(2,1)] assms(3)] by blast
  then show ?thesis using Since_Minutes[OF assms(4,5) t(3)] unfolding busy_before_def by fastforce
qed

text \<open>A cluster with one pod whose world is the clock: connections are open until minute 5.\<close>

definition calm_cluster :: cluster where
  "calm_cluster = \<lparr>cr_Phase = ''Cluster in healthy state'', cr_CurrentPrimary = ''pod'',
     cr_Annotations = [''xata.io/scale-to-zero-enabled'' \<mapsto> ''true'', ''xata.io/scale-to-zero-inactivity-minutes'' \<mapsto> ''10'']\<rparr>"

definition demo_env :: "int cluster_env" where
  "demo_env = \<lparr>Now = (\<lambda>w. w), api_get_cluster = (\<lambda>w. (Inr calm_cluster, w)), api_update_cluster = (\<lambda>_ w. (Inr (), w)),
     api_get_backup = (\<lambda>_ w. (Inl NotFound, w)), api_update_backup = (\<lambda>_ w. (Inr (), w)),
     api_get_branch = (\<lambda>_ w. (Inl NotFound, w)), patchBranchHibernation = (\<lambda>_ w. (Inr (), w)),
     patchBranchClusterName = (\<lambda>_ w. (Inr (), w)), openConnections = (\<lambda>w. (Inr (if w \<le> 5 * minute_ns then 1 else 0), w)),
     newQuerier = (\<lambda>w. (Inr (), w))\<rparr>"

definition demo_sidecar :: scaleToZero where
  "demo_sidecar = \<lparr>currentPodName = ''pod'', clusterName = ''c'', clusterRefreshInterval = 30 * second_ns,
     cachedCluster = None, lastClusterUpdate = None, lastActive = None\<rparr>"

definition after_tick :: "scaleToZero \<times> int \<times> (int \<times> sighting) list \<Rightarrow> int \<Rightarrow> outcome \<times> scaleToZero \<times> int \<times> (int \<times> sighting) list" where
  "after_tick s now = (case s of (st, w, h) \<Rightarrow> on_tick (watched demo_env) st (now, h))"

definition demo_ticks :: "outcome \<times> scaleToZero \<times> int \<times> (int \<times> sighting) list" where
  "demo_ticks = after_tick (snd (after_tick (demo_sidecar, 0, []) (5 * minute_ns))) (15 * minute_ns)"

theorem hibernates_after_inactivity_witness:
  "fst demo_ticks = Hibernating 10 (Inr ()) \<and> \<not> list_ex (\<lambda>(u, e). busy e \<and> 15 * minute_ns - u < 10 * minute_ns) (snd (snd (snd demo_ticks)))"
proof -
  have ok: "clock_ok demo_env" by (simp add: clock_ok_def onward_def demo_env_def)
  let ?one = "after_tick (demo_sidecar, 0, []) (5 * minute_ns)"
  have first: "fst ?one = Active" "fst (snd (snd ?one)) = 5 * minute_ns" by code_simp+
  have two: "fst demo_ticks = Hibernating 10 (Inr ())" "fst (snd (snd demo_ticks)) = 15 * minute_ns" by code_simp+
  obtain st1 w1 h1 where one: "?one = (Active, st1, w1, h1)" "w1 = 5 * minute_ns" using first by (metis prod.collapse)
  have "s2z_reach demo_env demo_sidecar (5 * minute_ns, [])" by (rule s2z_reach.start) (simp add: demo_sidecar_def)
  from s2z_reach.tick[OF this, of Active st1 w1 h1] one have "s2z_reach demo_env st1 (w1, h1)" by (simp add: after_tick_def)
  then have reach: "s2z_reach demo_env st1 (15 * minute_ns, h1)" by (rule s2z_reach.wait) (simp add: demo_env_def one(2))
  obtain st2 w2 h2 where run: "demo_ticks = (Hibernating 10 (Inr ()), st2, w2, h2)" "w2 = 15 * minute_ns" using two by (metis prod.collapse)
  then have "on_tick (watched demo_env) st1 (15 * minute_ns, h1) = (Hibernating 10 (Inr ()), st2, (w2, h2))"
    using one by (simp add: demo_ticks_def after_tick_def)
  from hibernates_after_inactivity[OF ok reach this] show ?thesis unfolding run(1) by (auto simp: run(2) demo_env_def list_ex_iff)
qed

text \<open>A cluster that is not healthy is left alone: a hibernation that finds any other phase calls nothing but the
  read of the cluster, whatever the rest of the environment would do.\<close>

lemma hibernate_needs_health:
  assumes "api_get_cluster env w = (Inr c, w')" "cr_Phase c \<noteq> ''Cluster in healthy state''"
  shows "hibernate env st w = (Inr (), st\<lparr>cachedCluster := Some c, lastClusterUpdate := Some (Now env w')\<rparr>, w')"
  using assms by (auto simp: hibernate_def getCluster_def Let_def split: option.splits)

end
