(* ===== verification/Api_Key.thy ===== *)
theory Api_Key
  imports Xata_Prelude "HOL-Library.Word" "HOL-Library.Sublist"
begin

unbundle bit_operations_syntax

text \<open>
  API keys (\<open>internal/api/key/key.go\<close>): a prefix, an underscore, and random bytes with their CRC-32 in base 62.
  The base 62 encoding is a third-party package, here the arguments \<open>enc\<close> and \<open>dec\<close>; the random bytes are an
  argument, or an error.  Strings are lists of bytes; iterating over the runes of a key is iterating over its bytes, which agrees
  for the keys of this package and for every valid UTF-8 string.  The keyed hash is not modelled.
\<close>

section \<open>Strings\<close>

fun split_on :: "char \<Rightarrow> string \<Rightarrow> string list" where
  "split_on c [] = [[]]"
| "split_on c (x # xs) = (if x = c then [] # split_on c xs
     else (case split_on c xs of [] \<Rightarrow> [[x]] | p # ps \<Rightarrow> (x # p) # ps))"

fun index_of :: "char \<Rightarrow> string \<Rightarrow> nat option" where
  "index_of c [] = None"
| "index_of c (x # xs) = (if x = c then Some 0 else map_option Suc (index_of c xs))"

definition last_index_of :: "char \<Rightarrow> string \<Rightarrow> nat option" where
  "last_index_of c s = map_option (\<lambda>i. length s - 1 - i) (index_of c (rev s))"

section \<open>The checksum\<close>

definition crc_bit :: "32 word \<Rightarrow> 32 word" where
  "crc_bit r = (if bit r 0 then drop_bit 1 r XOR 0xEDB88320 else drop_bit 1 r)"

definition crc_byte :: "32 word \<Rightarrow> 8 word \<Rightarrow> 32 word" where
  "crc_byte r b = (crc_bit ^^ 8) (r XOR ucast b)"

definition ChecksumIEEE :: "8 word list \<Rightarrow> 32 word" where
  "ChecksumIEEE bs = NOT (foldl crc_byte (NOT 0) bs)"

definition i32tob :: "32 word \<Rightarrow> 8 word list" where
  "i32tob v = map (\<lambda>i. ucast (drop_bit (8 * i) v AND 0xff)) [0, 1, 2, 3]"

definition btoi32 :: "8 word list \<Rightarrow> 32 word" where
  "btoi32 bs = foldl (\<lambda>r i. r OR push_bit (8 * i) (ucast (bs ! i))) 0 [0, 1, 2, 3]"

section \<open>Keys\<close>

definition UserKeyPrefix :: string where "UserKeyPrefix = ''xau''"
definition OrganizationKeyPrefix :: string where "OrganizationKeyPrefix = ''xao''"
definition MaxLength :: nat where "MaxLength = 40"
definition lengthBytes :: nat where "lengthBytes = 20"

text \<open>\<open>rand.Read\<close> fills the \<open>lengthBytes\<close> bytes or returns an error.\<close>

definition newKey :: "(8 word list \<Rightarrow> string) \<Rightarrow> 'e + 8 word list \<Rightarrow> string \<Rightarrow> 'e + string" where
  "newKey enc rnd pre = (case rnd of
     Inl err \<Rightarrow> Inl err
   | Inr b \<Rightarrow> Inr (pre @ ''_'' @ enc (b @ i32tob (ChecksumIEEE b))))"

definition NewUserKey :: "(8 word list \<Rightarrow> string) \<Rightarrow> 'e + 8 word list \<Rightarrow> 'e + string" where
  "NewUserKey enc rnd = newKey enc rnd UserKeyPrefix"

definition NewOrganizationKey :: "(8 word list \<Rightarrow> string) \<Rightarrow> 'e + 8 word list \<Rightarrow> 'e + string" where
  "NewOrganizationKey enc rnd = newKey enc rnd OrganizationKeyPrefix"

definition key_IsValid :: "(string \<Rightarrow> 8 word list option) \<Rightarrow> string \<Rightarrow> bool" where
  "key_IsValid dec k =
     (if length k > MaxLength then False
      else (case split_on (CHR ''_'') k of
          [p, q] \<Rightarrow>
            if \<not> prefix UserKeyPrefix p \<and> \<not> prefix OrganizationKeyPrefix p then False
            else (case dec q of
                None \<Rightarrow> False
              | Some decoded \<Rightarrow>
                  if length decoded < 4 then False
                  else ChecksumIEEE (take (length decoded - 4) decoded) = btoi32 (drop (length decoded - 4) decoded))
        | _ \<Rightarrow> False))"

section \<open>Obfuscation\<close>

abbreviation star :: char where "star \<equiv> CHR ''*''"

definition Obfuscate :: "string \<Rightarrow> int \<Rightarrow> string" where
  "Obfuscate k showLastNChars =
     (let n = (if showLastNChars < 0 then 0 else showLastNChars) in
      if int (length k) \<le> n then k
      else (case index_of (CHR ''_'') k of
          None \<Rightarrow> replicate (length k - nat n) star @ drop (length k - nat n) k
        | Some i \<Rightarrow>
            let prefixEnd = i + 1;
                endIndex = length k - nat n;
                middleLength = int endIndex - int prefixEnd in
            if middleLength < 0 then k
            else take prefixEnd k @ replicate (nat middleLength) star @ drop endIndex k))"

definition extractUnobfuscatedPart :: "string \<Rightarrow> string" where
  "extractUnobfuscatedPart k = (if star \<notin> set k then k else filter (\<lambda>c. c \<noteq> star) k)"

text \<open>A full key against an obfuscated one.\<close>

definition suffix_matches :: "string \<Rightarrow> string \<Rightarrow> bool \<Rightarrow> bool" where
  "suffix_matches keyStr otherKeyStr otherwise = (case last_index_of star otherKeyStr of
     None \<Rightarrow> otherwise
   | Some l \<Rightarrow> if l < length otherKeyStr - 1 then suffix (drop (l + 1) otherKeyStr) keyStr else otherwise)"

definition full_matches :: "string \<Rightarrow> string \<Rightarrow> bool" where
  "full_matches keyStr otherKeyStr = (case index_of (CHR ''_'') otherKeyStr of
     Some i \<Rightarrow> if \<not> prefix (take (i + 1) otherKeyStr) keyStr then False
               else suffix_matches keyStr otherKeyStr True
   | None \<Rightarrow> suffix_matches keyStr otherKeyStr False)"

text \<open>The call with the keys reversed goes straight to the case above.\<close>

definition Matches :: "string \<Rightarrow> string \<Rightarrow> bool" where
  "Matches k otherKey =
     (if k = otherKey then True
      else if star \<notin> set k \<and> star \<notin> set otherKey then False
      else if star \<notin> set k \<and> star \<in> set otherKey then full_matches k otherKey
      else if star \<notin> set otherKey \<and> star \<in> set k then full_matches otherKey k
      else extractUnobfuscatedPart k = extractUnobfuscatedPart otherKey)"

section \<open>Keys are valid when new\<close>

lemma split_on_absent: "c \<notin> set s \<Longrightarrow> split_on c s = [s]"
  by (induction s) auto

lemma split_on_once: "c \<notin> set p \<Longrightarrow> split_on c (p @ c # s) = p # split_on c s"
  by (induction p) auto

lemma bytes_of_word: "btoi32 (i32tob v) = v"
proof (rule bit_word_eqI)
  fix n
  assume n: "n < LENGTH(32)"
  define c :: "nat \<Rightarrow> 32 word" where "c i = ucast (ucast (drop_bit (8 * i) v AND 0xff) :: 8 word)" for i
  have m: "(0xff :: 32 word) = mask 8" by (simp add: mask_eq_exp_minus_1)
  have b: "bit (c i) j \<longleftrightarrow> j < 8 \<and> bit v (8 * i + j)" for i j
    unfolding c_def m by (auto simp: bit_simps dest: bit_imp_le_length)
  have "btoi32 (i32tob v) = c 0 OR push_bit 8 (c 1) OR push_bit 16 (c 2) OR push_bit 24 (c 3)"
    unfolding c_def by (simp add: btoi32_def i32tob_def or.assoc)
  then have "bit (btoi32 (i32tob v)) n \<longleftrightarrow>
      bit (c 0) n \<or> 8 \<le> n \<and> bit (c 1) (n - 8) \<or> 16 \<le> n \<and> bit (c 2) (n - 16) \<or> 24 \<le> n \<and> bit (c 3) (n - 24)"
    using n by (simp only: bit_or_iff bit_push_bit_iff) simp
  also have "\<dots> \<longleftrightarrow> bit v n" unfolding b using n by (cases "n < 8"; cases "n < 16"; cases "n < 24") auto
  finally show "bit (btoi32 (i32tob v)) n = bit v n" .
qed

lemma word_of_bytes: "i32tob (btoi32 [a, b, c, d]) = [a, b, c, d]"
proof -
  define v where "v = btoi32 [a, b, c, d]"
  have m: "(0xff :: 32 word) = mask 8" by (simp add: mask_eq_exp_minus_1)
  have v: "bit v n \<longleftrightarrow> n < 32 \<and> (bit a n \<or> 8 \<le> n \<and> bit b (n - 8) \<or> 16 \<le> n \<and> bit c (n - 16) \<or> 24 \<le> n \<and> bit d (n - 24))" for n
    unfolding v_def btoi32_def by (auto simp: bit_simps dest: bit_imp_le_length)
  have small: "\<not> bit (x :: 8 word) n" if "8 \<le> n" for x n using that bit_imp_le_length by fastforce
  define w where "w i = (ucast (drop_bit (8 * i) v AND 0xff) :: 8 word)" for i
  have "bit (w i) n \<longleftrightarrow> n < 8 \<and> bit v (8 * i + n)" for i n
    unfolding w_def m by (auto simp: bit_simps dest: bit_imp_le_length)
  then have "w 0 = a" "w 1 = b" "w 2 = c" "w 3 = d" by (auto intro!: bit_word_eqI simp: v small)
  then show ?thesis by (simp only: i32tob_def v_def[symmetric] w_def list.map)
qed

lemma IsValid_body:
  assumes "\<forall>x. dec (enc x) = Some x" "\<forall>x. CHR ''_'' \<notin> set (enc x)" "p = UserKeyPrefix \<or> p = OrganizationKeyPrefix" "length c = 4"
  shows "key_IsValid dec (p @ ''_'' @ enc (b @ c)) \<longleftrightarrow> length (p @ ''_'' @ enc (b @ c)) \<le> MaxLength \<and> c = i32tob (ChecksumIEEE b)"
proof -
  let ?k = "p @ ''_'' @ enc (b @ c)"
  have "CHR ''_'' \<notin> set p" using assms(3) by (auto simp: UserKeyPrefix_def OrganizationKeyPrefix_def)
  then have split: "split_on (CHR ''_'') ?k = [p, enc (b @ c)]" using assms(2) by (simp add: split_on_once split_on_absent)
  obtain w x y z where c: "c = [w, x, y, z]" using assms(4) by (auto simp: length_Suc_conv numeral_eq_Suc)
  have sum: "ChecksumIEEE b = btoi32 c \<longleftrightarrow> c = i32tob (ChecksumIEEE b)"
    using word_of_bytes[of w x y z] bytes_of_word c by metis
  have "key_IsValid dec ?k \<longleftrightarrow> length ?k \<le> MaxLength \<and> ChecksumIEEE b = btoi32 c"
    unfolding key_IsValid_def split using assms(1,3,4) by (auto simp del: append_Cons)
  then show ?thesis unfolding sum .
qed

text \<open>C32. Given an encoding that decodes what it encoded and does not use the underscore, a newly generated user or
  organization key is valid exactly when it is not longer than \<open>MaxLength\<close> (the generation does not check the length of the
  encoding), and an error of the random source is returned.  A key with another checksum than that of its bytes is never valid.\<close>

theorem new_keys_valid:
  assumes "\<forall>x. dec (enc x) = Some x" "\<forall>x. CHR ''_'' \<notin> set (enc x)"
  shows "(case rnd of
      Inl err \<Rightarrow> NewUserKey enc rnd = Inl err \<and> NewOrganizationKey enc rnd = Inl err
    | Inr b \<Rightarrow> \<exists>u v. NewUserKey enc rnd = Inr u \<and> NewOrganizationKey enc rnd = Inr v \<and>
        (key_IsValid dec u \<longleftrightarrow> length u \<le> MaxLength) \<and> (key_IsValid dec v \<longleftrightarrow> length v \<le> MaxLength) \<and>
        (\<forall>c. length c = 4 \<longrightarrow> c \<noteq> i32tob (ChecksumIEEE b) \<longrightarrow>
           \<not> key_IsValid dec (UserKeyPrefix @ ''_'' @ enc (b @ c)) \<and> \<not> key_IsValid dec (OrganizationKeyPrefix @ ''_'' @ enc (b @ c))))"
proof -
  have "length (i32tob v) = 4" for v by (simp add: i32tob_def)
  then show ?thesis using IsValid_body[OF assms]
    by (auto simp: NewUserKey_def NewOrganizationKey_def newKey_def split: sum.split)
qed

text \<open>An escape code with one or two characters per byte, which needs 28 characters at most for such a key.\<close>

definition esc :: "8 word \<Rightarrow> string" where
  "esc b = (if b = 95 then ''~t'' else if b = 126 then ''~~'' else [char_of (unat b)])"

definition escape :: "8 word list \<Rightarrow> string" where
  "escape bs = concat (map esc bs)"

fun unescape :: "string \<Rightarrow> 8 word list option" where
  "unescape [] = Some []"
| "unescape (c # cs) = (if c = CHR ''~'' then
     (case cs of [] \<Rightarrow> None
      | d # ds \<Rightarrow> map_option (Cons (if d = CHR ''t'' then 95 else 126)) (unescape ds))
     else map_option (Cons (word_of_nat (of_char c))) (unescape cs))"

lemma byte_mod: "unat (b :: 8 word) mod 256 = unat b"
proof -
  have "unat b < 2 ^ LENGTH(8)" by (rule unsigned_less)
  then show ?thesis by simp
qed

lemma char_of_byte: "of_char (char_of (unat (b :: 8 word)) :: char) = unat b"
  by (simp add: byte_mod)

lemma esc_plain: "b \<noteq> 95 \<Longrightarrow> char_of (unat (b :: 8 word)) \<noteq> CHR ''_''" "b \<noteq> 126 \<Longrightarrow> char_of (unat (b :: 8 word)) \<noteq> CHR ''~''"
proof -
  have eq: "b = word_of_nat (of_char c)" if "char_of (unat b) = c" for c
    unfolding that[symmetric] char_of_byte by simp
  show "b \<noteq> 95 \<Longrightarrow> char_of (unat b) \<noteq> CHR ''_''" using eq[of "CHR ''_''"] by auto
  show "b \<noteq> 126 \<Longrightarrow> char_of (unat b) \<noteq> CHR ''~''" using eq[of "CHR ''~''"] by auto
qed

lemma unescape_escape: "unescape (escape bs) = Some bs"
  by (induction bs) (auto simp: escape_def esc_def esc_plain byte_mod)

lemma escape_chars: "CHR ''_'' \<notin> set (escape bs)" "length (escape bs) \<le> 2 * length bs"
  by (induction bs) (auto simp: escape_def esc_def esc_plain(1)[symmetric])

theorem new_keys_valid_witness:
  "\<exists>u. NewUserKey escape (Inr (replicate 20 7) :: unit + 8 word list) = Inr u \<and> key_IsValid unescape u"
proof -
  let ?c = "i32tob (ChecksumIEEE (replicate 20 7))"
  have "length (esc 7) = 1" by (simp add: esc_def)
  then have "length (escape (replicate n 7)) = n" for n by (induction n) (simp_all add: escape_def)
  then have "length (escape (replicate 20 7 @ ?c)) = 20 + length (escape ?c)" by (simp add: escape_def)
  moreover have "length (escape ?c) \<le> 8" using escape_chars(2)[of ?c] by (simp add: i32tob_def)
  ultimately have len: "length (UserKeyPrefix @ ''_'' @ escape (replicate 20 7 @ ?c)) \<le> MaxLength" by (simp add: UserKeyPrefix_def MaxLength_def)
  have new: "NewUserKey escape (Inr (replicate 20 7) :: unit + 8 word list) = Inr (UserKeyPrefix @ ''_'' @ escape (replicate 20 7 @ ?c))"
    by (simp add: NewUserKey_def newKey_def)
  have "\<forall>x. unescape (escape x) = Some x" "\<forall>x. CHR ''_'' \<notin> set (escape x)" by (simp_all add: unescape_escape escape_chars(1))
  from new_keys_valid[OF this, of "Inr (replicate 20 7) :: unit + 8 word list"] show ?thesis using new len by auto
qed

section \<open>Obfuscated keys still match\<close>

lemma index_of_Some: "index_of c s = Some i \<longleftrightarrow> i < length s \<and> s ! i = c \<and> c \<notin> set (take i s)"
proof (induction s arbitrary: i)
  case (Cons x s)
  then show ?case by (cases i) auto
qed simp

lemma index_of_None: "index_of c s = None \<longleftrightarrow> c \<notin> set s"
  by (induction s) auto

lemma index_of_append: "c \<in> set p \<Longrightarrow> index_of c (p @ s) = index_of c p"
  by (induction p) auto

lemma last_index_of_end:
  assumes "c \<notin> set s"
  shows "last_index_of c (p @ c # s) = Some (length p)"
proof -
  have "index_of c (rev (p @ c # s)) = Some (length s)"
    using assms by (auto simp: index_of_Some nth_append)
  then show ?thesis by (simp add: last_index_of_def)
qed

text \<open>The shape of an obfuscated key with a prefix: either the key itself, or its middle is starred out.\<close>

lemma Obfuscate_shape:
  assumes "CHR ''_'' \<in> set k"
  obtains "Obfuscate k n = k"
  | p m s where "k = p @ m @ s" "m \<noteq> []" "Obfuscate k n = p @ replicate (length m) star @ s"
    "index_of (CHR ''_'') p = Some (length p - 1)" "p \<noteq> []"
proof -
  let ?n = "nat (if n < 0 then 0 else n)"
  obtain i where i: "index_of (CHR ''_'') k = Some i" using assms index_of_None by fastforce
  then have i': "i < length k" "k ! i = CHR ''_''" "CHR ''_'' \<notin> set (take i k)" by (auto simp: index_of_Some)
  show ?thesis
  proof (cases "length k \<le> ?n \<or> length k - ?n \<le> i + 1")
    case True
    have "Obfuscate k n = k"
      using True i i' by (auto simp: Obfuscate_def Let_def not_le nat_le_iff le_nat_iff split: if_splits)
    then show ?thesis by (rule that(1))
  next
    case False
    let ?e = "length k - ?n"
    have e: "i + 1 < ?e" "?e \<le> length k" using False by auto
    have "take ?e k = take (i + 1) k @ take (?e - (i + 1)) (drop (i + 1) k)"
      unfolding take_add[of "i + 1" "?e - (i + 1)" k, symmetric] using e(1) by (simp only: le_add_diff_inverse less_imp_le)
    then have k: "k = take (i + 1) k @ take (?e - (i + 1)) (drop (i + 1) k) @ drop ?e k"
      by (metis append_assoc append_take_drop_id)
    have m: "length (take (?e - (i + 1)) (drop (i + 1) k)) = ?e - (i + 1)" using e by simp
    have "Obfuscate k n = take (i + 1) k @ replicate (?e - (i + 1)) star @ drop ?e k"
      using False i e by (auto simp: Obfuscate_def Let_def nat_diff_distrib' split: if_splits)
    moreover have "index_of (CHR ''_'') (take (i + 1) k) = Some i" using i' by (simp add: index_of_Some)
    moreover have "take (?e - (i + 1)) (drop (i + 1) k) \<noteq> []" using m e by (metis length_0_conv zero_less_diff less_numeral_extra(3))
    moreover have "k \<noteq> []" using i'(1) by auto
    ultimately show ?thesis using that(2)[OF k] m by simp
  qed
qed

text \<open>C33. Obfuscating a key does not lose it: a key with a prefix and without stars matches each of its obfuscated
  forms, in both directions, and the form shows the length of the key.\<close>

theorem Obfuscate_matches:
  assumes "CHR ''_'' \<in> set k" "star \<notin> set k"
  shows "Matches k (Obfuscate k n) \<and> Matches (Obfuscate k n) k \<and> length (Obfuscate k n) = length k"
proof (cases rule: Obfuscate_shape[OF assms(1), of n])
  case 1
  then show ?thesis by (simp add: Matches_def)
next
  case (2 p m s)
  have m: "replicate (length m) star = replicate (length m - 1) star @ [star]"
    using 2(2) by (metis Suc_pred' length_greater_0_conv replicate_Suc replicate_append_same)
  have obf: "Obfuscate k n = (p @ replicate (length m - 1) star) @ star # s" unfolding 2(3) m by simp
  have "last_index_of star (Obfuscate k n) = Some (length p + (length m - 1))"
    unfolding obf using assms(2) 2(1) by (subst last_index_of_end) simp_all
  moreover have "CHR ''_'' \<in> set p" using 2(4) index_of_None[of "CHR ''_''" p] by simp
  then have "index_of (CHR ''_'') (Obfuscate k n) = Some (length p - 1)" using 2(3,4) by (simp add: index_of_append)
  moreover have "suffix s k" "prefix p k" using 2(1) by (simp_all add: suffix_def)
  ultimately have "full_matches k (Obfuscate k n)"
    using 2(2,3,5) by (auto simp: full_matches_def suffix_matches_def)
  moreover have "star \<in> set (Obfuscate k n)" unfolding obf by simp
  ultimately show ?thesis using assms(2) 2(1,3) by (auto simp: Matches_def)
qed

theorem Obfuscate_matches_witness:
  "Obfuscate ''xau_abcdef'' 3 = ''xau_***def'' \<and> Matches ''xau_***def'' ''xau_abcdef''"
proof -
  have o: "Obfuscate ''xau_abcdef'' 3 = ''xau_***def''" by code_simp
  then show ?thesis using Obfuscate_matches[of "''xau_abcdef''" 3] by simp
qed

text \<open>The stars hide what they cover: two keys with the same prefix, the same length and the same last \<open>n\<close>
  characters have the same obfuscated form, whatever lies between.\<close>

lemma Obfuscate_hides:
  assumes "CHR ''_'' \<notin> set p" "length m = length m'"
  shows "Obfuscate (p @ ''_'' @ m @ s) (int (length s)) = Obfuscate (p @ ''_'' @ m' @ s) (int (length s))"
proof -
  have "index_of (CHR ''_'') (p @ ''_'' @ z) = Some (length p)" for z using assms(1) by (auto simp: index_of_Some nth_append)
  moreover have "int (Suc (length p + (length m + length s)) - length s) - int (Suc (length p)) = int (length m)" by simp
  ultimately show ?thesis using assms(2) by (simp add: Obfuscate_def Let_def)
qed

end
