(* ===== verification/Go_Float.thy ===== *)
theory Go_Float
  imports Go_Num
begin

text \<open>
  What \<open>internal/postgrescfg\<close> uses of the standard library beyond integers: \<open>strconv.ParseFloat\<close> with 64 bits,
  comparison and multiplication of \<open>float64\<close>, the conversion to \<open>int64\<close>, \<open>time.ParseDuration\<close>,
  \<open>strings.TrimSpace\<close>, \<open>strings.ToLower\<close> and \<open>unicode.IsControl\<close>.  Strings are bytes; the last three are
  those of ASCII text, to which the inputs are restricted.  A conversion of a value outside \<open>int64\<close> depends on the
  platform: it is the argument \<open>oob\<close>.
\<close>

section \<open>ASCII text\<close>

definition is_digit :: "char \<Rightarrow> bool" where
  "is_digit c \<longleftrightarrow> digit_val c \<noteq> None"

definition lower :: "char \<Rightarrow> char" where
  "lower c = (let n = of_char c :: nat in if 65 \<le> n \<and> n \<le> 90 then char_of (n + 32) else c)"

definition is_space :: "char \<Rightarrow> bool" where
  "is_space c \<longleftrightarrow> (let n = of_char c :: nat in n = 32 \<or> 9 \<le> n \<and> n \<le> 13)"

definition IsControl :: "char \<Rightarrow> bool" where
  "IsControl c \<longleftrightarrow> (let n = of_char c :: nat in n < 32 \<or> n = 127)"

definition TrimSpace :: "string \<Rightarrow> string" where
  "TrimSpace s = rev (dropWhile is_space (rev (dropWhile is_space s)))"

section \<open>Floating-point values\<close>

datatype fval = Fin rat | PosInf | NegInf | NaN

text \<open>Rounding to the nearest \<open>float64\<close>: to 53 bits, below \<open>2^-1022\<close> with the spacing of subnormals, and to infinity from \<open>2^1024\<close> on.\<close>

definition round64 :: "rat \<Rightarrow> rat" where
  "round64 x = (if x \<noteq> 0 \<and> ilog2 \<bar>x\<bar> < - 1022 then of_int (rne (x * 2 ^ 1074)) / 2 ^ 1074 else fl64 x)"

definition to_fval :: "rat \<Rightarrow> fval" where
  "to_fval x = (let r = round64 x in if r \<noteq> 0 \<and> 1024 \<le> ilog2 \<bar>r\<bar> then (if 0 < r then PosInf else NegInf) else Fin r)"

text \<open>Integers of at most 53 bits are exact, which spares the evaluation the rounding.\<close>

lemma fl64_code [code]:
  "fl64 x = (case quotient_of x of (n, d) \<Rightarrow> if d = 1 \<and> \<bar>n\<bar> < 2 ^ 53 then x
     else if x = 0 then 0 else if x < 0 then - fl64_pos (- x) else fl64_pos x)"
proof -
  obtain n d where q: "quotient_of x = (n, d)" by fastforce
  have "fl64 x = x" if "d = 1" "\<bar>n\<bar> < 2 ^ 53"
    using fl64.fl_of_int[OF that(2)] quotient_of_div[OF q] that(1) by simp
  then show ?thesis by (simp add: q) (simp add: fl64_def)
qed

fun f_less :: "fval \<Rightarrow> fval \<Rightarrow> bool" where
  "f_less (Fin x) (Fin y) = (x < y)"
| "f_less (Fin x) PosInf = True"
| "f_less NegInf (Fin y) = True"
| "f_less NegInf PosInf = True"
| "f_less _ _ = False"

text \<open>Multiplication by a finite number that is not negative.\<close>

fun f_scale :: "fval \<Rightarrow> rat \<Rightarrow> fval" where
  "f_scale (Fin x) k = to_fval (x * k)"
| "f_scale NaN k = NaN"
| "f_scale v k = (if k = 0 then NaN else v)"

definition f_int64 :: "(fval \<Rightarrow> int) \<Rightarrow> fval \<Rightarrow> int" where
  "f_int64 oob v = (case v of Fin x \<Rightarrow> if in_int64 (trunc_rat x) then trunc_rat x else oob v | _ \<Rightarrow> oob v)"

section \<open>strconv.ParseFloat\<close>

definition hex_val :: "char \<Rightarrow> nat option" where
  "hex_val c = (case digit_val c of Some d \<Rightarrow> Some d
     | None \<Rightarrow> (let n = of_char (lower c) :: nat in if 97 \<le> n \<and> n \<le> 102 then Some (n - 87) else None))"

text \<open>Mantissa, digits after the point, whether a point and whether a digit was seen, and what is left.\<close>

fun read_mant :: "bool \<Rightarrow> int \<Rightarrow> int \<Rightarrow> bool \<Rightarrow> bool \<Rightarrow> string \<Rightarrow> int \<times> int \<times> bool \<times> string" where
  "read_mant hex m fd dot any [] = (m, fd, any, [])"
| "read_mant hex m fd dot any (c # cs) =
     (if c = CHR ''_'' then read_mant hex m fd dot any cs
      else if c = CHR ''.'' then (if dot then (m, fd, any, c # cs) else read_mant hex m fd True any cs)
      else (case (if hex then hex_val c else digit_val c) of
          Some d \<Rightarrow> read_mant hex ((if hex then 16 else 10) * m + int d) (if dot then fd + 1 else fd) dot True cs
        | None \<Rightarrow> (m, fd, any, c # cs)))"

fun read_exp :: "int \<Rightarrow> string \<Rightarrow> int \<times> string" where
  "read_exp e [] = (e, [])"
| "read_exp e (c # cs) = (if c = CHR ''_'' then read_exp e cs
     else (case digit_val c of Some d \<Rightarrow> read_exp (if e < 10000 then 10 * e + int d else e) cs | None \<Rightarrow> (e, c # cs)))"

text \<open>The exponent, if the rest has one; \<open>None\<close> is a syntax error.\<close>

definition exponent :: "bool \<Rightarrow> string \<Rightarrow> (int \<times> string) option" where
  "exponent hex rest = (case rest of
     c # cs \<Rightarrow> if lower c = (if hex then CHR ''p'' else CHR ''e'') then
         (let (neg, ds) = (case cs of d # ds' \<Rightarrow> if d = CHR ''-'' then (True, ds') else if d = CHR ''+'' then (False, ds') else (False, cs)
                          | [] \<Rightarrow> (False, [])) in
          case ds of
            [] \<Rightarrow> None
          | d # _ \<Rightarrow> if \<not> is_digit d then None
                    else (case read_exp 0 ds of (e, r) \<Rightarrow> Some (if neg then - e else e, r)))
       else if hex then None else Some (0, rest)
   | [] \<Rightarrow> if hex then None else Some (0, []))"

text \<open>Underscores only between digits, a base prefix counting as one.\<close>

fun underscores :: "bool \<Rightarrow> char \<Rightarrow> string \<Rightarrow> bool" where
  "underscores hex i [] = (i \<noteq> CHR ''_'')"
| "underscores hex i (c # cs) =
     (if (if hex then hex_val c else digit_val c) \<noteq> None then underscores hex CHR ''0'' cs
      else if c = CHR ''_'' then i = CHR ''0'' \<and> underscores hex CHR ''_'' cs
      else i \<noteq> CHR ''_'' \<and> underscores hex CHR ''!'' cs)"

definition strip_sign :: "string \<Rightarrow> bool \<times> string" where
  "strip_sign s = (case s of c # cs \<Rightarrow> if c = CHR ''-'' then (True, cs) else if c = CHR ''+'' then (False, cs) else (False, s)
     | [] \<Rightarrow> (False, []))"

definition has_base :: "string \<Rightarrow> bool" where
  "has_base s = (case s of a # b # _ \<Rightarrow> a = CHR ''0'' \<and> lower b \<in> {CHR ''b'', CHR ''o'', CHR ''x''} | _ \<Rightarrow> False)"

definition underscoreOK :: "string \<Rightarrow> bool" where
  "underscoreOK s0 = (let s = snd (strip_sign s0) in
     if has_base s then underscores (lower (s ! 1) = CHR ''x'') CHR ''0'' (drop 2 s) else underscores False CHR ''^'' s)"

definition special :: "string \<Rightarrow> fval option" where
  "special s = (let (neg, t) = strip_sign s; l = map lower t in
     if l \<in> {''inf'', ''infinity''} then Some (if neg then NegInf else PosInf)
     else if map lower s = ''nan'' then Some NaN else None)"

definition ParseFloat :: "string \<Rightarrow> fval option" where
  "ParseFloat s = (case special s of
     Some v \<Rightarrow> Some v
   | None \<Rightarrow>
     let (neg, t) = strip_sign s;
         hex = (length t > 2 \<and> t ! 0 = CHR ''0'' \<and> lower (t ! 1) = CHR ''x'');
         (m, fd, any, rest) = read_mant hex 0 0 False False (if hex then drop 2 t else t) in
     if \<not> any then None
     else (case exponent hex rest of
         Some (e, []) \<Rightarrow>
           if CHR ''_'' \<in> set s \<and> \<not> underscoreOK s then None
           else (let x = (if hex then of_int m * 2 powi (e - 4 * fd) else of_int m * 10 powi (e - fd));
                     v = to_fval (if neg then - x else x) in
                 if v = PosInf \<or> v = NegInf then None else Some v)
       | _ \<Rightarrow> None))"

section \<open>time.ParseDuration\<close>

definition duration_unit :: "string \<Rightarrow> int option" where
  "duration_unit = map_of [(''ns'', 1), (''us'', 1000), ([CHR 0xC2, CHR 0xB5, CHR ''s''], 1000),
     ([CHR 0xCE, CHR 0xBC, CHR ''s''], 1000), (''ms'', 1000000), (''s'', second_ns), (''m'', minute_ns), (''h'', hour_ns)]"

fun leadingInt :: "int \<Rightarrow> string \<Rightarrow> int option" where
  "leadingInt x [] = Some x"
| "leadingInt x (c # cs) = (if x > 2 ^ 63 div 10 then None
     else (let y = 10 * x + int (the (digit_val c)) in if y > 2 ^ 63 then None else leadingInt y cs))"

fun leadingFraction :: "int \<Rightarrow> rat \<Rightarrow> string \<Rightarrow> int \<times> rat" where
  "leadingFraction x scale [] = (x, scale)"
| "leadingFraction x scale (c # cs) = (if x > (2 ^ 63 - 1) div 10 then (x, scale)
     else (let y = 10 * x + int (the (digit_val c)) in if y > 2 ^ 63 then (x, scale) else leadingFraction y (fl64 (scale * 10)) cs))"

text \<open>Digits, digits after a point, and what is left.\<close>

definition split_number :: "string \<Rightarrow> string \<times> string \<times> string" where
  "split_number s = (case dropWhile is_digit s of
     c # r \<Rightarrow> if c = CHR ''.'' then (takeWhile is_digit s, takeWhile is_digit r, dropWhile is_digit r)
             else (takeWhile is_digit s, [], c # r)
   | [] \<Rightarrow> (takeWhile is_digit s, [], []))"

abbreviation unit_char :: "char \<Rightarrow> bool" where
  "unit_char c \<equiv> c \<noteq> CHR ''.'' \<and> \<not> is_digit c"

text \<open>One part of a duration: its value, and what is left; \<open>None\<close> is an error.\<close>

definition duration_term :: "string \<Rightarrow> (int \<times> string) option" where
  "duration_term s = (case split_number s of (ds, fs, s2) \<Rightarrow>
     let u = takeWhile unit_char s2 in
     if ds = [] \<and> fs = [] \<or> u = [] then None
     else (case (leadingInt 0 ds, duration_unit u) of
         (Some v, Some unit) \<Rightarrow>
           if v > 2 ^ 63 div unit then None
           else (let (f, scale) = leadingFraction 0 1 fs;
                     v' = v * unit + (if f > 0 then \<lfloor>fl64 (fl64 (of_int f) * fl64 (of_int unit / scale))\<rfloor> else 0) in
                 if v' > 2 ^ 63 then None else Some (v', dropWhile unit_char s2))
       | _ \<Rightarrow> None))"

fun duration_terms :: "nat \<Rightarrow> int \<Rightarrow> string \<Rightarrow> int option" where
  "duration_terms 0 d s = (if s = [] then Some d else None)"
| "duration_terms (Suc n) d s = (if s = [] then Some d
     else (case duration_term s of
         None \<Rightarrow> None
       | Some (v, rest) \<Rightarrow> if d + v > 2 ^ 63 then None else duration_terms n (d + v) rest))"

text \<open>Every part takes at least one character, so the length of the string bounds the loop.\<close>

definition time_ParseDuration :: "string \<Rightarrow> int option" where
  "time_ParseDuration s0 = (let (neg, s) = strip_sign s0 in
     if s = ''0'' then Some 0
     else if s = [] then None
     else (case duration_terms (length s) 0 s of
         None \<Rightarrow> None
       | Some d \<Rightarrow> if neg then Some (- d) else if d > 2 ^ 63 - 1 then None else Some d))"

lemma split_number_shorter: "split_number s = (ds, fs, s2) \<Longrightarrow> length s2 \<le> length s"
  using length_dropWhile_le[of is_digit s]
  by (auto simp: split_number_def split: list.splits if_splits intro: le_trans[OF length_dropWhile_le])

lemma duration_term_shorter:
  assumes "duration_term s = Some (v, rest)"
  shows "length rest < length s"
proof -
  obtain ds fs s2 where s2: "split_number s = (ds, fs, s2)" by (metis prod_cases3)
  then have rest: "rest = dropWhile unit_char s2" and u: "takeWhile unit_char s2 \<noteq> []"
    using assms by (auto simp: duration_term_def Let_def split: if_splits option.splits prod.splits)
  have "length (takeWhile unit_char s2) + length rest = length s2"
    unfolding rest by (metis length_append takeWhile_dropWhile_id)
  moreover have "0 < length (takeWhile unit_char s2)" using u by (rule length_greater_0_conv[THEN iffD2])
  ultimately show ?thesis using split_number_shorter[OF s2] by linarith
qed

text \<open>The bound on the number of parts is no restriction.\<close>

lemma duration_terms_fuel: "length s \<le> n \<Longrightarrow> duration_terms n d s = duration_terms (length s) d s"
proof (induction n arbitrary: d s rule: less_induct)
  case (less n)
  show ?case
  proof (cases s)
    case (Cons c cs)
    obtain m where m: "n = Suc m" using less.prems Cons by (cases n) auto
    have "duration_terms m d' r = duration_terms (length cs) d' r" if "duration_term s = Some (v, r)" for v r d'
    proof -
      have "length r \<le> length cs" using duration_term_shorter[OF that] Cons by simp
      then show ?thesis using less.IH[of m r d'] less.IH[of "length cs" r d'] less.prems m Cons by fastforce
    qed
    then show ?thesis by (auto simp: m Cons split: option.splits)
  qed (cases n; simp)
qed

end
