(* ===== verification/Postgres_Config.thy ===== *)
theory Postgres_Config
  imports Go_Float
begin

text \<open>
  The Postgres settings a user may change (\<open>internal/postgrescfg\<close>): the specification of a parameter, the parsers of
  its values, the validation of a value and the adjustment of a value to bounds, the defaults per instance type and
  their merge, and the filters by version, extension and preloaded library.

  The parameters of \<open>parameters.yaml\<close> are in \<open>Postgres_Defaults\<close>; here they are the argument \<open>params\<close>.  The
  extensions of an image come from \<open>internal/extensions\<close>: the argument \<open>exts\<close> is \<open>None\<close> when no image is given, and
  else tells for each extension of the image whether it must be preloaded.  A \<open>nil\<close> slice of libraries is \<open>None\<close>.
  Section, documentation link and recommendation of a parameter are prose that no code of the package reads.  A Go map
  that is ranged over is a list of pairs with distinct keys, one that is only read is a map; a panic is \<open>None\<close>.
  Texts of errors are left out: one constructor of \<open>cfg_err\<close> stands for one \<open>fmt.Errorf\<close>.  Values are ASCII.
\<close>

section \<open>Specifications\<close>

datatype ParameterType = ParamTypeUnset | ParameterTypeString | ParamTypeInt | ParamTypeFloat | ParamTypeBytes
  | ParamTypeEnum | ParamTypeDuration | ParamTypeBoolean

record PostgresParameterSpec =
  ps_Type :: ParameterType
  ps_Description :: string
  ps_DefaultValue :: string
  ps_MinValue :: string
  ps_MaxValue :: string
  ps_Values :: "string list"
  ps_RestartRequired :: bool
  ps_AllowEmpty :: bool
  ps_PostgresMinimumVersion :: "int option"
  ps_Extension :: string

datatype cfg_err =
    ControlCharacters | EmptyString | UnknownType
  | InvalidValue string | InvalidMin string | InvalidMax string | BelowMinimum | AboveMaximum
  | NoAllowedValues | NotAllowed string | NotBoolean string
  | UnknownParameter string | UnknownInstanceSize string | InvalidInstanceType string | UnknownParameterType string

record yamlParameterSpec =
  ys_ParameterType :: string
  ys_Description :: string
  ys_DefaultValue :: string
  ys_MinValue :: string
  ys_MaxValue :: string
  ys_Values :: "string list"
  ys_RestartRequired :: bool
  ys_AllowEmpty :: bool
  ys_PostgresMinimumVersion :: "int option"
  ys_Extension :: string

definition type_of_yaml :: "string \<Rightarrow> ParameterType option" where
  "type_of_yaml = map_of [(''string'', ParameterTypeString), (''int'', ParamTypeInt), (''float'', ParamTypeFloat),
     (''bytes'', ParamTypeBytes), (''enum'', ParamTypeEnum), (''duration'', ParamTypeDuration), (''boolean'', ParamTypeBoolean)]"

definition convertYAMLSpec :: "yamlParameterSpec \<Rightarrow> cfg_err + PostgresParameterSpec" where
  "convertYAMLSpec y = (case type_of_yaml (ys_ParameterType y) of
     None \<Rightarrow> Inl (UnknownParameterType (ys_ParameterType y))
   | Some t \<Rightarrow> Inr \<lparr>ps_Type = t, ps_Description = ys_Description y, ps_DefaultValue = ys_DefaultValue y,
       ps_MinValue = ys_MinValue y, ps_MaxValue = ys_MaxValue y, ps_Values = ys_Values y,
       ps_RestartRequired = ys_RestartRequired y, ps_AllowEmpty = ys_AllowEmpty y,
       ps_PostgresMinimumVersion = ys_PostgresMinimumVersion y, ps_Extension = ys_Extension y\<rparr>)"

section \<open>Parsing values\<close>

text \<open>The loop that runs back to the last digit, point or minus and cuts the string after it.\<close>

definition num_char :: "char \<Rightarrow> bool" where
  "num_char c \<longleftrightarrow> is_digit c \<or> c = CHR ''.'' \<or> c = CHR ''-''"

definition split_unit :: "string \<Rightarrow> string \<times> string" where
  "split_unit s = (let unit = rev (takeWhile (\<lambda>c. \<not> num_char c) (rev s)) in
     if length unit = length s then ([], []) else (take (length s - length unit) s, unit))"

definition byte_unit :: "string \<Rightarrow> int option" where
  "byte_unit = map_of [(''B'', 1), ('''', 1), (''kB'', 1024), (''MB'', 1024 ^ 2), (''GB'', 1024 ^ 3), (''TB'', 1024 ^ 4)]"

definition parseBytes :: "(fval \<Rightarrow> int) \<Rightarrow> string \<Rightarrow> int option" where
  "parseBytes oob s0 = (let s = TrimSpace s0 in
     if s = ''0B'' then Some 0
     else (case split_unit s of (numStr, unit) \<Rightarrow>
       if numStr = [] then None
       else (case ParseFloat numStr of
           None \<Rightarrow> None
         | Some num \<Rightarrow> (case byte_unit unit of
             None \<Rightarrow> None
           | Some multiplier \<Rightarrow> Some (f_int64 oob (f_scale num (of_int multiplier)))))))"

definition pg_unit :: "string \<Rightarrow> int option" where
  "pg_unit = map_of [('''', 0), (''s'', second_ns), (''min'', minute_ns), (''h'', hour_ns), (''d'', 24 * hour_ns)]"

definition parseDuration :: "(fval \<Rightarrow> int) \<Rightarrow> string \<Rightarrow> int option" where
  "parseDuration oob s0 = (let s = map lower (TrimSpace s0) in
     if s = ''0'' then Some 0
     else (case time_ParseDuration s of
         Some d \<Rightarrow> Some d
       | None \<Rightarrow> (case split_unit s of (numStr, unit) \<Rightarrow>
           if numStr = [] then None
           else (case pg_unit unit of
               None \<Rightarrow> None
             | Some multiplier \<Rightarrow> (case ParseFloat numStr of
                 None \<Rightarrow> None
               | Some num \<Rightarrow> Some (f_int64 oob (f_scale num (of_int multiplier))))))))"

section \<open>Validation\<close>

text \<open>
  The validations of integers, floats, sizes and durations are the same code for different parsers, and so are the
  adjustments.
\<close>

definition validate_with :: "(string \<Rightarrow> 'v option) \<Rightarrow> ('v \<Rightarrow> 'v \<Rightarrow> bool) \<Rightarrow> PostgresParameterSpec \<Rightarrow> string \<Rightarrow> cfg_err + unit" where
  "validate_with parse lt spec value = (case parse value of
     None \<Rightarrow> Inl (InvalidValue value)
   | Some val \<Rightarrow>
       let checkMax = (if ps_MaxValue spec \<noteq> '''' then
             (case parse (ps_MaxValue spec) of
                None \<Rightarrow> Inl (InvalidMax (ps_MaxValue spec))
              | Some maxVal \<Rightarrow> if lt maxVal val then Inl AboveMaximum else Inr ())
           else Inr ()) in
       if ps_MinValue spec \<noteq> '''' then
         (case parse (ps_MinValue spec) of
            None \<Rightarrow> Inl (InvalidMin (ps_MinValue spec))
          | Some minVal \<Rightarrow> if lt val minVal then Inl BelowMinimum else checkMax)
       else checkMax)"

definition validateIntValue :: "PostgresParameterSpec \<Rightarrow> string \<Rightarrow> cfg_err + unit" where
  "validateIntValue = validate_with ParseInt (<)"

definition validateFloatValue :: "PostgresParameterSpec \<Rightarrow> string \<Rightarrow> cfg_err + unit" where
  "validateFloatValue = validate_with ParseFloat f_less"

definition validateBytesValue :: "(fval \<Rightarrow> int) \<Rightarrow> PostgresParameterSpec \<Rightarrow> string \<Rightarrow> cfg_err + unit" where
  "validateBytesValue oob = validate_with (parseBytes oob) (<)"

definition validateDurationValue :: "(fval \<Rightarrow> int) \<Rightarrow> PostgresParameterSpec \<Rightarrow> string \<Rightarrow> cfg_err + unit" where
  "validateDurationValue oob = validate_with (parseDuration oob) (<)"

definition validateEnumValue :: "PostgresParameterSpec \<Rightarrow> string \<Rightarrow> cfg_err + unit" where
  "validateEnumValue spec value = (if ps_Values spec = [] then Inl NoAllowedValues
     else if value \<in> set (ps_Values spec) then Inr () else Inl (NotAllowed value))"

definition validateBooleanValue :: "PostgresParameterSpec \<Rightarrow> string \<Rightarrow> cfg_err + unit" where
  "validateBooleanValue spec value = (if value \<in> {''true'', ''on'', ''yes'', ''1''} then Inr ()
     else if value \<in> {''false'', ''off'', ''no'', ''0''} then Inr () else Inl (NotBoolean value))"

definition ValidateParameterValue :: "(fval \<Rightarrow> int) \<Rightarrow> PostgresParameterSpec \<Rightarrow> string \<Rightarrow> cfg_err + unit" where
  "ValidateParameterValue oob spec value0 =
     (if list_ex IsControl value0 then Inl ControlCharacters
      else let value = TrimSpace value0 in
        case ps_Type spec of
          ParamTypeInt \<Rightarrow> validateIntValue spec value
        | ParamTypeFloat \<Rightarrow> validateFloatValue spec value
        | ParamTypeBytes \<Rightarrow> validateBytesValue oob spec value
        | ParamTypeEnum \<Rightarrow> validateEnumValue spec value
        | ParamTypeDuration \<Rightarrow> validateDurationValue oob spec value
        | ParamTypeBoolean \<Rightarrow> validateBooleanValue spec value
        | ParameterTypeString \<Rightarrow> if value = '''' \<and> \<not> ps_AllowEmpty spec then Inl EmptyString else Inr ()
        | ParamTypeUnset \<Rightarrow> Inl UnknownType)"

section \<open>Adjustment to bounds\<close>

definition adjust_with :: "(string \<Rightarrow> 'v option) \<Rightarrow> ('v \<Rightarrow> 'v \<Rightarrow> bool) \<Rightarrow> string \<Rightarrow> string \<Rightarrow> string \<Rightarrow> string \<times> bool" where
  "adjust_with parse lt value minValue maxValue = (case parse value of
     None \<Rightarrow> (value, False)
   | Some val \<Rightarrow>
       let adjusted = (if minValue \<noteq> '''' then
             (case parse minValue of Some minVal \<Rightarrow> if lt val minVal then minValue else value | None \<Rightarrow> value)
           else value);
         adjusted' = (if maxValue \<noteq> '''' then
             (case parse maxValue of Some maxVal \<Rightarrow> if lt maxVal val then maxValue else adjusted | None \<Rightarrow> adjusted)
           else adjusted) in
       (adjusted', True))"

definition adjustIntValueToBounds :: "string \<Rightarrow> string \<Rightarrow> string \<Rightarrow> string \<times> bool" where
  "adjustIntValueToBounds = adjust_with ParseInt (<)"

definition adjustFloatValueToBounds :: "string \<Rightarrow> string \<Rightarrow> string \<Rightarrow> string \<times> bool" where
  "adjustFloatValueToBounds = adjust_with ParseFloat f_less"

definition adjustBytesValueToBounds :: "(fval \<Rightarrow> int) \<Rightarrow> string \<Rightarrow> string \<Rightarrow> string \<Rightarrow> string \<times> bool" where
  "adjustBytesValueToBounds oob = adjust_with (parseBytes oob) (<)"

definition adjustDurationValueToBounds :: "(fval \<Rightarrow> int) \<Rightarrow> string \<Rightarrow> string \<Rightarrow> string \<Rightarrow> string \<times> bool" where
  "adjustDurationValueToBounds oob = adjust_with (parseDuration oob) (<)"

definition AdjustValueToBounds :: "(fval \<Rightarrow> int) \<Rightarrow> string \<Rightarrow> PostgresParameterSpec \<Rightarrow> string" where
  "AdjustValueToBounds oob value spec =
     (if ps_MinValue spec = '''' \<and> ps_MaxValue spec = '''' then value
      else let result = (case ps_Type spec of
          ParamTypeInt \<Rightarrow> Some (adjustIntValueToBounds value (ps_MinValue spec) (ps_MaxValue spec))
        | ParamTypeFloat \<Rightarrow> Some (adjustFloatValueToBounds value (ps_MinValue spec) (ps_MaxValue spec))
        | ParamTypeBytes \<Rightarrow> Some (adjustBytesValueToBounds oob value (ps_MinValue spec) (ps_MaxValue spec))
        | ParamTypeDuration \<Rightarrow> Some (adjustDurationValueToBounds oob value (ps_MinValue spec) (ps_MaxValue spec))
        | _ \<Rightarrow> None) in
        case result of Some (adjusted, True) \<Rightarrow> adjusted | _ \<Rightarrow> value)"

section \<open>Which parameters there are\<close>

type_synonym ParametersMap = "(string \<times> PostgresParameterSpec) list"
type_synonym image_exts = "(string \<rightharpoonup> bool) option"

definition configurable :: "int \<Rightarrow> image_exts \<Rightarrow> string list option \<Rightarrow> PostgresParameterSpec \<Rightarrow> bool" where
  "configurable majorVersion exts preload spec \<longleftrightarrow>
     \<not> (majorVersion \<noteq> 0 \<and> (case ps_PostgresMinimumVersion spec of Some v \<Rightarrow> v > majorVersion | None \<Rightarrow> False)) \<and>
     (if ps_Extension spec \<noteq> '''' then
        (case exts of
           None \<Rightarrow> True
         | Some available \<Rightarrow> (case available (ps_Extension spec) of
             None \<Rightarrow> False
           | Some preloadRequired \<Rightarrow>
               \<not> ((case preload of None \<Rightarrow> False | Some libs \<Rightarrow> preloadRequired \<and> ps_Extension spec \<notin> set libs))))
      else True)"

definition GetConfigurableParameters :: "ParametersMap \<Rightarrow> int \<Rightarrow> image_exts \<Rightarrow> string list option \<Rightarrow> ParametersMap" where
  "GetConfigurableParameters params majorVersion exts preload = filter (\<lambda>(name, spec). configurable majorVersion exts preload spec) params"

definition FilterConfigurableParameters ::
  "ParametersMap \<Rightarrow> (string \<times> string) list \<Rightarrow> int \<Rightarrow> image_exts \<Rightarrow> string list option \<Rightarrow> (string \<times> string) list" where
  "FilterConfigurableParameters params settings majorVersion exts preload =
     filter (\<lambda>(key, value). map_of (GetConfigurableParameters params majorVersion exts preload) key \<noteq> None) settings"

section \<open>Defaults per instance type\<close>

definition or_base :: "'a list \<Rightarrow> 'a list \<Rightarrow> 'a list" where
  "or_base override base = (if override \<noteq> [] then override else base)"

definition merge_spec :: "PostgresParameterSpec \<Rightarrow> PostgresParameterSpec \<Rightarrow> PostgresParameterSpec" where
  "merge_spec overrideVal baseVal = baseVal\<lparr>
     ps_DefaultValue := or_base (ps_DefaultValue overrideVal) (ps_DefaultValue baseVal),
     ps_MinValue := or_base (ps_MinValue overrideVal) (ps_MinValue baseVal),
     ps_MaxValue := or_base (ps_MaxValue overrideVal) (ps_MaxValue baseVal),
     ps_Description := or_base (ps_Description overrideVal) (ps_Description baseVal),
     ps_Values := or_base (ps_Values overrideVal) (ps_Values baseVal)\<rparr>"

text \<open>One turn of the loop over the overrides; a key that the base does not have panics.\<close>

fun MergeParametersMaps :: "ParametersMap \<Rightarrow> ParametersMap \<Rightarrow> ParametersMap option" where
  "MergeParametersMaps merged [] = Some merged"
| "MergeParametersMaps merged ((k, overrideVal) # override) =
     (case map_of merged k of
        None \<Rightarrow> None
      | Some baseVal \<Rightarrow> MergeParametersMaps (map (\<lambda>(n, s). if n = k then (n, merge_spec overrideVal baseVal) else (n, s)) merged) override)"

definition GetDefaultPostgresConfigByInstanceType :: "(string \<rightharpoonup> ParametersMap) \<Rightarrow> string \<Rightarrow> cfg_err + ParametersMap" where
  "GetDefaultPostgresConfigByInstanceType byInstance instanceName = (case byInstance instanceName of
     None \<Rightarrow> Inl (UnknownInstanceSize instanceName) | Some p \<Rightarrow> Inr p)"

definition GetParametersSpec :: "ParametersMap \<Rightarrow> (string \<rightharpoonup> ParametersMap) \<Rightarrow> string \<Rightarrow> int \<Rightarrow> image_exts \<Rightarrow> string list option \<Rightarrow>
   (cfg_err + ParametersMap) option" where
  "GetParametersSpec params byInstance instanceType majorVersion exts preload =
     (case GetDefaultPostgresConfigByInstanceType byInstance instanceType of
        Inl err \<Rightarrow> Some (Inl err)
      | Inr overrides \<Rightarrow> map_option Inr (MergeParametersMaps (GetConfigurableParameters params majorVersion exts preload) overrides))"

definition GetDefaultPostgresParameters :: "ParametersMap \<Rightarrow> (string \<rightharpoonup> ParametersMap) \<Rightarrow> string \<Rightarrow> int \<Rightarrow> image_exts \<Rightarrow> string list option \<Rightarrow>
   (cfg_err + (string \<times> string) list) option" where
  "GetDefaultPostgresParameters params byInstance instanceType majorVersion exts preload =
     (case GetDefaultPostgresConfigByInstanceType byInstance instanceType of
        Inl err \<Rightarrow> Some (Inl err)
      | Inr overrides \<Rightarrow> map_option (\<lambda>merged. Inr (map (\<lambda>(k, v). (k, ps_DefaultValue v)) merged))
          (MergeParametersMaps (GetConfigurableParameters params majorVersion exts preload) overrides))"

definition setting_error :: "(fval \<Rightarrow> int) \<Rightarrow> ParametersMap \<Rightarrow> string \<Rightarrow> string \<Rightarrow> cfg_err option" where
  "setting_error oob merged paramName paramValue = (case map_of merged paramName of
     None \<Rightarrow> Some (UnknownParameter paramName)
   | Some spec \<Rightarrow> (case ValidateParameterValue oob spec paramValue of Inl err \<Rightarrow> Some err | Inr _ \<Rightarrow> None))"

text \<open>The errors per setting; the empty list is the \<open>nil\<close> of the code.\<close>

definition ValidateSettings :: "(fval \<Rightarrow> int) \<Rightarrow> ParametersMap \<Rightarrow> (string \<rightharpoonup> ParametersMap) \<Rightarrow> string \<Rightarrow> (string \<times> string) list \<Rightarrow> int \<Rightarrow>
   image_exts \<Rightarrow> string list option \<Rightarrow> (cfg_err + (string \<times> cfg_err) list) option" where
  "ValidateSettings oob params byInstance instanceType settings majorVersion exts preload =
     (case GetDefaultPostgresConfigByInstanceType byInstance instanceType of
        Inl _ \<Rightarrow> Some (Inl (InvalidInstanceType instanceType))
      | Inr instanceParams \<Rightarrow> map_option (\<lambda>mergedParams. Inr (List.map_filter (\<lambda>(paramName, paramValue).
            map_option (Pair paramName) (setting_error oob mergedParams paramName paramValue)) settings))
          (MergeParametersMaps (GetConfigurableParameters params majorVersion exts preload) instanceParams))"

datatype ConfigValueType = ConfigValueDefault | ConfigValueInstanceDefault | ConfigValueCustom

definition DetermineConfigValueType :: "ParametersMap \<Rightarrow> (string \<rightharpoonup> ParametersMap) \<Rightarrow> string \<Rightarrow> string \<Rightarrow> string \<Rightarrow> int \<Rightarrow> image_exts \<Rightarrow>
   string list option \<Rightarrow> ConfigValueType \<times> cfg_err option" where
  "DetermineConfigValueType params byInstance instanceSize paramName paramValue majorVersion exts preload =
     (case map_of (GetConfigurableParameters params majorVersion exts preload) paramName of
        None \<Rightarrow> (ConfigValueCustom, Some (UnknownParameter paramName))
      | Some postgresDefault \<Rightarrow> (case GetDefaultPostgresConfigByInstanceType byInstance instanceSize of
          Inl err \<Rightarrow> (ConfigValueCustom, Some err)
        | Inr instanceParams \<Rightarrow>
            (case map_of instanceParams paramName of
               Some instanceParam \<Rightarrow> if ps_DefaultValue instanceParam = paramValue then (ConfigValueInstanceDefault, None)
                 else if ps_DefaultValue postgresDefault = paramValue then (ConfigValueDefault, None) else (ConfigValueCustom, None)
             | None \<Rightarrow> if ps_DefaultValue postgresDefault = paramValue then (ConfigValueDefault, None) else (ConfigValueCustom, None))))"

section \<open>Preloaded libraries\<close>

definition defaultPreloadLibraries :: "string \<rightharpoonup> string list" where
  "defaultPreloadLibraries = map_of [(''postgres'', [''pg_stat_statements'', ''auto_explain'']),
     (''experimental'', [''pg_stat_statements'', ''auto_explain'']),
     (''analytics'', [''pg_stat_statements'', ''auto_explain'', ''pg_duckdb''])]"

definition internalPreloadLibraries :: "string list" where
  "internalPreloadLibraries = [''xatautils'']"

definition GetInternalPreloadLibraries :: "string list" where
  "GetInternalPreloadLibraries = internalPreloadLibraries"

definition FilterOutInternalPreloadLibraries :: "string list \<Rightarrow> string list" where
  "FilterOutInternalPreloadLibraries libraries = filter (\<lambda>lib. lib \<notin> set internalPreloadLibraries) libraries"

text \<open>\<open>available\<close> are the extensions of the image that must be preloaded.\<close>

fun ValidatePreloadLibraries :: "string set \<Rightarrow> string list \<Rightarrow> string + unit" where
  "ValidatePreloadLibraries available [] = Inr ()"
| "ValidatePreloadLibraries available (lib # libraries) =
     (if lib \<notin> available then Inl lib else ValidatePreloadLibraries available libraries)"

section \<open>Values of an ordered type with bounds\<close>

definition bounds_ok :: "(string \<Rightarrow> 'v option) \<Rightarrow> ('v \<Rightarrow> 'v \<Rightarrow> bool) \<Rightarrow> PostgresParameterSpec \<Rightarrow> bool" where
  "bounds_ok parse lt spec \<longleftrightarrow>
     (ps_MinValue spec \<noteq> '''' \<longrightarrow> parse (ps_MinValue spec) \<noteq> None) \<and>
     (ps_MaxValue spec \<noteq> '''' \<longrightarrow> parse (ps_MaxValue spec) \<noteq> None) \<and>
     (case (parse (ps_MinValue spec), parse (ps_MaxValue spec)) of
        (Some lo, Some hi) \<Rightarrow> ps_MinValue spec \<noteq> '''' \<longrightarrow> ps_MaxValue spec \<noteq> '''' \<longrightarrow> \<not> lt hi lo
      | _ \<Rightarrow> True)"

definition in_bounds :: "(string \<Rightarrow> 'v option) \<Rightarrow> ('v \<Rightarrow> 'v \<Rightarrow> bool) \<Rightarrow> PostgresParameterSpec \<Rightarrow> 'v \<Rightarrow> bool" where
  "in_bounds parse lt spec v \<longleftrightarrow>
     (ps_MinValue spec \<noteq> '''' \<longrightarrow> (\<exists>lo. parse (ps_MinValue spec) = Some lo \<and> \<not> lt v lo)) \<and>
     (ps_MaxValue spec \<noteq> '''' \<longrightarrow> (\<exists>hi. parse (ps_MaxValue spec) = Some hi \<and> \<not> lt hi v))"

lemma validate_with_iff:
  "validate_with parse lt spec value = Inr () \<longleftrightarrow> (\<exists>v. parse value = Some v \<and> in_bounds parse lt spec v)"
  by (auto simp: validate_with_def in_bounds_def Let_def split: option.splits)

text \<open>A text that validation and adjustment read in the same way: no control characters, no blanks around it.\<close>

definition plain :: "string \<Rightarrow> bool" where
  "plain s \<longleftrightarrow> \<not> list_ex IsControl s \<and> TrimSpace s = s"

text \<open>What the parsers and comparisons of the four types have in common.\<close>

locale bounded_values =
  fixes parse :: "string \<Rightarrow> 'v option" and lt :: "'v \<Rightarrow> 'v \<Rightarrow> bool"
  assumes lt_irrefl: "\<not> lt v v"
    and lt_trans: "lt u v \<Longrightarrow> lt v w \<Longrightarrow> lt u w"
begin

lemma adjusted_value:
  assumes "bounds_ok parse lt spec" "parse value \<noteq> None" "plain value" "plain (ps_MinValue spec)" "plain (ps_MaxValue spec)"
  shows "\<exists>u. adjust_with parse lt value (ps_MinValue spec) (ps_MaxValue spec) = (u, True) \<and> plain u \<and>
    validate_with parse lt spec u = Inr () \<and> (ps_MinValue spec = [] \<longrightarrow> ps_MaxValue spec = [] \<longrightarrow> u = value)"
  using assms lt_irrefl lt_trans
  by (auto simp: adjust_with_def bounds_ok_def validate_with_iff in_bounds_def Let_def split: option.splits if_splits)

lemma valid_value_kept:
  assumes "validate_with parse lt spec value = Inr ()"
  shows "adjust_with parse lt value (ps_MinValue spec) (ps_MaxValue spec) = (value, True)"
  using assms by (auto simp: adjust_with_def validate_with_iff in_bounds_def Let_def split: option.splits)

end

lemma f_less_irrefl: "\<not> f_less v v"
  by (cases v) auto

lemma f_less_trans: "f_less u v \<Longrightarrow> f_less v w \<Longrightarrow> f_less u w"
  by (cases u; cases v; cases w) auto

interpretation int_values: bounded_values ParseInt "(<)"
  by unfold_locales auto

interpretation floats: bounded_values ParseFloat f_less
  by unfold_locales (fact f_less_irrefl, fact f_less_trans)

interpretation sizes: bounded_values "parseBytes oob" "(<)" for oob
  by unfold_locales auto

interpretation durations: bounded_values "parseDuration oob" "(<)" for oob
  by unfold_locales auto

fun ordered_spec :: "(fval \<Rightarrow> int) \<Rightarrow> PostgresParameterSpec \<Rightarrow> ParameterType \<Rightarrow> bool" where
  "ordered_spec oob spec ParamTypeInt = bounds_ok ParseInt (<) spec"
| "ordered_spec oob spec ParamTypeFloat = bounds_ok ParseFloat f_less spec"
| "ordered_spec oob spec ParamTypeBytes = bounds_ok (parseBytes oob) (<) spec"
| "ordered_spec oob spec ParamTypeDuration = bounds_ok (parseDuration oob) (<) spec"
| "ordered_spec oob spec _ = False"

definition sound_bounds :: "(fval \<Rightarrow> int) \<Rightarrow> PostgresParameterSpec \<Rightarrow> bool" where
  "sound_bounds oob spec \<longleftrightarrow> plain (ps_MinValue spec) \<and> plain (ps_MaxValue spec) \<and> ordered_spec oob spec (ps_Type spec)"

fun parses :: "(fval \<Rightarrow> int) \<Rightarrow> ParameterType \<Rightarrow> string \<Rightarrow> bool" where
  "parses oob ParamTypeInt value = (ParseInt value \<noteq> None)"
| "parses oob ParamTypeFloat value = (ParseFloat value \<noteq> None)"
| "parses oob ParamTypeBytes value = (parseBytes oob value \<noteq> None)"
| "parses oob ParamTypeDuration value = (parseDuration oob value \<noteq> None)"
| "parses oob _ value = True"

lemmas validate_defs = validateIntValue_def validateFloatValue_def validateBytesValue_def validateDurationValue_def
lemmas adjust_defs = adjustIntValueToBounds_def adjustFloatValueToBounds_def adjustBytesValueToBounds_def adjustDurationValueToBounds_def

text \<open>C18. Adjusting a value to the bounds of a parameter gives a valid value: when the bounds parse and are in order,
  every value of the parameter's type, written without blanks around it and without control characters, is adjusted to
  one that the validation accepts, and a value that was valid is left as it is.\<close>

theorem adjusted_value_is_valid:
  assumes "sound_bounds oob spec" "plain x" "parses oob (ps_Type spec) x"
  shows "ValidateParameterValue oob spec (AdjustValueToBounds oob x spec) = Inr () \<and>
    (ValidateParameterValue oob spec x = Inr () \<longrightarrow> AdjustValueToBounds oob x spec = x)"
proof -
  have p: "plain x" "plain (ps_MinValue spec)" "plain (ps_MaxValue spec)" using assms(1,2) by (simp_all add: sound_bounds_def)
  have valid: "ValidateParameterValue oob spec u = (case ps_Type spec of ParamTypeInt \<Rightarrow> validateIntValue spec u
      | ParamTypeFloat \<Rightarrow> validateFloatValue spec u | ParamTypeBytes \<Rightarrow> validateBytesValue oob spec u
      | _ \<Rightarrow> validateDurationValue oob spec u)" if "plain u" for u
    using that assms(1) by (cases "ps_Type spec") (simp_all add: ValidateParameterValue_def plain_def sound_bounds_def)
  show ?thesis
  proof (cases "ps_Type spec")
    case ParamTypeInt
    then show ?thesis using int_values.adjusted_value[of spec x] int_values.valid_value_kept[of spec x] p assms valid
      by (auto simp: AdjustValueToBounds_def sound_bounds_def validate_defs adjust_defs)
  next
    case ParamTypeFloat
    then show ?thesis using floats.adjusted_value[of spec x] floats.valid_value_kept[of spec x] p assms valid
      by (auto simp: AdjustValueToBounds_def sound_bounds_def validate_defs adjust_defs)
  next
    case ParamTypeBytes
    then show ?thesis using sizes.adjusted_value[of oob spec x] sizes.valid_value_kept[of oob spec x] p assms valid
      by (auto simp: AdjustValueToBounds_def sound_bounds_def validate_defs adjust_defs)
  next
    case ParamTypeDuration
    then show ?thesis using durations.adjusted_value[of oob spec x] durations.valid_value_kept[of oob spec x] p assms valid
      by (auto simp: AdjustValueToBounds_def sound_bounds_def validate_defs adjust_defs)
  qed (use assms(1) in \<open>simp_all add: sound_bounds_def\<close>)
qed

text \<open>What a conversion out of range gives on amd64, and a parameter with bounds.\<close>

definition oob_min :: "fval \<Rightarrow> int" where
  "oob_min v = int64_min"

definition unset_spec :: PostgresParameterSpec where
  "unset_spec = \<lparr>ps_Type = ParamTypeUnset, ps_Description = '''', ps_DefaultValue = '''', ps_MinValue = '''', ps_MaxValue = '''',
     ps_Values = [], ps_RestartRequired = False, ps_AllowEmpty = False, ps_PostgresMinimumVersion = None, ps_Extension = ''''\<rparr>"

definition demo_spec :: PostgresParameterSpec where
  "demo_spec = unset_spec\<lparr>ps_Type := ParamTypeInt, ps_MinValue := ''0'', ps_MaxValue := ''150''\<rparr>"

theorem adjusted_value_is_valid_witness:
  "ValidateParameterValue oob_min demo_spec (AdjustValueToBounds oob_min ''900'' demo_spec) = Inr ()"
proof -
  have "sound_bounds oob_min demo_spec" "plain ''900''" "parses oob_min (ps_Type demo_spec) ''900''" by code_simp+
  from adjusted_value_is_valid[OF this] show ?thesis by (rule conjunct1)
qed

section \<open>The merge, pointwise\<close>

lemma map_of_replace:
  "map_of (map (\<lambda>(n, s). if n = k then (n, v) else (n, s)) m) j = (if j = k then map_option (\<lambda>_. v) (map_of m k) else map_of m j)"
  by (induction m) auto

lemma fst_replace: "map fst (map (\<lambda>(n, s). if n = k then (n, v) else (n, s)) m) = map fst m"
  by (induction m) auto

definition merged_at :: "ParametersMap \<Rightarrow> ParametersMap \<Rightarrow> string \<Rightarrow> PostgresParameterSpec option" where
  "merged_at base override k = (case map_of override k of
     None \<Rightarrow> map_of base k
   | Some overrideVal \<Rightarrow> map_option (merge_spec overrideVal) (map_of base k))"

lemma merge_pointwise:
  assumes "distinct (map fst override)"
  shows "case MergeParametersMaps base override of
      None \<Rightarrow> \<exists>k\<in>fst ` set override. map_of base k = None
    | Some merged \<Rightarrow> fst ` set override \<subseteq> fst ` set base \<and> map fst merged = map fst base \<and> map_of merged = merged_at base override"
  using assms
proof (induction base override rule: MergeParametersMaps.induct)
  case (1 merged)
  then show ?case by (simp add: merged_at_def[abs_def])
next
  case (2 merged k overrideVal override)
  show ?case
  proof (cases "map_of merged k")
    case None
    then show ?thesis by simp
  next
    case (Some baseVal)
    let ?m = "map (\<lambda>(n, s). if n = k then (n, merge_spec overrideVal baseVal) else (n, s)) merged"
    have keys: "map_of ?m j = None \<longleftrightarrow> map_of merged j = None" for j using Some by (simp add: map_of_replace)
    have "fst ` set ?m = set (map fst ?m)" by (rule set_map[symmetric])
    also have "\<dots> = fst ` set merged" by (simp only: fst_replace set_map)
    finally have same: "fst ` set ?m = fst ` set merged" .
    have fresh: "map_of override k = None" using 2(2) by (simp add: map_of_eq_None_iff)
    have "merged_at ?m override = merged_at merged ((k, overrideVal) # override)"
      using fresh Some by (auto simp: merged_at_def map_of_replace fun_eq_iff split: option.splits)
    moreover have "k \<in> fst ` set merged" using Some by (metis map_of_eq_None_iff option.distinct(1))
    ultimately show ?thesis using 2(1)[OF Some] 2(2) Some keys same
      by (auto simp: fst_replace split: option.splits)
  qed
qed

text \<open>What an override means, field by field: a field it sets replaces the one of the base, a field it leaves empty does
  not, and the other fields of the specification cannot be overridden.\<close>

definition set_field :: "'a list \<Rightarrow> 'a list \<Rightarrow> 'a list \<Rightarrow> bool" where
  "set_field new old res \<longleftrightarrow> (new \<noteq> [] \<longrightarrow> res = new) \<and> (new = [] \<longrightarrow> res = old)"

definition field_merged :: "PostgresParameterSpec \<Rightarrow> PostgresParameterSpec \<Rightarrow> PostgresParameterSpec \<Rightarrow> bool" where
  "field_merged v b s \<longleftrightarrow> ps_Type s = ps_Type b \<and> ps_RestartRequired s = ps_RestartRequired b \<and> ps_AllowEmpty s = ps_AllowEmpty b \<and>
     ps_PostgresMinimumVersion s = ps_PostgresMinimumVersion b \<and> ps_Extension s = ps_Extension b \<and>
     set_field (ps_DefaultValue v) (ps_DefaultValue b) (ps_DefaultValue s) \<and> set_field (ps_MinValue v) (ps_MinValue b) (ps_MinValue s) \<and>
     set_field (ps_MaxValue v) (ps_MaxValue b) (ps_MaxValue s) \<and> set_field (ps_Description v) (ps_Description b) (ps_Description s) \<and>
     set_field (ps_Values v) (ps_Values b) (ps_Values s)"

lemma merge_spec_fields: "field_merged v b (merge_spec v b)"
  by (simp add: field_merged_def merge_spec_def set_field_def or_base_def)

lemma assoc_list_eq:
  assumes "map fst xs = map fst ys" "distinct (map fst xs)" "map_of xs = map_of ys"
  shows "xs = ys"
  using assms
proof (induction xs ys rule: list_induct2')
  case (4 x xs y ys)
  have "snd x = snd y" using fun_cong[OF 4(4), of "fst x"] 4(2) by simp
  moreover have "map_of xs k = map_of ys k" for k
  proof (cases "k = fst x")
    case True
    then have "k \<notin> fst ` set xs" "k \<notin> fst ` set ys" using 4(2,3) by (auto simp: set_map[symmetric] simp del: set_map)
    then show ?thesis by (simp add: map_of_eq_None_iff[symmetric])
  next
    case False
    then show ?thesis using fun_cong[OF 4(4), of k] 4(2) by simp
  qed
  ultimately show ?case using 4(1-3) by (simp add: prod_eq_iff fun_eq_iff)
qed simp_all

lemma merge_any_order:
  assumes "distinct (map fst base)" "distinct (map fst override)" "distinct (map fst override')" "set override' = set override"
  shows "MergeParametersMaps base override' = MergeParametersMaps base override"
proof -
  have m: "map_of override' = map_of override" using map_of_inject_set[OF assms(3,2)] assms(4) by simp
  have "merged_at base override' = merged_at base override" by (simp add: merged_at_def[abs_def] m)
  then show ?thesis
    using merge_pointwise[OF assms(2), of base] merge_pointwise[OF assms(3), of base] assms(4) assms(1)
    by (auto simp: map_of_eq_None_iff split: option.splits intro: assoc_list_eq)
qed

text \<open>C20. \<open>MergeParametersMaps\<close> panics exactly when an override names a parameter the base does not have.  Otherwise
  the result has the parameters of the base; one without override is unchanged, and in one with an override each of default, minimum,
  maximum, description and values is the override's if that is not empty and the base's if it is, and the other fields are
  the base's.  The order in which Go walks the map of overrides does not matter.\<close>

theorem MergeParametersMaps_pointwise:
  assumes "distinct (map fst base)" "distinct (map fst override)"
  shows "(MergeParametersMaps base override = None \<longleftrightarrow> (\<exists>k\<in>fst ` set override. map_of base k = None))
    \<and> (\<forall>merged. MergeParametersMaps base override = Some merged \<longrightarrow> map fst merged = map fst base \<and>
         (\<forall>k b. map_of base k = Some b \<longrightarrow> (\<exists>s. map_of merged k = Some s \<and>
            (case map_of override k of None \<Rightarrow> s = b | Some v \<Rightarrow> field_merged v b s))))
    \<and> (\<forall>override'. distinct (map fst override') \<longrightarrow> set override' = set override \<longrightarrow>
         MergeParametersMaps base override' = MergeParametersMaps base override)"
proof (intro conjI allI impI)
  note merge = merge_pointwise[OF assms(2), of base]
  show "MergeParametersMaps base override = None \<longleftrightarrow> (\<exists>k\<in>fst ` set override. map_of base k = None)"
    using merge by (auto simp: map_of_eq_None_iff split: option.splits)
  fix merged assume m: "MergeParametersMaps base override = Some merged"
  then show "map fst merged = map fst base" using merge by simp
  fix k b assume "map_of base k = Some b"
  then show "\<exists>s. map_of merged k = Some s \<and> (case map_of override k of None \<Rightarrow> s = b | Some v \<Rightarrow> field_merged v b s)"
    using merge m by (simp add: merged_at_def merge_spec_fields split: option.split)
qed (rule merge_any_order[OF assms])

theorem MergeParametersMaps_pointwise_witness:
  "\<exists>merged s. MergeParametersMaps [(''a'', demo_spec)] [(''a'', unset_spec\<lparr>ps_MaxValue := ''9''\<rparr>)] = Some merged \<and>
     map_of merged ''a'' = Some s \<and> ps_MaxValue s = ''9'' \<and> ps_MinValue s = ps_MinValue demo_spec"
proof -
  let ?b = "[(''a'', demo_spec)]" and ?o = "[(''a'', unset_spec\<lparr>ps_MaxValue := ''9''\<rparr>)]"
  have "distinct (map fst ?b)" "distinct (map fst ?o)" by simp_all
  note merge = MergeParametersMaps_pointwise[OF this]
  from merge obtain merged where m: "MergeParametersMaps ?b ?o = Some merged" by (cases "MergeParametersMaps ?b ?o") simp_all
  have "map_of ?b ''a'' = Some demo_spec" by simp
  with merge m have "\<exists>s. map_of merged ''a'' = Some s \<and> (case map_of ?o ''a'' of None \<Rightarrow> s = demo_spec | Some v \<Rightarrow> field_merged v demo_spec s)"
    by blast
  then obtain s where "map_of merged ''a'' = Some s" "field_merged (unset_spec\<lparr>ps_MaxValue := ''9''\<rparr>) demo_spec s" by auto
  then show ?thesis using m by (auto simp: field_merged_def set_field_def unset_spec_def)
qed

end
