(* ===== verification/Postgres_Defaults.thy ===== *)
theory Postgres_Defaults
  imports Postgres_Config
begin

text \<open>
  The data of \<open>internal/postgrescfg\<close>: the parameters of the embedded \<open>parameters.yaml\<close> and the overrides per instance
  type of \<open>overrides.go\<close>, and what holds for them: every bound is a value of its parameter's type, no instance type
  overrides a parameter that does not exist, the defaults of every instance type pass the validation.  The descriptions
  in the file are the argument \<open>prose\<close>.
\<close>

section \<open>The file\<close>

definition yaml_param :: "(string \<Rightarrow> string) \<Rightarrow> string \<Rightarrow> string \<Rightarrow> string \<Rightarrow> string \<Rightarrow> string \<Rightarrow> string \<times> yamlParameterSpec" where
  "yaml_param prose name ty d lo hi = (name, \<lparr>ys_ParameterType = ty, ys_Description = prose name, ys_DefaultValue = d,
     ys_MinValue = lo, ys_MaxValue = hi, ys_Values = [], ys_RestartRequired = False, ys_AllowEmpty = False,
     ys_PostgresMinimumVersion = None, ys_Extension = ''''\<rparr>)"

definition with_yaml :: "(yamlParameterSpec \<Rightarrow> yamlParameterSpec) \<Rightarrow> string \<times> yamlParameterSpec \<Rightarrow> string \<times> yamlParameterSpec" where
  "with_yaml f p = (fst p, f (snd p))"

definition default_to :: "string \<Rightarrow> PostgresParameterSpec" where
  "default_to d = unset_spec\<lparr>ps_DefaultValue := d\<rparr>"

definition default_max :: "string \<Rightarrow> string \<Rightarrow> PostgresParameterSpec" where
  "default_max d hi = unset_spec\<lparr>ps_DefaultValue := d, ps_MaxValue := hi\<rparr>"

definition parameters_yaml :: "(string \<Rightarrow> string) \<Rightarrow> (string \<times> yamlParameterSpec) list" where
  "parameters_yaml prose = [
     with_yaml (\<lambda>y. y\<lparr>ys_RestartRequired := True\<rparr>) (yaml_param prose ''max_connections'' ''int'' ''100'' ''0'' ''5000''),
     yaml_param prose ''idle_session_timeout'' ''duration'' ''0ms'' ''0ms'' ''20d'',
     yaml_param prose ''idle_in_transaction_session_timeout'' ''duration'' ''0ms'' ''0ms'' ''20d'',
     yaml_param prose ''statement_timeout'' ''duration'' ''0ms'' ''0ms'' ''20d'',
     with_yaml (\<lambda>y. y\<lparr>ys_RestartRequired := True\<rparr>) (yaml_param prose ''shared_buffers'' ''bytes'' ''32MB'' ''0B'' ''512GB''),
     yaml_param prose ''work_mem'' ''bytes'' ''1MB'' ''0B'' ''1GB'',
     yaml_param prose ''temp_buffers'' ''bytes'' ''8MB'' ''0B'' ''1GB'',
     yaml_param prose ''maintenance_work_mem'' ''bytes'' ''16MB'' ''0B'' ''10GB'',
     with_yaml (\<lambda>y. y\<lparr>ys_Values := [''on'', ''off'', ''try''], ys_RestartRequired := True\<rparr>) (yaml_param prose ''huge_pages'' ''enum'' ''try'' '''' ''''),
     with_yaml (\<lambda>y. y\<lparr>ys_Values := [''on'', ''off'']\<rparr>) (yaml_param prose ''track_io_timing'' ''enum'' ''on'' '''' ''''),
     with_yaml (\<lambda>y. y\<lparr>ys_Values := [''on'', ''off'']\<rparr>) (yaml_param prose ''track_wal_io_timing'' ''enum'' ''on'' '''' ''''),
     yaml_param prose ''effective_cache_size'' ''bytes'' ''4GB'' ''0B'' ''1TB'',
     yaml_param prose ''random_page_cost'' ''float'' ''4.0'' ''0'' ''100'',
     yaml_param prose ''seq_page_cost'' ''float'' ''1.0'' ''0'' ''100'',
     yaml_param prose ''default_statistics_target'' ''int'' ''100'' ''0'' ''1000'',
     with_yaml (\<lambda>y. y\<lparr>ys_Values := [''worker'', ''io_uring'', ''sync''], ys_RestartRequired := True, ys_PostgresMinimumVersion := Some 18\<rparr>) (yaml_param prose ''io_method'' ''enum'' ''worker'' '''' ''''),
     with_yaml (\<lambda>y. y\<lparr>ys_RestartRequired := True, ys_PostgresMinimumVersion := Some 18\<rparr>) (yaml_param prose ''io_workers'' ''int'' ''3'' ''1'' ''32''),
     yaml_param prose ''effective_io_concurrency'' ''int'' ''16'' ''0'' ''1000'',
     yaml_param prose ''maintenance_io_concurrency'' ''int'' ''16'' ''0'' ''1000'',
     yaml_param prose ''backend_flush_after'' ''bytes'' ''0B'' ''0B'' ''2MB'',
     with_yaml (\<lambda>y. y\<lparr>ys_RestartRequired := True\<rparr>) (yaml_param prose ''max_worker_processes'' ''int'' ''32'' ''1'' ''1024''),
     with_yaml (\<lambda>y. y\<lparr>ys_PostgresMinimumVersion := Some 17\<rparr>) (yaml_param prose ''io_combine_limit'' ''bytes'' ''128kB'' ''0B'' ''1GB''),
     yaml_param prose ''max_parallel_workers_per_gather'' ''int'' ''2'' ''1'' ''1024'',
     yaml_param prose ''max_parallel_workers'' ''int'' ''32'' ''1'' ''1024'',
     yaml_param prose ''max_parallel_maintenance_workers'' ''int'' ''2'' ''1'' ''1024'',
     with_yaml (\<lambda>y. y\<lparr>ys_RestartRequired := True\<rparr>) (yaml_param prose ''wal_buffers'' ''bytes'' ''-1'' ''-1'' ''2097144kB''),
     with_yaml (\<lambda>y. y\<lparr>ys_Values := [''off'', ''on'', ''pglz'', ''lz4'', ''zstd''], ys_PostgresMinimumVersion := Some 15\<rparr>) (yaml_param prose ''wal_compression'' ''enum'' ''zstd'' '''' ''''),
     yaml_param prose ''max_wal_size'' ''bytes'' ''1GB'' ''10MB'' ''100GB'',
     yaml_param prose ''min_wal_size'' ''bytes'' ''80mb'' ''10MB'' ''100GB'',
     yaml_param prose ''checkpoint_completion_target'' ''float'' ''0.9'' ''0'' ''1.0'',
     yaml_param prose ''checkpoint_timeout'' ''duration'' ''5min'' ''30s'' ''24h'',
     yaml_param prose ''wal_sender_timeout'' ''duration'' ''30s'' ''0ms'' ''20d'',
     yaml_param prose ''wal_receiver_timeout'' ''duration'' ''30s'' ''0ms'' ''20d'',
     with_yaml (\<lambda>y. y\<lparr>ys_RestartRequired := True, ys_Extension := ''pg_stat_statements''\<rparr>) (yaml_param prose ''pg_stat_statements.max'' ''int'' ''5000'' ''0'' ''1000000''),
     with_yaml (\<lambda>y. y\<lparr>ys_Values := [''top'', ''all'', ''none''], ys_RestartRequired := True, ys_Extension := ''pg_stat_statements''\<rparr>) (yaml_param prose ''pg_stat_statements.track'' ''enum'' ''top'' '''' ''''),
     with_yaml (\<lambda>y. y\<lparr>ys_RestartRequired := True, ys_Extension := ''auth_delay''\<rparr>) (yaml_param prose ''auth_delay.milliseconds'' ''int'' ''0'' ''0'' ''3600000''),
     with_yaml (\<lambda>y. y\<lparr>ys_RestartRequired := True, ys_Extension := ''auto_explain''\<rparr>) (yaml_param prose ''auto_explain.log_min_duration'' ''duration'' ''10s'' ''-1'' ''1h''),
     with_yaml (\<lambda>y. y\<lparr>ys_RestartRequired := True, ys_Extension := ''pg_prewarm''\<rparr>) (yaml_param prose ''pg_prewarm.autoprewarm'' ''boolean'' ''on'' '''' ''''),
     with_yaml (\<lambda>y. y\<lparr>ys_RestartRequired := True, ys_Extension := ''pg_cron''\<rparr>) (yaml_param prose ''cron.database_name'' ''string'' ''xata'' '''' ''''),
     with_yaml (\<lambda>y. y\<lparr>ys_RestartRequired := True, ys_Extension := ''pg_cron''\<rparr>) (yaml_param prose ''cron.use_background_workers'' ''string'' ''on'' '''' ''''),
     with_yaml (\<lambda>y. y\<lparr>ys_RestartRequired := True, ys_Extension := ''pg_duckdb''\<rparr>) (yaml_param prose ''duckdb.postgres_role'' ''string'' ''xata'' '''' ''''),
     with_yaml (\<lambda>y. y\<lparr>ys_Extension := ''pgaudit''\<rparr>) (yaml_param prose ''pgaudit.log'' ''string'' ''none'' '''' ''''),
     with_yaml (\<lambda>y. y\<lparr>ys_Extension := ''pgaudit''\<rparr>) (yaml_param prose ''pgaudit.log_catalog'' ''boolean'' ''on'' '''' ''''),
     with_yaml (\<lambda>y. y\<lparr>ys_Extension := ''pgaudit''\<rparr>) (yaml_param prose ''pgaudit.log_client'' ''boolean'' ''off'' '''' ''''),
     with_yaml (\<lambda>y. y\<lparr>ys_Values := [''debug1'', ''debug2'', ''debug3'', ''debug4'', ''debug5'', ''info'', ''notice'', ''warning'', ''log''], ys_Extension := ''pgaudit''\<rparr>) (yaml_param prose ''pgaudit.log_level'' ''enum'' ''log'' '''' ''''),
     with_yaml (\<lambda>y. y\<lparr>ys_Extension := ''pgaudit''\<rparr>) (yaml_param prose ''pgaudit.log_relation'' ''boolean'' ''off'' '''' ''''),
     with_yaml (\<lambda>y. y\<lparr>ys_Extension := ''pgaudit''\<rparr>) (yaml_param prose ''pgaudit.log_rows'' ''boolean'' ''off'' '''' ''''),
     with_yaml (\<lambda>y. y\<lparr>ys_Extension := ''pgaudit''\<rparr>) (yaml_param prose ''pgaudit.log_statement'' ''boolean'' ''on'' '''' ''''),
     with_yaml (\<lambda>y. y\<lparr>ys_Extension := ''pgaudit''\<rparr>) (yaml_param prose ''pgaudit.log_statement_once'' ''boolean'' ''off'' '''' ''''),
     with_yaml (\<lambda>y. y\<lparr>ys_AllowEmpty := True, ys_Extension := ''pgaudit''\<rparr>) (yaml_param prose ''pgaudit.role'' ''string'' '''' '''' '''')]"

definition xataMicroOverrides :: ParametersMap where
  "xataMicroOverrides = [
     (''max_connections'', default_max ''50'' ''150''),
     (''shared_buffers'', default_max ''256MB'' ''700MB''),
     (''effective_cache_size'', default_to ''768MB''),
     (''maintenance_work_mem'', default_to ''64MB''),
     (''checkpoint_completion_target'', default_to ''0.9''),
     (''wal_buffers'', default_to ''7864kB''),
     (''default_statistics_target'', default_to ''100''),
     (''random_page_cost'', default_to ''1.1''),
     (''effective_io_concurrency'', default_to ''32''),
     (''work_mem'', default_to ''2259kB''),
     (''huge_pages'', default_to ''off''),
     (''min_wal_size'', default_to ''1GB''),
     (''max_wal_size'', default_to ''4GB'')]"

definition smallDefaultParameters :: ParametersMap where
  "smallDefaultParameters = [
     (''max_connections'', default_max ''100'' ''200''),
     (''shared_buffers'', default_max ''512MB'' ''1.5GB''),
     (''effective_cache_size'', default_to ''1536MB''),
     (''maintenance_work_mem'', default_to ''128MB''),
     (''checkpoint_completion_target'', default_to ''0.9''),
     (''wal_buffers'', default_to ''16MB''),
     (''default_statistics_target'', default_to ''100''),
     (''random_page_cost'', default_to ''1.1''),
     (''effective_io_concurrency'', default_to ''32''),
     (''work_mem'', default_to ''2427kB''),
     (''huge_pages'', default_to ''off''),
     (''min_wal_size'', default_to ''1GB''),
     (''max_wal_size'', default_to ''4GB'')]"

definition mediumDefaultParameters :: ParametersMap where
  "mediumDefaultParameters = [
     (''max_connections'', default_max ''200'' ''400''),
     (''shared_buffers'', default_max ''1GB'' ''3GB''),
     (''effective_cache_size'', default_to ''3GB''),
     (''maintenance_work_mem'', default_to ''256MB''),
     (''checkpoint_completion_target'', default_to ''0.9''),
     (''wal_buffers'', default_to ''16MB''),
     (''default_statistics_target'', default_to ''100''),
     (''random_page_cost'', default_to ''1.1''),
     (''effective_io_concurrency'', default_to ''32''),
     (''work_mem'', default_to ''2520kB''),
     (''huge_pages'', default_to ''off''),
     (''min_wal_size'', default_to ''1GB''),
     (''max_wal_size'', default_to ''4GB'')]"

definition largeDefaultParameters :: ParametersMap where
  "largeDefaultParameters = [
     (''max_connections'', default_max ''400'' ''800''),
     (''shared_buffers'', default_max ''2GB'' ''6GB''),
     (''effective_cache_size'', default_to ''6GB''),
     (''maintenance_work_mem'', default_to ''512MB''),
     (''checkpoint_completion_target'', default_to ''0.9''),
     (''wal_buffers'', default_to ''16MB''),
     (''default_statistics_target'', default_to ''100''),
     (''random_page_cost'', default_to ''1.1''),
     (''effective_io_concurrency'', default_to ''32''),
     (''work_mem'', default_to ''2570kB''),
     (''huge_pages'', default_to ''off''),
     (''min_wal_size'', default_to ''1GB''),
     (''max_wal_size'', default_to ''4GB'')]"

definition xataXLargeDefaultParameters :: ParametersMap where
  "xataXLargeDefaultParameters = [
     (''max_connections'', default_max ''800'' ''1600''),
     (''shared_buffers'', default_max ''4GB'' ''12GB''),
     (''effective_cache_size'', default_to ''12GB''),
     (''maintenance_work_mem'', default_to ''1GB''),
     (''checkpoint_completion_target'', default_to ''0.9''),
     (''wal_buffers'', default_to ''16MB''),
     (''default_statistics_target'', default_to ''100''),
     (''random_page_cost'', default_to ''1.1''),
     (''effective_io_concurrency'', default_to ''32''),
     (''work_mem'', default_to ''2608kB''),
     (''huge_pages'', default_to ''off''),
     (''min_wal_size'', default_to ''1GB''),
     (''max_wal_size'', default_to ''4GB''),
     (''max_worker_processes'', default_to ''4''),
     (''max_parallel_workers_per_gather'', default_to ''2''),
     (''max_parallel_workers'', default_to ''4''),
     (''max_parallel_maintenance_workers'', default_to ''2'')]"

definition xata2XLargeDefaultParameters :: ParametersMap where
  "xata2XLargeDefaultParameters = [
     (''max_connections'', default_max ''1600'' ''3200''),
     (''shared_buffers'', default_max ''8GB'' ''24GB''),
     (''effective_cache_size'', default_to ''24GB''),
     (''maintenance_work_mem'', default_to ''2GB''),
     (''checkpoint_completion_target'', default_to ''0.9''),
     (''wal_buffers'', default_to ''16MB''),
     (''default_statistics_target'', default_to ''100''),
     (''random_page_cost'', default_to ''1.1''),
     (''effective_io_concurrency'', default_to ''32''),
     (''work_mem'', default_to ''2608kB''),
     (''huge_pages'', default_to ''try''),
     (''min_wal_size'', default_to ''1GB''),
     (''max_wal_size'', default_to ''4GB''),
     (''max_worker_processes'', default_to ''8''),
     (''max_parallel_workers_per_gather'', default_to ''4''),
     (''max_parallel_workers'', default_to ''8''),
     (''max_parallel_maintenance_workers'', default_to ''4'')]"

definition xata4XLargeDefaultParameters :: ParametersMap where
  "xata4XLargeDefaultParameters = [
     (''max_connections'', default_max ''3200'' ''5000''),
     (''shared_buffers'', default_max ''16GB'' ''48GB''),
     (''effective_cache_size'', default_to ''48GB''),
     (''maintenance_work_mem'', default_to ''2GB''),
     (''checkpoint_completion_target'', default_to ''0.9''),
     (''wal_buffers'', default_to ''16MB''),
     (''default_statistics_target'', default_to ''100''),
     (''random_page_cost'', default_to ''1.1''),
     (''effective_io_concurrency'', default_to ''32''),
     (''work_mem'', default_to ''2608kB''),
     (''huge_pages'', default_to ''try''),
     (''min_wal_size'', default_to ''1GB''),
     (''max_wal_size'', default_to ''4GB''),
     (''max_worker_processes'', default_to ''16''),
     (''max_parallel_workers_per_gather'', default_to ''4''),
     (''max_parallel_workers'', default_to ''16''),
     (''max_parallel_maintenance_workers'', default_to ''4'')]"

definition xata8XLargeDefaultParameters :: ParametersMap where
  "xata8XLargeDefaultParameters = [
     (''max_connections'', default_max ''5000'' ''5000''),
     (''shared_buffers'', default_max ''32GB'' ''96GB''),
     (''effective_cache_size'', default_to ''96GB''),
     (''maintenance_work_mem'', default_to ''2GB''),
     (''checkpoint_completion_target'', default_to ''0.9''),
     (''wal_buffers'', default_to ''16MB''),
     (''default_statistics_target'', default_to ''100''),
     (''random_page_cost'', default_to ''1.1''),
     (''effective_io_concurrency'', default_to ''32''),
     (''work_mem'', default_to ''3334kB''),
     (''huge_pages'', default_to ''try''),
     (''min_wal_size'', default_to ''1GB''),
     (''max_wal_size'', default_to ''4GB''),
     (''max_worker_processes'', default_to ''32''),
     (''max_parallel_workers_per_gather'', default_to ''4''),
     (''max_parallel_workers'', default_to ''32''),
     (''max_parallel_maintenance_workers'', default_to ''4'')]"

definition defaultParametersByInstanceType :: "string \<rightharpoonup> ParametersMap" where
  "defaultParametersByInstanceType = map_of [
     (''xata.micro'', xataMicroOverrides),
     (''xata.small'', smallDefaultParameters),
     (''xata.medium'', mediumDefaultParameters),
     (''xata.large'', largeDefaultParameters),
     (''xata.xlarge'', xataXLargeDefaultParameters),
     (''xata.2xlarge'', xata2XLargeDefaultParameters),
     (''xata.4xlarge'', xata4XLargeDefaultParameters),
     (''xata.8xlarge'', xata8XLargeDefaultParameters)]"

section \<open>Loading it\<close>

fun loadConfigurableParameters :: "(string \<times> yamlParameterSpec) list \<Rightarrow> cfg_err + ParametersMap" where
  "loadConfigurableParameters [] = Inr []"
| "loadConfigurableParameters ((name, yamlSpec) # rest) = (case convertYAMLSpec yamlSpec of
     Inl err \<Rightarrow> Inl err
   | Inr spec \<Rightarrow> (case loadConfigurableParameters rest of Inl err \<Rightarrow> Inl err | Inr ps \<Rightarrow> Inr ((name, spec) # ps)))"

definition configurableParameters :: "(string \<Rightarrow> string) \<Rightarrow> ParametersMap" where
  "configurableParameters prose = (case loadConfigurableParameters (parameters_yaml prose) of Inr ps \<Rightarrow> ps | Inl _ \<Rightarrow> [])"

definition instance_types :: "string list" where
  "instance_types = [''xata.micro'', ''xata.small'', ''xata.medium'', ''xata.large'', ''xata.xlarge'', ''xata.2xlarge'',
     ''xata.4xlarge'', ''xata.8xlarge'']"

lemma loads: "loadConfigurableParameters (parameters_yaml prose) = Inr (configurableParameters prose)"
  by code_simp

text \<open>What must hold of a parameter as users of an instance type see it: its default is valid and its bounds are sound.\<close>

definition bounded_type :: "ParameterType \<Rightarrow> bool" where
  "bounded_type ty \<longleftrightarrow> ty \<in> {ParamTypeInt, ParamTypeFloat, ParamTypeBytes, ParamTypeDuration}"

definition fit :: "(fval \<Rightarrow> int) \<Rightarrow> PostgresParameterSpec \<Rightarrow> bool" where
  "fit oob spec \<longleftrightarrow> ValidateParameterValue oob spec (ps_DefaultValue spec) = Inr () \<and>
     (bounded_type (ps_Type spec) \<longrightarrow> sound_bounds oob spec)"

text \<open>The parameter of an entry of the file as an instance type sees it.\<close>

definition seen_by :: "ParametersMap \<Rightarrow> string \<Rightarrow> PostgresParameterSpec \<Rightarrow> PostgresParameterSpec" where
  "seen_by override k spec = (case map_of override k of None \<Rightarrow> spec | Some overrideVal \<Rightarrow> merge_spec overrideVal spec)"

definition entry_fits :: "(fval \<Rightarrow> int) \<Rightarrow> ParametersMap \<Rightarrow> string \<times> yamlParameterSpec \<Rightarrow> bool" where
  "entry_fits oob override e = (case convertYAMLSpec (snd e) of
     Inl _ \<Rightarrow> False | Inr spec \<Rightarrow> fit oob (seen_by override (fst e) spec))"

text \<open>Evaluation of the file: entries that an instance type does not override, and those it does.\<close>

definition overridden_fit :: "(fval \<Rightarrow> int) \<Rightarrow> ParametersMap \<Rightarrow> (string \<times> yamlParameterSpec) list \<Rightarrow> bool" where
  "overridden_fit oob override ys = list_all (\<lambda>e. map_of override (fst e) = None \<or> entry_fits oob override e) ys"

text \<open>What a table has in common with the one before need not be evaluated again.\<close>

definition further_fit :: "(fval \<Rightarrow> int) \<Rightarrow> ParametersMap \<Rightarrow> ParametersMap \<Rightarrow> (string \<times> yamlParameterSpec) list \<Rightarrow> bool" where
  "further_fit oob before override ys = list_all (\<lambda>e. case map_of override (fst e) of
     None \<Rightarrow> True
   | Some overrideVal \<Rightarrow> map_of before (fst e) = Some overrideVal \<or> entry_fits oob override e) ys"

lemma further_fit:
  assumes "overridden_fit oob before ys" "further_fit oob before override ys"
  shows "overridden_fit oob override ys"
proof -
  have "entry_fits oob override e" if e: "e \<in> set ys" "map_of override (fst e) = Some v" "map_of before (fst e) = Some v" for e v
  proof -
    have "map_of before (fst e) = None \<or> entry_fits oob before e"
      using assms(1) e(1) unfolding overridden_fit_def list_all_iff by (rule bspec)
    moreover have "seen_by override (fst e) = seen_by before (fst e)" using e(2,3) by (simp add: seen_by_def fun_eq_iff)
    ultimately show ?thesis using e(3) by (simp add: entry_fits_def split: sum.splits)
  qed
  then show ?thesis using assms(2) by (fastforce simp: overridden_fit_def further_fit_def list_all_iff split: option.splits)
qed

lemma base_fit: "list_all (\<lambda>e. fst e = ''min_wal_size'' \<or> entry_fits oob [] e) (parameters_yaml prose)"
  by code_simp

lemma fit_1: "overridden_fit oob xataMicroOverrides (parameters_yaml prose)"
  by code_simp

lemma fit_2: "overridden_fit oob smallDefaultParameters (parameters_yaml prose)"
  by (rule further_fit[OF fit_1]) code_simp

lemma fit_3: "overridden_fit oob mediumDefaultParameters (parameters_yaml prose)"
  by (rule further_fit[OF fit_2]) code_simp

lemma fit_4: "overridden_fit oob largeDefaultParameters (parameters_yaml prose)"
  by (rule further_fit[OF fit_3]) code_simp

lemma fit_5: "overridden_fit oob xataXLargeDefaultParameters (parameters_yaml prose)"
  by (rule further_fit[OF fit_4]) code_simp

lemma fit_6: "overridden_fit oob xata2XLargeDefaultParameters (parameters_yaml prose)"
  by (rule further_fit[OF fit_5]) code_simp

lemma fit_7: "overridden_fit oob xata4XLargeDefaultParameters (parameters_yaml prose)"
  by (rule further_fit[OF fit_6]) code_simp

lemma fit_8: "overridden_fit oob xata8XLargeDefaultParameters (parameters_yaml prose)"
  by (rule further_fit[OF fit_7]) code_simp

section \<open>From the file to every instance type, version and image\<close>

definition overridden :: "string list" where
  "overridden = [''max_connections'', ''shared_buffers'', ''effective_cache_size'', ''maintenance_work_mem'',
     ''checkpoint_completion_target'', ''wal_buffers'', ''default_statistics_target'', ''random_page_cost'',
     ''effective_io_concurrency'', ''work_mem'', ''huge_pages'', ''min_wal_size'', ''max_wal_size'', ''max_worker_processes'',
     ''max_parallel_workers_per_gather'', ''max_parallel_workers'', ''max_parallel_maintenance_workers'']"

definition table_ok :: "ParametersMap \<Rightarrow> bool" where
  "table_ok override \<longleftrightarrow> distinct (map fst override) \<and> set (map fst override) \<subseteq> set overridden \<and> map_of override ''min_wal_size'' \<noteq> None"

lemma tables_ok:
  "list_all table_ok [xataMicroOverrides, smallDefaultParameters, mediumDefaultParameters, largeDefaultParameters,
     xataXLargeDefaultParameters, xata2XLargeDefaultParameters, xata4XLargeDefaultParameters, xata8XLargeDefaultParameters]"
  by code_simp

lemma overridden_everywhere:
  "list_all (\<lambda>k. list_ex (\<lambda>e. fst e = k \<and> ys_Extension (snd e) = [] \<and> ys_PostgresMinimumVersion (snd e) = None) (parameters_yaml prose)) overridden"
  by code_simp

lemma overridden_at:
  assumes "k \<in> set overridden"
  shows "\<exists>y. (k, y) \<in> set (parameters_yaml prose) \<and> ys_Extension y = [] \<and> ys_PostgresMinimumVersion y = None"
proof -
  have "list_ex (\<lambda>e. fst e = k \<and> ys_Extension (snd e) = [] \<and> ys_PostgresMinimumVersion (snd e) = None) (parameters_yaml prose)"
    using overridden_everywhere[of prose] assms unfolding list_all_iff by (rule bspec)
  then show ?thesis unfolding list_ex_iff by (metis prod.collapse)
qed

lemma names_distinct: "distinct (map fst (parameters_yaml prose))"
  by code_simp

lemma load_entries:
  "loadConfigurableParameters ys = Inr ps \<Longrightarrow> map fst ps = map fst ys \<and>
    (\<forall>(k, s)\<in>set ps. \<exists>y. (k, y) \<in> set ys \<and> convertYAMLSpec y = Inr s) \<and>
    (\<forall>(k, y)\<in>set ys. \<exists>s. (k, s) \<in> set ps \<and> convertYAMLSpec y = Inr s)"
  by (induction ys arbitrary: ps rule: loadConfigurableParameters.induct) (fastforce split: sum.splits)+

lemma convert_fields:
  "convertYAMLSpec y = Inr s \<Longrightarrow> ps_Extension s = ys_Extension y \<and> ps_PostgresMinimumVersion s = ys_PostgresMinimumVersion y"
  by (auto simp: convertYAMLSpec_def split: option.splits)

lemma loaded_entry:
  assumes "(k, y) \<in> set (parameters_yaml prose)"
  shows "\<exists>s. (k, s) \<in> set (configurableParameters prose) \<and> ps_Extension s = ys_Extension y \<and> ps_PostgresMinimumVersion s = ys_PostgresMinimumVersion y"
proof -
  obtain s where s: "(k, s) \<in> set (configurableParameters prose)" "convertYAMLSpec y = Inr s"
    using load_entries[OF loads[of prose]] assms by blast
  then show ?thesis using convert_fields[OF s(2)] by blast
qed

lemma instance_table:
  assumes "defaultParametersByInstanceType it = Some override"
  shows "table_ok override \<and> overridden_fit oob override (parameters_yaml prose)"
proof -
  have "override \<in> set [xataMicroOverrides, smallDefaultParameters, mediumDefaultParameters, largeDefaultParameters,
     xataXLargeDefaultParameters, xata2XLargeDefaultParameters, xata4XLargeDefaultParameters, xata8XLargeDefaultParameters]"
    using map_of_SomeD[OF assms[unfolded defaultParametersByInstanceType_def]] by (simp only: list.set prod.inject insert_iff empty_iff) blast
  then show ?thesis using tables_ok fit_1 fit_2 fit_3 fit_4 fit_5 fit_6 fit_7 fit_8
    by (simp only: list.set insert_iff empty_iff list_all_iff) blast
qed

lemma configurable_fit:
  assumes "defaultParametersByInstanceType it = Some override" "(k, s) \<in> set (configurableParameters prose)"
  shows "fit oob (seen_by override k s)"
proof -
  obtain y where y: "(k, y) \<in> set (parameters_yaml prose)" "convertYAMLSpec y = Inr s"
    using load_entries[OF loads[of prose]] assms(2) by blast
  have tab: "map_of override ''min_wal_size'' \<noteq> None" "overridden_fit oob override (parameters_yaml prose)"
    using instance_table[OF assms(1), of oob prose] unfolding table_ok_def by blast+
  show ?thesis
  proof (cases "map_of override k")
    case None
    then have "entry_fits oob [] (k, y)" using base_fit[of oob prose] y(1) tab(1) by (auto simp: list_all_iff)
    then show ?thesis using None y(2) by (simp add: entry_fits_def seen_by_def)
  next
    case (Some o')
    then have "entry_fits oob override (k, y)" using tab(2) y(1) by (fastforce simp: overridden_fit_def list_all_iff)
    then show ?thesis using y(2) by (simp add: entry_fits_def)
  qed
qed

text \<open>The parameters as merged for an instance type, whatever the version, the image and the preloaded libraries.\<close>

lemma merged_parameters:
  assumes "defaultParametersByInstanceType it = Some override"
  shows "\<exists>merged. MergeParametersMaps (GetConfigurableParameters (configurableParameters prose) v exts preload) override = Some merged
    \<and> distinct (map fst merged) \<and> (\<forall>(k, s)\<in>set merged. fit oob s)"
proof -
  let ?ps = "configurableParameters prose" let ?base = "GetConfigurableParameters ?ps v exts preload"
  have tab: "distinct (map fst override)" "set (map fst override) \<subseteq> set overridden"
    using instance_table[OF assms] by (simp_all add: table_ok_def)
  have dist: "distinct (map fst ?base)" "distinct (map fst ?ps)" using load_entries[OF loads[of prose]] names_distinct[of prose]
    by (simp_all add: GetConfigurableParameters_def distinct_map_filter)
  have "map_of ?base k \<noteq> None" if k: "k \<in> fst ` set override" for k
  proof -
    obtain y where "(k, y) \<in> set (parameters_yaml prose)" "ys_Extension y = []" "ys_PostgresMinimumVersion y = None"
      using overridden_at[of k prose] tab(2) k by auto
    then obtain s where s: "(k, s) \<in> set ?ps" "ps_Extension s = []" "ps_PostgresMinimumVersion s = None"
      using loaded_entry by fastforce
    then have "(k, s) \<in> set ?base" by (simp add: GetConfigurableParameters_def configurable_def)
    then show ?thesis by (metis dist(1) map_of_is_SomeI option.distinct(1))
  qed
  then have keys: "\<forall>k\<in>fst ` set override. map_of ?base k \<noteq> None" by blast
  obtain merged where m1: "MergeParametersMaps ?base override = Some merged"
  proof (cases "MergeParametersMaps ?base override")
    case None
    with merge_pointwise[OF tab(1), of ?base] have "\<exists>k\<in>fst ` set override. map_of ?base k = None" by (simp only: option.case)
    with keys show ?thesis by blast
  qed blast
  then have m: "MergeParametersMaps ?base override = Some merged" "map fst merged = map fst ?base" "map_of merged = merged_at ?base override"
    using merge_pointwise[OF tab(1), of ?base] by (simp_all only: option.case)
  have "fit oob s" if ks: "(k, s) \<in> set merged" for k s
  proof -
    have "merged_at ?base override k = Some s" using ks m(2,3) dist(1) by (metis map_of_is_SomeI)
    then obtain s0 where s0: "map_of ?base k = Some s0" "s = seen_by override k s0"
      by (auto simp: merged_at_def seen_by_def split: option.splits)
    then have "(k, s0) \<in> set ?ps" using map_of_SomeD by (fastforce simp: GetConfigurableParameters_def)
    then show ?thesis using configurable_fit[OF assms] s0(2) by simp
  qed
  then show ?thesis using m(1,2) dist(1) by auto
qed

text \<open>C17. The defaults of every instance type are valid for it: for every Postgres version, image and list of preloaded
  libraries, the defaults are computed without a panic and pass the validation of settings without an error.\<close>

theorem instance_defaults_valid:
  assumes "defaultParametersByInstanceType it = Some override"
  shows "\<exists>settings. GetDefaultPostgresParameters (configurableParameters prose) defaultParametersByInstanceType it v exts preload = Some (Inr settings)
    \<and> ValidateSettings oob (configurableParameters prose) defaultParametersByInstanceType it settings v exts preload = Some (Inr [])"
proof -
  obtain merged where m: "MergeParametersMaps (GetConfigurableParameters (configurableParameters prose) v exts preload) override = Some merged"
      "distinct (map fst merged)" "\<forall>(k, s)\<in>set merged. fit oob s" using merged_parameters[OF assms] by blast
  have "setting_error oob merged k (ps_DefaultValue s) = None" if "(k, s) \<in> set merged" for k s
    using m(2,3) that by (auto simp: setting_error_def fit_def split: sum.splits)
  then have "List.map_filter (\<lambda>(k, d). map_option (Pair k) (setting_error oob merged k d)) (map (\<lambda>(k, s). (k, ps_DefaultValue s)) merged) = []"
    by (auto simp: map_filter_def filter_empty_conv)
  then show ?thesis using m(1) assms
    by (simp add: GetDefaultPostgresParameters_def ValidateSettings_def GetDefaultPostgresConfigByInstanceType_def)
qed

theorem instance_defaults_valid_witness:
  "\<exists>settings. GetDefaultPostgresParameters (configurableParameters (\<lambda>_. '''')) defaultParametersByInstanceType ''xata.micro'' 17 None None = Some (Inr settings)
    \<and> ValidateSettings oob_min (configurableParameters (\<lambda>_. '''')) defaultParametersByInstanceType ''xata.micro'' settings 17 None None = Some (Inr [])"
proof -
  have "defaultParametersByInstanceType ''xata.micro'' = Some xataMicroOverrides" by (simp add: defaultParametersByInstanceType_def)
  from instance_defaults_valid[OF this] show ?thesis .
qed

text \<open>C19. The bounds of every number, size and duration are values of that type, in order and written plainly, in the
  specification of every instance type; so every value of the type can be adjusted to a valid one.\<close>

theorem instance_bounds_typed:
  assumes "GetParametersSpec (configurableParameters prose) defaultParametersByInstanceType it v exts preload = Some (Inr specs)"
    "(k, spec) \<in> set specs" "bounded_type (ps_Type spec)"
  shows "sound_bounds oob spec"
proof -
  obtain override where o: "defaultParametersByInstanceType it = Some override"
    using assms(1) by (auto simp: GetParametersSpec_def GetDefaultPostgresConfigByInstanceType_def split: option.splits)
  then have "MergeParametersMaps (GetConfigurableParameters (configurableParameters prose) v exts preload) override = Some specs"
    using assms(1) by (auto simp: GetParametersSpec_def GetDefaultPostgresConfigByInstanceType_def)
  then have "fit oob spec" using merged_parameters[OF o, of prose v exts preload oob] assms(2) by auto
  then show ?thesis using assms(3) by (simp add: fit_def)
qed

theorem instance_bounds_typed_witness:
  "\<exists>specs spec. GetParametersSpec (configurableParameters (\<lambda>_. '''')) defaultParametersByInstanceType ''xata.micro'' 17 None None = Some (Inr specs)
     \<and> (''max_connections'', spec) \<in> set specs \<and> sound_bounds oob_min spec"
proof -
  let ?r = "GetParametersSpec (configurableParameters (\<lambda>_. '''')) defaultParametersByInstanceType ''xata.micro'' 17 None None"
  have "case ?r of Some (Inr specs) \<Rightarrow> list_ex (\<lambda>(k, s). k = ''max_connections'' \<and> bounded_type (ps_Type s)) specs | _ \<Rightarrow> False" by code_simp
  then obtain specs where specs: "?r = Some (Inr specs)" "list_ex (\<lambda>(k, s). k = ''max_connections'' \<and> bounded_type (ps_Type s)) specs"
    by (auto split: option.splits sum.splits)
  then obtain spec where spec: "(''max_connections'', spec) \<in> set specs" "bounded_type (ps_Type spec)" by (auto simp: list_ex_iff)
  have "sound_bounds oob_min spec" by (rule instance_bounds_typed[OF specs(1) spec])
  then show ?thesis using specs(1) spec(1) by blast
qed

section \<open>What the validation lets through\<close>

text \<open>A duration without a unit is read as zero, so no upper bound applies to it: the validation of a statement
  timeout of at most 20 days accepts 2000000000 (milliseconds, in Postgres: 23 days) and refuses \<open>21d\<close>.\<close>

lemma unitless_duration_unbounded:
  "\<exists>spec. map_of (configurableParameters prose) ''statement_timeout'' = Some spec \<and> ps_MaxValue spec = ''20d'' \<and>
     parseDuration oob ''2000000000'' = Some 0 \<and> ValidateParameterValue oob spec ''2000000000'' = Inr () \<and>
     ValidateParameterValue oob spec ''21d'' = Inl AboveMaximum"
proof -
  define spec where "spec = unset_spec\<lparr>ps_Type := ParamTypeDuration, ps_Description := prose ''statement_timeout'',
    ps_DefaultValue := ''0ms'', ps_MinValue := ''0ms'', ps_MaxValue := ''20d''\<rparr>"
  have "map_of (configurableParameters prose) ''statement_timeout'' = Some spec" unfolding spec_def by code_simp
  moreover have "ps_MaxValue spec = ''20d''" "parseDuration oob ''2000000000'' = Some 0" unfolding spec_def by code_simp+
  moreover have "ValidateParameterValue oob spec ''2000000000'' = Inr ()" "ValidateParameterValue oob spec ''21d'' = Inl AboveMaximum"
    unfolding spec_def by code_simp+
  ultimately show ?thesis by blast
qed

text \<open>Not a number is a valid float: whatever bounds a float parameter has, as long as they parse, the value
  \<open>NaN\<close> passes the validation, since every comparison with it is false.\<close>

lemma NaN_passes:
  assumes "ps_Type spec = ParamTypeFloat" "ps_MinValue spec = '''' \<or> ParseFloat (ps_MinValue spec) \<noteq> None"
    "ps_MaxValue spec = '''' \<or> ParseFloat (ps_MaxValue spec) \<noteq> None"
  shows "ValidateParameterValue oob spec ''NaN'' = Inr ()"
proof -
  have nan: "ParseFloat ''NaN'' = Some NaN" "plain ''NaN''" by code_simp+
  have "\<not> f_less NaN v" "\<not> f_less v NaN" for v by (cases v; simp)+
  then show ?thesis using assms nan
    by (auto simp: ValidateParameterValue_def validateFloatValue_def validate_with_iff in_bounds_def plain_def)
qed

text \<open>The default of \<open>min_wal_size\<close> in the file has a unit that the parser does not know; every instance type overrides it.\<close>

lemma min_wal_size_default: "parseBytes oob ''80mb'' = None"
  by code_simp

end
