(* ===== verification/Ip_Config.thy ===== *)
theory Ip_Config
  imports Xata_Prelude
begin

text \<open>
  The allow-lists of all branches of a cell live in one ConfigMap, as one JSON object
  (\<open>services/clusters/internal/ipfiltering/configmap.go\<close>).  Every change reads the whole object, edits one entry and
  writes the object back; writers work concurrently and rely on the optimistic concurrency of the Kubernetes API.

  The Kubernetes client is the record \<open>kube\<close>, with operations on the world.  What the code relies on is the locale
  \<open>optimistic_api\<close>: the object has a history, a read returns one of its states, and a write succeeds only on the state
  whose version it carries.  Other writers may extend the history at any call.  The two functions of \<open>encoding/json\<close>
  are the record \<open>json_lib\<close>, on texts of a type of its own, one of them the empty text (strings are taken to be valid UTF-8, which \<open>encoding/json\<close> keeps): decoding may fail, may give a
  \<open>nil\<close> map (for \<open>null\<close>) or a map; encoding a map of this type cannot fail.
\<close>

section \<open>The object and the client\<close>

record IPFilteringConfig =
  fc_Enabled :: bool
  fc_Allowed :: "string list"

type_synonym filter_configs = "string \<rightharpoonup> IPFilteringConfig"

definition DefaultIPFilteringConfig :: IPFilteringConfig where
  "DefaultIPFilteringConfig = \<lparr>fc_Enabled = False, fc_Allowed = []\<rparr>"

definition ConfigMapKey :: string where
  "ConfigMapKey = ''ipfiltering.json''"

definition MaxRetries :: nat where
  "MaxRetries = 3"

record 't config_map =
  cm_UID :: string
  cm_Version :: string
  cm_Data :: "(string \<rightharpoonup> 't) option"

datatype kube_err = NotFound | Conflict | AlreadyExists | OtherErr string

record ('t, 'w) kube =
  kube_get :: "'w \<Rightarrow> (kube_err + 't config_map) \<times> 'w"
  kube_create :: "'t config_map \<Rightarrow> 'w \<Rightarrow> (kube_err + unit) \<times> 'w"
  kube_update :: "'t config_map \<Rightarrow> 'w \<Rightarrow> (kube_err + unit) \<times> 'w"

record 't json_lib =
  js_Empty :: 't
  js_Marshal :: "filter_configs \<Rightarrow> 't"
  js_Unmarshal :: "'t \<Rightarrow> filter_configs option option"

datatype ipf_err = GettingConfigMap kube_err | ParsingConfig | CreatingConfigMap kube_err | UpdatingConfigMap kube_err
  | UnmarshalingConfig | NilMapWrite | AfterRetries

section \<open>Changing entries\<close>

definition fresh_map :: "'t config_map" where
  "fresh_map = \<lparr>cm_UID = '''', cm_Version = '''', cm_Data = Some Map.empty\<rparr>"

text \<open>The entries of an object, read for a change; an assignment to the \<open>nil\<close> map panics.\<close>

definition existing_configs :: "'t json_lib \<Rightarrow> (string \<rightharpoonup> 't) \<Rightarrow> ipf_err + filter_configs" where
  "existing_configs js dat = (case dat ConfigMapKey of
     Some existingJSON \<Rightarrow>
       if existingJSON \<noteq> js_Empty js then (case js_Unmarshal js existingJSON of
           None \<Rightarrow> Inl ParsingConfig
         | Some None \<Rightarrow> Inl NilMapWrite
         | Some (Some allConfigs) \<Rightarrow> Inr allConfigs)
       else Inr Map.empty
   | None \<Rightarrow> Inr Map.empty)"

definition edited_map :: "'t json_lib \<Rightarrow> (filter_configs \<Rightarrow> filter_configs) \<Rightarrow> 't config_map \<Rightarrow> ipf_err + 't config_map" where
  "edited_map js edit cm = (let dat = (case cm_Data cm of None \<Rightarrow> Map.empty | Some d \<Rightarrow> d) in
     case existing_configs js dat of
       Inl e \<Rightarrow> Inl e
     | Inr allConfigs \<Rightarrow> Inr (cm\<lparr>cm_Data := Some (dat(ConfigMapKey \<mapsto> js_Marshal js (edit allConfigs)))\<rparr>))"

text \<open>The attempts that are left; the last one returns whatever error it meets.\<close>

fun edit_attempts :: "('t, 'w) kube \<Rightarrow> 't json_lib \<Rightarrow> (filter_configs \<Rightarrow> filter_configs) \<Rightarrow> nat \<Rightarrow> 'w \<Rightarrow> (ipf_err + unit) \<times> 'w" where
  "edit_attempts kube js edit 0 w = (Inl AfterRetries, w)"
| "edit_attempts kube js edit (Suc n) w = (case kube_get kube w of
     (r, w1) \<Rightarrow>
       (case (case r of Inr cm \<Rightarrow> Inr cm | Inl err \<Rightarrow> if err = NotFound then Inr fresh_map else Inl (GettingConfigMap err)) of
          Inl e \<Rightarrow> (Inl e, w1)
        | Inr configMap \<Rightarrow> (case edited_map js edit configMap of
            Inl e \<Rightarrow> (Inl e, w1)
          | Inr cm \<Rightarrow>
              if cm_UID cm = '''' then (case kube_create kube cm w1 of
                  (Inl err, w2) \<Rightarrow> if (err = Conflict \<or> err = AlreadyExists) \<and> n > 0 then edit_attempts kube js edit n w2
                                   else (Inl (CreatingConfigMap err), w2)
                | (Inr _, w2) \<Rightarrow> (Inr (), w2))
              else (case kube_update kube cm w1 of
                  (Inl err, w2) \<Rightarrow> if err = Conflict \<and> n > 0 then edit_attempts kube js edit n w2
                                   else (Inl (UpdatingConfigMap err), w2)
                | (Inr _, w2) \<Rightarrow> (Inr (), w2)))))"

definition SetBranchIPFiltering :: "('t, 'w) kube \<Rightarrow> 't json_lib \<Rightarrow> string \<Rightarrow> IPFilteringConfig \<Rightarrow> 'w \<Rightarrow> (ipf_err + unit) \<times> 'w" where
  "SetBranchIPFiltering kube js branchID config = edit_attempts kube js (\<lambda>allConfigs. allConfigs(branchID \<mapsto> config)) MaxRetries"

definition set_all :: "string list \<Rightarrow> IPFilteringConfig \<Rightarrow> filter_configs \<Rightarrow> filter_configs" where
  "set_all branchIDs config allConfigs = fold (\<lambda>branchID m. m(branchID \<mapsto> config)) branchIDs allConfigs"

definition SetBranchesIPFiltering :: "('t, 'w) kube \<Rightarrow> 't json_lib \<Rightarrow> string list \<Rightarrow> IPFilteringConfig \<Rightarrow> 'w \<Rightarrow> (ipf_err + unit) \<times> 'w" where
  "SetBranchesIPFiltering kube js branchIDs config w =
     (if branchIDs = [] then (Inr (), w) else edit_attempts kube js (set_all branchIDs config) MaxRetries w)"

definition GetBranchIPFiltering :: "('t, 'w) kube \<Rightarrow> 't json_lib \<Rightarrow> string \<Rightarrow> 'w \<Rightarrow> (IPFilteringConfig \<times> ipf_err option) \<times> 'w" where
  "GetBranchIPFiltering kube js branchID w = (case kube_get kube w of
     (Inl err, w') \<Rightarrow> ((DefaultIPFilteringConfig, if err = NotFound then None else Some (GettingConfigMap err)), w')
   | (Inr configMap, w') \<Rightarrow>
       ((case Option.bind (cm_Data configMap) (\<lambda>d. d ConfigMapKey) of
           None \<Rightarrow> (DefaultIPFilteringConfig, None)
         | Some configJSON \<Rightarrow>
             if configJSON = js_Empty js then (DefaultIPFilteringConfig, None)
             else (case js_Unmarshal js configJSON of
                 None \<Rightarrow> (DefaultIPFilteringConfig, Some UnmarshalingConfig)
               | Some None \<Rightarrow> (DefaultIPFilteringConfig, None)
               | Some (Some allConfigs) \<Rightarrow> (case allConfigs branchID of
                   None \<Rightarrow> (DefaultIPFilteringConfig, None) | Some config \<Rightarrow> (config, None)))), w'))"

text \<open>What a deletion makes of the object it read: nothing to do, an error, or the object without the entry.\<close>

definition without_entry :: "'t json_lib \<Rightarrow> string \<Rightarrow> 't config_map \<Rightarrow> ipf_err + 't config_map option" where
  "without_entry js branchID cm = (case cm_Data cm of
     None \<Rightarrow> Inr None
   | Some dat \<Rightarrow> (case dat ConfigMapKey of
       None \<Rightarrow> Inr None
     | Some configJSON \<Rightarrow>
         if configJSON = js_Empty js then Inr None
         else (case js_Unmarshal js configJSON of
             None \<Rightarrow> Inl ParsingConfig
           | Some None \<Rightarrow> Inr None
           | Some (Some allConfigs) \<Rightarrow>
               if allConfigs branchID = None then Inr None
               else Inr (Some (cm\<lparr>cm_Data := Some (dat(ConfigMapKey \<mapsto> js_Marshal js (allConfigs(branchID := None))))\<rparr>)))))"

fun delete_attempts :: "('t, 'w) kube \<Rightarrow> 't json_lib \<Rightarrow> string \<Rightarrow> nat \<Rightarrow> 'w \<Rightarrow> (ipf_err + unit) \<times> 'w" where
  "delete_attempts kube js branchID 0 w = (Inl AfterRetries, w)"
| "delete_attempts kube js branchID (Suc n) w = (case kube_get kube w of
     (Inl err, w1) \<Rightarrow> (if err = NotFound then Inr () else Inl (GettingConfigMap err), w1)
   | (Inr configMap, w1) \<Rightarrow> (case without_entry js branchID configMap of
       Inl e \<Rightarrow> (Inl e, w1)
     | Inr None \<Rightarrow> (Inr (), w1)
     | Inr (Some cm) \<Rightarrow> (case kube_update kube cm w1 of
         (Inl err, w2) \<Rightarrow> if err = Conflict \<and> n > 0 then delete_attempts kube js branchID n w2
                          else (Inl (UpdatingConfigMap err), w2)
       | (Inr _, w2) \<Rightarrow> (Inr (), w2))))"

definition DeleteBranchIPFiltering :: "('t, 'w) kube \<Rightarrow> 't json_lib \<Rightarrow> string \<Rightarrow> 'w \<Rightarrow> (ipf_err + unit) \<times> 'w" where
  "DeleteBranchIPFiltering kube js branchID = delete_attempts kube js branchID MaxRetries"

section \<open>The atomic map behind the object\<close>

text \<open>The abstract state: the entries that a state of the object stands for.\<close>

definition configs_of :: "'t json_lib \<Rightarrow> 't config_map option \<Rightarrow> filter_configs" where
  "configs_of js c = (case Option.bind c (\<lambda>cm. Option.bind (cm_Data cm) (\<lambda>d. d ConfigMapKey)) of
     None \<Rightarrow> Map.empty
   | Some t \<Rightarrow> (case js_Unmarshal js t of Some (Some m) \<Rightarrow> m | _ \<Rightarrow> Map.empty))"

definition json_ok :: "'t json_lib \<Rightarrow> bool" where
  "json_ok js \<longleftrightarrow> (\<forall>m. finite (dom m) \<longrightarrow> js_Unmarshal js (js_Marshal js m) = Some (Some m)) \<and> js_Unmarshal js (js_Empty js) = None \<and>
     (\<forall>t m. js_Unmarshal js t = Some (Some m) \<longrightarrow> finite (dom m))"

text \<open>A write of an edit happened at one moment between two worlds, on the state of that moment.\<close>

definition wrote :: "'t json_lib \<Rightarrow> ('w \<Rightarrow> 't config_map option list) \<Rightarrow> (filter_configs \<Rightarrow> filter_configs) \<Rightarrow> 'w \<Rightarrow> 'w \<Rightarrow> bool" where
  "wrote js hist edit w w' \<longleftrightarrow> (\<exists>pre new post. hist w' = hist w @ pre @ [new] @ post \<and>
     configs_of js new = edit (configs_of js (last (hist w @ pre))))"

text \<open>
  What the code relies on of the API: \<open>hist w\<close> are the states of the object so far, the last one the current one; a
  version belongs to one state, and stored objects have an identity.
\<close>

locale optimistic_api =
  fixes kube :: "('t, 'w) kube" and hist :: "'w \<Rightarrow> 't config_map option list"
  assumes versions: "Some a \<in> set (hist w) \<Longrightarrow> Some b \<in> set (hist w) \<Longrightarrow> cm_Version a = cm_Version b \<Longrightarrow> a = b"
    and identity: "Some a \<in> set (hist w) \<Longrightarrow> cm_UID a \<noteq> ''''"
    and started: "hist w \<noteq> []"
    and get_grows: "kube_get kube w = (r, w') \<Longrightarrow> \<exists>grown. hist w' = hist w @ grown"
    and get_state: "kube_get kube w = (Inr cm, w') \<Longrightarrow> Some cm \<in> set (hist w')"
    and get_none: "kube_get kube w = (Inl NotFound, w') \<Longrightarrow> None \<in> set (hist w')"
    and create_grows: "kube_create kube cm w = (q, w') \<Longrightarrow> \<exists>grown. hist w' = hist w @ grown"
    and create_done: "kube_create kube cm w = (Inr (), w') \<Longrightarrow> \<exists>pre new post. hist w' = hist w @ pre @ [Some new] @ post \<and>
      last (hist w @ pre) = None \<and> cm_Data new = cm_Data cm"
    and update_grows: "kube_update kube cm w = (q, w') \<Longrightarrow> \<exists>grown. hist w' = hist w @ grown"
    and update_done: "kube_update kube cm w = (Inr (), w') \<Longrightarrow> \<exists>pre cur new post. hist w' = hist w @ pre @ [Some new] @ post \<and>
      last (hist w @ pre) = Some cur \<and> cm_Version cur = cm_Version cm \<and> cm_Data new = cm_Data cm"
begin

lemma wrote_later:
  assumes "hist w1 = hist w @ grown" "wrote js hist edit w1 w2"
  shows "wrote js hist edit w w2"
proof -
  obtain pre new post where h: "hist w2 = hist w1 @ pre @ [new] @ post"
    and e: "configs_of js new = edit (configs_of js (last (hist w1 @ pre)))" using assms(2) unfolding wrote_def by blast
  have "hist w2 = hist w @ (grown @ pre) @ [new] @ post" using h assms(1) by simp
  moreover have "last (hist w @ grown @ pre) = last (hist w1 @ pre)" using assms(1) by simp
  ultimately show ?thesis using e unfolding wrote_def by (metis append_assoc)
qed

lemma edited_configs:
  assumes "json_ok js" "edited_map js edit cm = Inr cm'" "\<And>m. finite (dom m) \<Longrightarrow> finite (dom (edit m))"
    "cm_Data new = cm_Data cm'"
  shows "configs_of js (Some new) = edit (configs_of js (Some cm)) \<and> cm_UID cm' = cm_UID cm \<and> cm_Version cm' = cm_Version cm"
  using assms
  by (auto simp: edited_map_def existing_configs_def configs_of_def json_ok_def Let_def split: option.splits sum.splits if_splits)

lemma edit_linearized:
  assumes js: "json_ok js" and edit: "\<And>m. finite (dom m) \<Longrightarrow> finite (dom (edit m))"
    and run: "edit_attempts kube js edit n w = (Inr (), w')"
  shows "wrote js hist edit w w'"
  using run
proof (induction n arbitrary: w)
  case (Suc n)
  obtain r w1 where get: "kube_get kube w = (r, w1)" by fastforce
  obtain grown where grown: "hist w1 = hist w @ grown" using get_grows[OF get] by blast
  obtain configMap cm where cm: "edited_map js edit configMap = Inr cm"
    and read: "r = Inr configMap \<or> r = Inl NotFound \<and> configMap = fresh_map"
    using Suc.prems get by (auto split: sum.splits if_splits prod.splits)
  show ?case
  proof (cases "cm_UID cm = ''''")
    case True
    obtain r2 w2 where create: "kube_create kube cm w1 = (r2, w2)" by fastforce
    show ?thesis
    proof (cases r2)
      case (Inl err)
      then have "edit_attempts kube js edit n w2 = (Inr (), w')"
        using Suc.prems get read cm True create by (auto split: if_splits)
      then show ?thesis using Suc.IH wrote_later create_grows[OF create] grown by (metis append_assoc)
    next
      case (Inr u)
      then have w': "w2 = w'" using Suc.prems get read cm True create by auto
      have "r = Inl NotFound" "configMap = fresh_map"
        using read True edited_configs[OF js cm edit] identity get_state get by (metis)+
      obtain pre new post where h: "hist w2 = hist w1 @ pre @ [Some new] @ post" "last (hist w1 @ pre) = None" "cm_Data new = cm_Data cm"
        using create_done create Inr by (metis old.unit.exhaust)
      have "configs_of js (Some new) = edit (configs_of js (Some fresh_map))"
        using edited_configs[OF js cm edit h(3)] \<open>configMap = fresh_map\<close> by simp
      moreover have "configs_of js (Some fresh_map) = configs_of js None" by (simp add: configs_of_def fresh_map_def)
      ultimately have "wrote js hist edit w1 w2" unfolding wrote_def using h(1,2) by metis
      then show ?thesis using wrote_later grown w' by blast
    qed
  next
    case False
    obtain r2 w2 where update: "kube_update kube cm w1 = (r2, w2)" by fastforce
    show ?thesis
    proof (cases r2)
      case (Inl err)
      then have "edit_attempts kube js edit n w2 = (Inr (), w')"
        using Suc.prems get read cm False update by (auto split: if_splits)
      then show ?thesis using Suc.IH wrote_later update_grows[OF update] grown by (metis append_assoc)
    next
      case (Inr u)
      then have w': "w2 = w'" using Suc.prems get read cm False update by auto
      obtain pre cur new post where h: "hist w2 = hist w1 @ pre @ [Some new] @ post" "last (hist w1 @ pre) = Some cur"
          "cm_Version cur = cm_Version cm" "cm_Data new = cm_Data cm"
        using update_done update Inr by (metis old.unit.exhaust)
      note ed = edited_configs[OF js cm edit h(4)]
      have "r = Inr configMap" using read False ed by (auto simp: fresh_map_def)
      then have "Some configMap \<in> set (hist w2)" using get_state get h(1) by fastforce
      moreover have "Some cur \<in> set (hist w2)" using h(1,2) started last_in_set
        by (metis Un_iff append_is_Nil_conv set_append)
      ultimately have "cur = configMap" using versions h(3) ed by metis
      then have "wrote js hist edit w1 w2" unfolding wrote_def using h(1,2) ed by metis
      then show ?thesis using wrote_later grown w' by blast
    qed
  qed
qed simp

lemma without_entry_configs:
  assumes "json_ok js" "without_entry js b cm = Inr (Some cm')" "cm_Data new = cm_Data cm'"
  shows "configs_of js (Some new) = (configs_of js (Some cm))(b := None) \<and> cm_Version cm' = cm_Version cm"
  using assms by (auto simp: without_entry_def configs_of_def json_ok_def split: option.splits if_splits)

lemma nothing_to_delete:
  assumes "json_ok js" "without_entry js b cm = Inr None"
  shows "configs_of js (Some cm) b = None"
  using assms by (auto simp: without_entry_def configs_of_def json_ok_def split: option.splits if_splits)

lemma delete_linearized:
  assumes js: "json_ok js" and run: "delete_attempts kube js b n w = (Inr (), w')"
  shows "wrote js hist (\<lambda>m. m(b := None)) w w' \<or> (\<exists>c\<in>set (hist w'). configs_of js c b = None)"
  using run
proof (induction n arbitrary: w)
  case (Suc n)
  obtain r w1 where get: "kube_get kube w = (r, w1)" by fastforce
  obtain grown where grown: "hist w1 = hist w @ grown" using get_grows[OF get] by blast
  consider (absent) "r = Inl NotFound" "w' = w1" | (nothing) cm where "r = Inr cm" "without_entry js b cm = Inr None" "w' = w1"
    | (change) cm cm' where "r = Inr cm" "without_entry js b cm = Inr (Some cm')"
    using Suc.prems get by (auto split: sum.splits option.splits if_splits)
  then show ?case
  proof cases
    case absent
    then have "None \<in> set (hist w')" using get_none get by simp
    then show ?thesis by (intro disjI2 bexI[where x = None]) (auto simp: configs_of_def)
  next
    case nothing
    then show ?thesis using get_state get nothing_to_delete[OF js] by blast
  next
    case change
    obtain r2 w2 where update: "kube_update kube cm' w1 = (r2, w2)" by fastforce
    show ?thesis
    proof (cases r2)
      case (Inl err)
      then have "delete_attempts kube js b n w2 = (Inr (), w')" using Suc.prems get change update by (auto split: if_splits)
      then show ?thesis using Suc.IH wrote_later update_grows[OF update] grown by (metis append_assoc)
    next
      case (Inr u)
      then have w': "w2 = w'" using Suc.prems get change update by auto
      obtain pre cur new post where h: "hist w2 = hist w1 @ pre @ [Some new] @ post" "last (hist w1 @ pre) = Some cur"
          "cm_Version cur = cm_Version cm'" "cm_Data new = cm_Data cm'"
        using update_done update Inr by (metis old.unit.exhaust)
      note del = without_entry_configs[OF js change(2) h(4)]
      have "Some cm \<in> set (hist w2)" using get_state get h(1) change(1) by fastforce
      moreover have "Some cur \<in> set (hist w2)" using h(1,2) started last_in_set
        by (metis Un_iff append_is_Nil_conv set_append)
      ultimately have "cur = cm" using versions h(3) del by metis
      then have "wrote js hist (\<lambda>m. m(b := None)) w1 w2" unfolding wrote_def using h(1,2) del by metis
      then show ?thesis using wrote_later grown w' by blast
    qed
  qed
qed simp

end

lemma finite_set_all: "finite (dom m) \<Longrightarrow> finite (dom (set_all bs c m))"
  unfolding set_all_def by (induction bs arbitrary: m) (auto simp: dom_fun_upd)

text \<open>The last attempt returns its own error, so the error after the loop is never returned.\<close>

lemma edit_attempts_error: "edit_attempts kube js edit (Suc n) w \<noteq> (Inl AfterRetries, w')"
  by (induction n arbitrary: w) (auto simp: edited_map_def existing_configs_def Let_def split: prod.splits sum.splits option.splits if_splits)

lemma SetBranch_wrote:
  assumes "optimistic_api kube hist" "json_ok js" "SetBranchIPFiltering kube js b c w = (Inr (), w')"
  shows "wrote js hist (\<lambda>m. m(b \<mapsto> c)) w w'"
  using optimistic_api.edit_linearized[OF assms(1,2), of "\<lambda>m. m(b \<mapsto> c)" MaxRetries w w'] assms(3)
  by (simp add: SetBranchIPFiltering_def)

text \<open>C21. The functions on the ConfigMap refine an atomic map of entries: whatever other writers do meanwhile, a successful
  change of one branch or of several took effect at one moment, on the entries of that moment, so no concurrent change is
  lost; and a successful deletion removed the entry in this way, or saw a state of the object without it.\<close>

theorem ip_filtering_refines_map:
  assumes "optimistic_api kube hist" "json_ok js"
  shows "(SetBranchIPFiltering kube js b c w = (Inr (), w') \<longrightarrow> wrote js hist (\<lambda>m. m(b \<mapsto> c)) w w')
    \<and> (SetBranchesIPFiltering kube js bs c w = (Inr (), w') \<longrightarrow> bs = [] \<and> w' = w \<or> wrote js hist (set_all bs c) w w')
    \<and> (DeleteBranchIPFiltering kube js b w = (Inr (), w') \<longrightarrow>
        wrote js hist (\<lambda>m. m(b := None)) w w' \<or> (\<exists>st\<in>set (hist w'). configs_of js st b = None))"
  using optimistic_api.edit_linearized[OF assms, of "\<lambda>m. m(b \<mapsto> c)" MaxRetries w w']
    optimistic_api.edit_linearized[OF assms, of "set_all bs c" MaxRetries w w'] finite_set_all
    optimistic_api.delete_linearized[OF assms, of b MaxRetries w w']
  unfolding SetBranchIPFiltering_def SetBranchesIPFiltering_def DeleteBranchIPFiltering_def
  by (auto split: if_splits)

section \<open>An API server\<close>

text \<open>
  The world is what was stored, in order, and what other clients will write before the next requests.  The version of
  an object counts the writes.
\<close>

type_synonym 't server = "(string \<rightharpoonup> 't) option list \<times> (string \<rightharpoonup> 't) option option list"

definition stored_at :: "nat \<Rightarrow> (string \<rightharpoonup> 't) option \<Rightarrow> 't config_map" where
  "stored_at i d = \<lparr>cm_UID = ''uid'', cm_Version = replicate i CHR ''v'', cm_Data = d\<rparr>"

definition states :: "'t server \<Rightarrow> 't config_map option list" where
  "states s = None # map (\<lambda>i. Some (stored_at i (fst s ! i))) [0..<length (fst s)]"

definition others_first :: "'t server \<Rightarrow> 't server" where
  "others_first s = (case snd s of
     [] \<Rightarrow> s | None # rest \<Rightarrow> (fst s, rest) | Some d # rest \<Rightarrow> (fst s @ [d], rest))"

definition store_now :: "'t config_map \<Rightarrow> 't server \<Rightarrow> 't server" where
  "store_now cm s = (fst s @ [cm_Data cm], snd s)"

definition demo_kube :: "('t, 't server) kube" where
  "demo_kube = \<lparr>
     kube_get = (\<lambda>s. let s1 = others_first s in (case last (states s1) of None \<Rightarrow> Inl NotFound | Some cm \<Rightarrow> Inr cm, s1)),
     kube_create = (\<lambda>cm s. let s1 = others_first s in
       if fst s1 = [] then (Inr (), store_now cm s1) else (Inl AlreadyExists, s1)),
     kube_update = (\<lambda>cm s. let s1 = others_first s in
       case last (states s1) of None \<Rightarrow> (Inl NotFound, s1)
       | Some cur \<Rightarrow> if cm_Version cur = cm_Version cm then (Inr (), store_now cm s1) else (Inl Conflict, s1))\<rparr>"

lemma states_snoc: "states (ds @ [d], r) = states (ds, r') @ [Some (stored_at (length ds) d)]"
  by (simp add: states_def nth_append)

lemma states_others: "\<exists>pre. states (others_first s) = states s @ pre"
  using states_snoc[of "fst s" _ _ "snd s"]
  by (auto simp: others_first_def states_def nth_append split: list.splits option.splits)

lemma states_store: "states (store_now cm s) = states s @ [Some (stored_at (length (fst s)) (cm_Data cm))]"
  using states_snoc[of "fst s" "cm_Data cm" "snd s" "snd s"] by (simp add: store_now_def)

lemma last_state: "last (states s) \<in> set (states s)"
  by (rule last_in_set) (simp add: states_def)

interpretation demo: optimistic_api demo_kube states
proof unfold_locales
  fix w w' :: "'a server" and a b cm :: "'a config_map" and r :: "kube_err + 'a config_map" and q :: "kube_err + unit"
  obtain pre where pre: "states (others_first w) = states w @ pre" using states_others by blast
  show "Some a \<in> set (states w) \<Longrightarrow> Some b \<in> set (states w) \<Longrightarrow> cm_Version a = cm_Version b \<Longrightarrow> a = b"
    by (auto simp: states_def stored_at_def)
  show "Some a \<in> set (states w) \<Longrightarrow> cm_UID a \<noteq> ''''" by (auto simp: states_def stored_at_def)
  show "states w \<noteq> []" by (simp add: states_def)
  show "kube_get demo_kube w = (r, w') \<Longrightarrow> \<exists>grown. states w' = states w @ grown"
    using pre by (auto simp: demo_kube_def Let_def)
  show "kube_get demo_kube w = (Inr cm, w') \<Longrightarrow> Some cm \<in> set (states w')"
    using last_state[of "others_first w"] by (auto simp: demo_kube_def Let_def split: option.splits)
  show "kube_get demo_kube w = (Inl NotFound, w') \<Longrightarrow> None \<in> set (states w')"
    using last_state[of "others_first w"] by (auto simp: demo_kube_def Let_def split: option.splits)
  show "kube_create demo_kube cm w = (q, w') \<Longrightarrow> \<exists>grown. states w' = states w @ grown"
    using pre states_store[of cm "others_first w"] by (auto simp: demo_kube_def Let_def split: if_splits)
  show "kube_create demo_kube cm w = (Inr (), w') \<Longrightarrow> \<exists>pre new post. states w' = states w @ pre @ [Some new] @ post \<and>
      last (states w @ pre) = None \<and> cm_Data new = cm_Data cm"
  proof -
    assume "kube_create demo_kube cm w = (Inr (), w')"
    then have w': "w' = store_now cm (others_first w)" and e: "fst (others_first w) = []"
      by (auto simp: demo_kube_def Let_def split: if_splits)
    have "last (states w @ pre) = None" using e pre by (simp add: states_def flip: pre)
    moreover have "states w' = states w @ pre @ [Some (stored_at (length (fst (others_first w))) (cm_Data cm))] @ []"
      using states_store[of cm "others_first w"] pre by (simp add: w')
    ultimately show ?thesis by (metis config_map.select_convs(3) stored_at_def)
  qed
  show "kube_update demo_kube cm w = (q, w') \<Longrightarrow> \<exists>grown. states w' = states w @ grown"
    using pre states_store[of cm "others_first w"] by (auto simp: demo_kube_def Let_def split: if_splits option.splits)
  show "kube_update demo_kube cm w = (Inr (), w') \<Longrightarrow> \<exists>pre cur new post. states w' = states w @ pre @ [Some new] @ post \<and>
      last (states w @ pre) = Some cur \<and> cm_Version cur = cm_Version cm \<and> cm_Data new = cm_Data cm"
  proof -
    assume "kube_update demo_kube cm w = (Inr (), w')"
    then obtain cur where w': "w' = store_now cm (others_first w)"
      and cur: "last (states (others_first w)) = Some cur" "cm_Version cur = cm_Version cm"
      by (auto simp: demo_kube_def Let_def split: if_splits option.splits)
    have "states w' = states w @ pre @ [Some (stored_at (length (fst (others_first w))) (cm_Data cm))] @ []"
      using states_store[of cm "others_first w"] pre by (simp add: w')
    then show ?thesis using cur pre by (metis config_map.select_convs(3) stored_at_def)
  qed
qed

text \<open>JSON texts as what they decode to; the empty text does not decode.\<close>

definition demo_json :: "filter_configs option option json_lib" where
  "demo_json = \<lparr>js_Empty = None, js_Marshal = (\<lambda>m. Some (if finite (dom m) then Some m else None)),
     js_Unmarshal = (\<lambda>t. case t of Some (Some m) \<Rightarrow> if finite (dom m) then Some (Some m) else None | Some None \<Rightarrow> Some None | None \<Rightarrow> None)\<rparr>"

lemma demo_json_ok: "json_ok demo_json"
  by (auto simp: json_ok_def demo_json_def split: option.splits if_splits)

text \<open>Another writer comes between the read and the write, so the first attempt meets a conflict.\<close>

definition demo_world :: "filter_configs option option server" where
  "demo_world = ([], [None, Some (Some [ConfigMapKey \<mapsto> Some (Some [''other'' \<mapsto> DefaultIPFilteringConfig])])])"

lemma demo_set_succeeds: "\<exists>w'. SetBranchIPFiltering demo_kube demo_json ''main'' c demo_world = (Inr (), w')"
  by (simp add: SetBranchIPFiltering_def MaxRetries_def numeral_3_eq_3 demo_kube_def demo_json_def demo_world_def others_first_def
    states_def stored_at_def store_now_def edited_map_def existing_configs_def fresh_map_def Let_def ConfigMapKey_def DefaultIPFilteringConfig_def)

theorem ip_filtering_refines_map_witness:
  "\<exists>w'. SetBranchIPFiltering demo_kube demo_json ''main'' DefaultIPFilteringConfig demo_world = (Inr (), w') \<and>
     wrote demo_json states (\<lambda>m. m(''main'' \<mapsto> DefaultIPFilteringConfig)) demo_world w'"
  using ip_filtering_refines_map[OF demo.optimistic_api_axioms demo_json_ok] demo_set_succeeds by blast

end
