(* ===== verification/Ip_Filter.thy ===== *)
theory Ip_Filter
  imports Ip_Config Go_Float "HOL-Library.Word"
begin

unbundle bit_operations_syntax

text \<open>
  The gateway's IP filter (\<open>services/gateway/ipfiltering/filter.go\<close>): it watches the ConfigMap that the clusters
  service writes and decides per connection.  Of the standard library it uses \<open>netip.ParseAddr\<close>,
  \<open>netip.ParsePrefix\<close>, \<open>Prefix.Contains\<close> and \<open>net.SplitHostPort\<close>, which are translated here; addresses are
  words of 32 and 128 bits, the second with a zone.  The informer that delivers the events of the watch is not modelled:
  an event is a call of the handler.  The lock makes each handler and each decision atomic.
\<close>

section \<open>Addresses\<close>

datatype Addr = Addr4 "32 word" | Addr6 "128 word" string

text \<open>The fields of an IPv4 address: those read, the value and the digits of the current one.\<close>

fun ipv4_fields :: "int list \<Rightarrow> int \<Rightarrow> nat \<Rightarrow> string \<Rightarrow> int list option" where
  "ipv4_fields fs v digLen [] = (if length fs < 3 then None else Some (fs @ [v]))"
| "ipv4_fields fs v digLen (c # cs) = (case digit_val c of
     Some d \<Rightarrow>
       if digLen = 1 \<and> v = 0 then None
       else (let v' = 10 * v + int d in if v' > 255 then None else ipv4_fields fs v' (digLen + 1) cs)
   | None \<Rightarrow>
       if c = CHR ''.'' then
         (if digLen = 0 \<or> cs = [] then None else if length fs = 3 then None else ipv4_fields (fs @ [v]) 0 0 cs)
       else None)"

definition join :: "int \<Rightarrow> int list \<Rightarrow> int" where
  "join base fs = fold (\<lambda>f acc. base * acc + f) fs 0"

definition parseIPv4 :: "string \<Rightarrow> Addr option" where
  "parseIPv4 s = map_option (\<lambda>fs. Addr4 (word_of_int (join 256 fs))) (ipv4_fields [] 0 0 s)"

definition hex_group :: "string \<Rightarrow> int" where
  "hex_group hs = join 16 (map (\<lambda>c. case hex_val c of Some d \<Rightarrow> int d | None \<Rightarrow> 0) hs)"

text \<open>The groups of an IPv6 address; the first argument counts the groups that are left.\<close>

fun ipv6_groups :: "nat \<Rightarrow> int list \<Rightarrow> nat option \<Rightarrow> string \<Rightarrow> (int list \<times> nat option \<times> string) option" where
  "ipv6_groups 0 gs ellipsis s = Some (gs, ellipsis, s)"
| "ipv6_groups (Suc n) gs ellipsis s =
     (let hs = takeWhile (\<lambda>c. hex_val c \<noteq> None) s; rest = drop (length hs) s in
      if hs = [] \<or> length hs > 4 then None
      else (case rest of
          [] \<Rightarrow> Some (gs @ [hex_group hs], ellipsis, [])
        | c # cs \<Rightarrow>
            if c = CHR ''.'' then
              (if ellipsis = None \<and> length gs \<noteq> 6 then None
               else if length gs + 2 > 8 then None
               else (case ipv4_fields [] 0 0 s of
                   Some [a, b, d, e] \<Rightarrow> Some (gs @ [256 * a + b, 256 * d + e], ellipsis, [])
                 | _ \<Rightarrow> None))
            else if c \<noteq> CHR '':'' \<or> cs = [] then None
            else (let gs' = gs @ [hex_group hs] in
              if hd cs = CHR '':'' then
                (if ellipsis \<noteq> None then None
                 else if tl cs = [] then Some (gs', Some (length gs'), [])
                 else ipv6_groups n gs' (Some (length gs')) (tl cs))
              else ipv6_groups n gs' ellipsis cs)))"

definition ipv6_word :: "int list \<Rightarrow> nat option \<Rightarrow> string \<Rightarrow> 128 word option" where
  "ipv6_word gs ellipsis s =
     (if s \<noteq> [] then None
      else if length gs < 8 then
        (case ellipsis of
           None \<Rightarrow> None
         | Some e \<Rightarrow> Some (word_of_int (join 65536 (take e gs @ replicate (8 - length gs) 0 @ drop e gs))))
      else if ellipsis \<noteq> None then None else Some (word_of_int (join 65536 gs)))"

definition parseIPv6 :: "string \<Rightarrow> Addr option" where
  "parseIPv6 s0 =
     (let s = takeWhile (\<lambda>c. c \<noteq> CHR ''%'') s0; zone = drop (length s + 1) s0 in
      if length s < length s0 \<and> zone = [] then None
      else if take 2 s = ''::'' then
        (if length s = 2 then Some (Addr6 0 zone)
         else (case ipv6_groups 8 [] (Some 0) (drop 2 s) of
             Some (gs, e, r) \<Rightarrow> map_option (\<lambda>w. Addr6 w zone) (ipv6_word gs e r) | None \<Rightarrow> None))
      else (case ipv6_groups 8 [] None s of
             Some (gs, e, r) \<Rightarrow> map_option (\<lambda>w. Addr6 w zone) (ipv6_word gs e r) | None \<Rightarrow> None))"

definition ParseAddr :: "string \<Rightarrow> Addr option" where
  "ParseAddr s = (case dropWhile (\<lambda>c. c \<notin> {CHR ''.'', CHR '':'', CHR ''%''}) s of
     [] \<Rightarrow> None
   | c # _ \<Rightarrow> if c = CHR ''.'' then parseIPv4 s else if c = CHR '':'' then parseIPv6 s else None)"

section \<open>Prefixes\<close>

datatype Prefix = Prefix Addr nat

fun BitLen :: "Addr \<Rightarrow> nat" where
  "BitLen (Addr4 w) = 32"
| "BitLen (Addr6 w zone) = 128"

fun without_zone :: "Addr \<Rightarrow> Addr" where
  "without_zone (Addr4 w) = Addr4 w"
| "without_zone (Addr6 w zone) = Addr6 w ''''"

fun zoned :: "Addr \<Rightarrow> bool" where
  "zoned (Addr4 w) = False"
| "zoned (Addr6 w zone) = (zone \<noteq> '''')"

definition PrefixFrom :: "Addr \<Rightarrow> nat \<Rightarrow> Prefix" where
  "PrefixFrom ip bits = Prefix (without_zone ip) bits"

definition ParsePrefix :: "string \<Rightarrow> Prefix option" where
  "ParsePrefix s =
     (if CHR ''/'' \<notin> set s then None
      else let bitsStr = rev (takeWhile (\<lambda>c. c \<noteq> CHR ''/'') (rev s)); ipStr = take (length s - length bitsStr - 1) s in
        case ParseAddr ipStr of
          None \<Rightarrow> None
        | Some ip \<Rightarrow>
            if zoned ip then None
            else if length bitsStr > 1 \<and> (digit_val (hd bitsStr) = None \<or> hd bitsStr = CHR ''0'') then None
            else (case ParseInt bitsStr of
                None \<Rightarrow> None
              | Some bits \<Rightarrow> if bits < 0 \<or> bits > int (BitLen ip) then None else Some (PrefixFrom ip (nat bits))))"

fun Contains :: "Prefix \<Rightarrow> Addr \<Rightarrow> bool" where
  "Contains (Prefix (Addr4 p) bits) (Addr4 ip) = (drop_bit (32 - bits) (ip XOR p) = 0)"
| "Contains (Prefix (Addr6 p z) bits) (Addr6 ip zone) =
     (zone = '''' \<and> (ip XOR p) AND (NOT (mask (128 - bits))) = 0)"
| "Contains p ip = False"

section \<open>net.SplitHostPort\<close>

definition last_colon :: "string \<Rightarrow> nat option" where
  "last_colon s = (if CHR '':'' \<in> set s then Some (length s - 1 - length (takeWhile (\<lambda>c. c \<noteq> CHR '':'') (rev s))) else None)"

definition SplitHostPort :: "string \<Rightarrow> (string \<times> string) option" where
  "SplitHostPort hostport = (case last_colon hostport of
     None \<Rightarrow> None
   | Some i \<Rightarrow>
       if hd hostport = CHR ''['' then
         (if CHR '']'' \<notin> set hostport then None
          else let e = length (takeWhile (\<lambda>c. c \<noteq> CHR '']'') hostport) in
            if e + 1 \<noteq> i then None
            else if CHR ''['' \<in> set (drop 1 hostport) \<or> CHR '']'' \<in> set (drop (e + 1) hostport) then None
            else Some (take (e - 1) (drop 1 hostport), drop (i + 1) hostport))
       else
         (if CHR '':'' \<in> set (take i hostport) then None
          else if CHR ''['' \<in> set hostport \<or> CHR '']'' \<in> set hostport then None
          else Some (take i hostport, drop (i + 1) hostport)))"

section \<open>The filter\<close>

record branchRules =
  br_enabled :: bool
  br_prefixes :: "Prefix list"

record Filter =
  fi_rules :: "string \<rightharpoonup> branchRules"

definition allow_entry :: "string \<Rightarrow> Prefix option" where
  "allow_entry cidr = (case ParsePrefix cidr of
     Some p \<Rightarrow> Some p
   | None \<Rightarrow> (case ParseAddr cidr of None \<Rightarrow> None | Some addr \<Rightarrow> Some (PrefixFrom addr (BitLen addr))))"

definition updateRules :: "Filter \<Rightarrow> filter_configs \<Rightarrow> Filter" where
  "updateRules f dat = f\<lparr>fi_rules := (\<lambda>branchID. case dat branchID of
     None \<Rightarrow> None
   | Some config \<Rightarrow> if \<not> fc_Enabled config then None
       else Some \<lparr>br_enabled = True, br_prefixes = List.map_filter allow_entry (fc_Allowed config)\<rparr>)\<rparr>"

definition clear_rules :: "Filter \<Rightarrow> Filter" where
  "clear_rules f = f\<lparr>fi_rules := Map.empty\<rparr>"

definition handleConfigMap :: "'t json_lib \<Rightarrow> Filter \<Rightarrow> 't config_map \<Rightarrow> Filter" where
  "handleConfigMap js f cm = (case Option.bind (cm_Data cm) (\<lambda>d. d ConfigMapKey) of
     None \<Rightarrow> clear_rules f
   | Some raw \<Rightarrow> (case js_Unmarshal js raw of
       None \<Rightarrow> f
     | Some None \<Rightarrow> updateRules f Map.empty
     | Some (Some dat) \<Rightarrow> updateRules f dat))"

definition IsAllowed :: "Filter \<Rightarrow> string \<Rightarrow> string \<Rightarrow> bool" where
  "IsAllowed f branchID clientAddr = (case fi_rules f branchID of
     None \<Rightarrow> True
   | Some rules \<Rightarrow>
       if \<not> br_enabled rules then True
       else let ipStr = (case SplitHostPort clientAddr of Some (h, _) \<Rightarrow> h | None \<Rightarrow> clientAddr) in
         case ParseAddr ipStr of
           None \<Rightarrow> False
         | Some ip \<Rightarrow> list_ex (\<lambda>p. Contains p ip) (br_prefixes rules))"

text \<open>The handlers of the watch: an object was added or changed, or it is gone.\<close>

fun on_event :: "'t json_lib \<Rightarrow> Filter \<Rightarrow> 't config_map option \<Rightarrow> Filter" where
  "on_event js f (Some cm) = handleConfigMap js f cm"
| "on_event js f None = clear_rules f"

section \<open>What the filter enforces\<close>

text \<open>The network of a prefix in arithmetic: the addresses of its family that agree with it above the host bits.\<close>

fun in_network :: "Prefix \<Rightarrow> Addr \<Rightarrow> bool" where
  "in_network (Prefix (Addr4 p) bits) (Addr4 ip) = (uint ip div 2 ^ (32 - bits) = uint p div 2 ^ (32 - bits))"
| "in_network (Prefix (Addr6 p z) bits) (Addr6 ip zone) =
     (zone = '''' \<and> uint ip div 2 ^ (128 - bits) = uint p div 2 ^ (128 - bits))"
| "in_network p ip = False"

lemma word_xor_zero: "a XOR b = 0 \<longleftrightarrow> a = b" for a b :: "'a::len word"
  by (metis xor.assoc xor.right_neutral xor_self_eq)

lemma drop_bit_xor_zero: "drop_bit n a XOR drop_bit n b = 0 \<longleftrightarrow> uint a div 2 ^ n = uint b div 2 ^ n" for a b :: "'a::len word"
proof -
  have int: "uint x div 2 ^ n = int (unat (drop_bit n x))" for x :: "'a word"
    unfolding unat_drop_bit_eq by (simp only: drop_bit_eq_div zdiv_int) simp
  show ?thesis unfolding word_xor_zero int by (simp only: of_nat_eq_iff word_unat_eq_iff)
qed

lemma high_bits_zero: "x AND NOT (mask n) = 0 \<longleftrightarrow> drop_bit n x = 0" for x :: "'a::len word"
proof -
  have "x AND NOT (mask n) = push_bit n (drop_bit n x)"
    by (rule bit_word_eqI) (auto simp: bit_simps)
  moreover have "drop_bit n x = drop_bit n (push_bit n (drop_bit n x))"
    by (rule bit_word_eqI) (auto simp: bit_simps dest: bit_imp_le_length)
  ultimately show ?thesis by (metis drop_bit_of_0 push_bit_of_0)
qed

text \<open>The shifts and masks of \<open>Prefix.Contains\<close> decide membership in the network, for both families.\<close>

lemma Contains_is_in_network: "Contains p ip = in_network p ip"
  by (cases "(p, ip)" rule: Contains.cases) (simp_all add: drop_bit_xor_zero high_bits_zero)

text \<open>What an entry of the ConfigMap lets through: everything without an enabled entry, otherwise the clients whose
  address can be read and lies in one of the networks that can be read.\<close>

definition client_ip :: "string \<Rightarrow> Addr option" where
  "client_ip clientAddr = ParseAddr (case SplitHostPort clientAddr of Some (h, _) \<Rightarrow> h | None \<Rightarrow> clientAddr)"

definition permitted :: "IPFilteringConfig option \<Rightarrow> string \<Rightarrow> bool" where
  "permitted c clientAddr \<longleftrightarrow> (case c of
     None \<Rightarrow> True
   | Some config \<Rightarrow> \<not> fc_Enabled config \<or> (case client_ip clientAddr of
       None \<Rightarrow> False
     | Some ip \<Rightarrow> list_ex (\<lambda>entry. case allow_entry entry of Some p \<Rightarrow> in_network p ip | None \<Rightarrow> False) (fc_Allowed config)))"

definition readable :: "'t json_lib \<Rightarrow> 't config_map option \<Rightarrow> bool" where
  "readable js st \<longleftrightarrow> (case Option.bind st (\<lambda>cm. Option.bind (cm_Data cm) (\<lambda>d. d ConfigMapKey)) of
     None \<Rightarrow> True | Some t \<Rightarrow> js_Unmarshal js t \<noteq> None)"

lemma list_ex_map_filter: "list_ex P (List.map_filter g xs) = list_ex (\<lambda>x. case g x of Some y \<Rightarrow> P y | None \<Rightarrow> False) xs"
  by (induction xs) (auto simp: List.map_filter_simps split: option.splits)

lemma IsAllowed_updateRules: "IsAllowed (updateRules f dat) b a = permitted (dat b) a"
  by (auto simp: IsAllowed_def updateRules_def permitted_def client_ip_def list_ex_map_filter Contains_is_in_network Let_def
      split: option.splits)

lemma IsAllowed_clear: "IsAllowed (clear_rules f) b a = permitted None a"
  by (simp add: IsAllowed_def clear_rules_def permitted_def)

lemma IsAllowed_on_event:
  "IsAllowed (on_event js f st) b a = (if readable js st then permitted (configs_of js st b) a else IsAllowed f b a)"
  by (cases st) (auto simp: handleConfigMap_def readable_def configs_of_def IsAllowed_updateRules IsAllowed_clear split: option.splits)

text \<open>C23. At every moment the filter decides as the last state of the ConfigMap says that it could read: after any
  sequence of events of the watch, a readable state, and the absence of the object or of the key, has replaced all rules
  at once, and unreadable states have changed nothing.  Decisions are by arithmetic membership in the listed networks.\<close>

theorem filter_enforces:
  "IsAllowed (fold (\<lambda>st f. on_event js f st) sts f) b a =
     (case rev (filter (readable js) sts) of
        [] \<Rightarrow> IsAllowed f b a
      | st # _ \<Rightarrow> permitted (configs_of js st b) a)"
  by (induction sts rule: rev_induct) (simp_all add: IsAllowed_on_event)

lemma readable_entry: "configs_of js st b \<noteq> None \<Longrightarrow> readable js st"
  by (auto simp: readable_def configs_of_def split: option.splits)

text \<open>C22. Both sides together: when \<open>SetBranchIPFiltering\<close> returns without an error, it has put a state of the ConfigMap
  into the history such that a gateway that handles this state enforces the new entry for the branch, whatever rules it
  had, and keeps enforcing for every other branch the entry that was current at that moment.\<close>

theorem set_then_enforced:
  assumes "optimistic_api kube hist" "json_ok js" "SetBranchIPFiltering kube js b c w = (Inr (), w')"
  shows "\<exists>pre st post. hist w' = hist w @ pre @ [st] @ post \<and>
    (\<forall>f a. IsAllowed (on_event js f st) b a = permitted (Some c) a) \<and>
    (\<forall>f a b'. b' \<noteq> b \<longrightarrow> IsAllowed (on_event js f st) b' a = permitted (configs_of js (last (hist w @ pre)) b') a)"
proof -
  obtain pre st post where h: "hist w' = hist w @ pre @ [st] @ post"
    and st: "configs_of js st = (configs_of js (last (hist w @ pre)))(b \<mapsto> c)"
    using SetBranch_wrote[OF assms] unfolding wrote_def by blast
  have "readable js st" using readable_entry[of js st b] st by simp
  then show ?thesis using h st IsAllowed_on_event by (metis fun_upd_other fun_upd_same)
qed

text \<open>The client of the ConfigMap with a concurrent writer, and two decisions under the entry it wrote.\<close>

definition office :: IPFilteringConfig where
  "office = \<lparr>fc_Enabled = True, fc_Allowed = [''10.1.0.0/16'', ''bad'', ''2001:db8::1'']\<rparr>"

theorem set_then_enforced_witness:
  "\<exists>w' pre st post. SetBranchIPFiltering demo_kube demo_json ''main'' office demo_world = (Inr (), w') \<and>
     states w' = states demo_world @ pre @ [st] @ post \<and>
     (\<forall>f. IsAllowed (on_event demo_json f st) ''main'' ''10.1.200.7:5432'' \<and>
       IsAllowed (on_event demo_json f st) ''main'' ''[2001:db8::1]:5432'' \<and>
       \<not> IsAllowed (on_event demo_json f st) ''main'' ''10.2.0.1:5432'')"
proof -
  obtain w' where run: "SetBranchIPFiltering demo_kube demo_json ''main'' office demo_world = (Inr (), w')"
    using demo_set_succeeds by blast
  obtain pre st post where st: "states w' = states demo_world @ pre @ [st] @ post"
    "\<forall>f a. IsAllowed (on_event demo_json f st) ''main'' a = permitted (Some office) a"
    using set_then_enforced[OF demo.optimistic_api_axioms demo_json_ok run] by blast
  have "permitted (Some office) ''10.1.200.7:5432''" by code_simp
  moreover have "permitted (Some office) ''[2001:db8::1]:5432''" by code_simp
  moreover have "\<not> permitted (Some office) ''10.2.0.1:5432''" by code_simp
  ultimately show ?thesis using run st by blast
qed

end
