(* ===== verification/Pg_Images.thy ===== *)
theory Pg_Images
  imports Go_Num "HOL-Library.Char_ord" "HOL-Library.List_Lexorder" "HOL-Library.Multiset"
begin

text \<open>
  The PostgreSQL images on offer (\<open>internal/postgresversions/versions.go\<close>) and the file \<open>versions.yaml\<close> that lists
  them.  The functions read a package variable that the file is loaded into; here it is their first argument.  A Go map
  is iterated in an unspecified order: the majors of a source are an association list, in whatever order the loop meets
  them, and \<open>GetAllImageNames_any_order\<close> shows that the order does not show.  Strings compare bytewise.
\<close>

section \<open>Names of images\<close>

definition Cut :: "char \<Rightarrow> string \<Rightarrow> string \<times> string \<times> bool" where
  "Cut c s = (takeWhile (\<lambda>x. x \<noteq> c) s, tl (dropWhile (\<lambda>x. x \<noteq> c) s), c \<in> set s)"

definition after_last :: "char \<Rightarrow> string \<Rightarrow> string" where
  "after_last c s = rev (takeWhile (\<lambda>x. x \<noteq> c) (rev s))"

definition before_last :: "char \<Rightarrow> string \<Rightarrow> string option" where
  "before_last c s = (if c \<in> set s then Some (take (length s - length (after_last c s) - 1) s) else None)"

definition Postgres :: string where "Postgres = ''postgres''"
definition CNPGPostgres :: string where "CNPGPostgres = ''cnpg-postgres-plus''"
definition Analytics :: string where "Analytics = ''analytics''"
definition XataAnalytics :: string where "XataAnalytics = ''xata-analytics''"

definition imageDisplayNames :: "(string \<times> string) list" where
  "imageDisplayNames = [(CNPGPostgres, Postgres), (XataAnalytics, Analytics)]"

definition imageSourceNames :: "(string \<times> string) list" where
  "imageSourceNames = [(Postgres, CNPGPostgres), (Analytics, XataAnalytics)]"

definition getDisplayName :: "string \<Rightarrow> string" where
  "getDisplayName sourceImageName =
     (case map_of imageDisplayNames sourceImageName of Some displayName \<Rightarrow> displayName | None \<Rightarrow> sourceImageName)"

definition getSourceName :: "string \<Rightarrow> string" where
  "getSourceName displayName =
     (case map_of imageSourceNames displayName of Some sourceName \<Rightarrow> sourceName | None \<Rightarrow> displayName)"

section \<open>The list of versions\<close>

record MajorVersion =
  mv_Versions :: "string list"
  mv_Latest :: string
  mv_Supported :: bool
  mv_ShowOnlyLatest :: bool
  mv_Hidden :: bool

record Source =
  so_Source :: string
  so_PackageURL :: string
  so_MajorVersions :: "(string \<times> MajorVersion) list"

record PostgreSQLVersions =
  pv_LastUpdated :: string
  pv_UpdatedBy :: string
  pv_Sources :: "Source list"

datatype versions_err = NoSources | SourceRequired nat | NoVersionDefinitions string

text \<open>The checks on the decoded file.\<close>

fun check_sources :: "nat \<Rightarrow> Source list \<Rightarrow> versions_err option" where
  "check_sources i [] = None"
| "check_sources i (source # rest) =
     (if so_Source source = '''' then Some (SourceRequired i)
      else if so_MajorVersions source = [] then Some (NoVersionDefinitions (so_Source source))
      else check_sources (i + 1) rest)"

definition loadVersions :: "PostgreSQLVersions \<Rightarrow> versions_err + PostgreSQLVersions" where
  "loadVersions versions =
     (if pv_Sources versions = [] then Inl NoSources
      else case check_sources 0 (pv_Sources versions) of Some e \<Rightarrow> Inl e | None \<Rightarrow> Inr versions)"

definition add_new :: "'a \<Rightarrow> 'a list \<Rightarrow> 'a list" where
  "add_new x xs = (if x \<in> set xs then xs else xs @ [x])"

definition add_major :: "(string \<Rightarrow> string) \<Rightarrow> MajorVersion \<Rightarrow> string list \<Rightarrow> string list" where
  "add_major name major xs =
     (if mv_Supported major then fold (\<lambda>version. add_new (name version)) (mv_Versions major) xs else xs)"

definition GetAllVersions :: "PostgreSQLVersions \<Rightarrow> string list" where
  "GetAllVersions pv =
     fold (\<lambda>source. fold (\<lambda>(_, major). add_major (\<lambda>version. version) major) (so_MajorVersions source)) (pv_Sources pv) []"

definition GetVersionsForMajor :: "PostgreSQLVersions \<Rightarrow> string \<Rightarrow> string list" where
  "GetVersionsForMajor pv major =
     fold (\<lambda>source xs. case map_of (so_MajorVersions source) major of
       Some majorVersion \<Rightarrow> add_major (\<lambda>version. version) majorVersion xs | None \<Rightarrow> xs) (pv_Sources pv) []"

definition GetLatestForMajor :: "PostgreSQLVersions \<Rightarrow> string \<Rightarrow> string" where
  "GetLatestForMajor pv major =
     fold (\<lambda>source latestVersion. case map_of (so_MajorVersions source) major of
       Some majorVersion \<Rightarrow>
         if mv_Supported majorVersion \<and> (latestVersion = '''' \<or> mv_Latest majorVersion > latestVersion)
         then mv_Latest majorVersion else latestVersion
     | None \<Rightarrow> latestVersion) (pv_Sources pv) ''''"

definition sourceDisplayName :: "string \<Rightarrow> string" where
  "sourceDisplayName source = getDisplayName (after_last CHR ''/'' source)"

definition GetSupportedMajorVersions :: "PostgreSQLVersions \<Rightarrow> string \<rightharpoonup> string list" where
  "GetSupportedMajorVersions pv =
     fold (\<lambda>source result. result(sourceDisplayName (so_Source source) \<mapsto>
       map fst (filter (\<lambda>(_, info). mv_Supported info) (so_MajorVersions source)))) (pv_Sources pv) Map.empty"

definition IsVersionAvailable :: "PostgreSQLVersions \<Rightarrow> string \<Rightarrow> bool" where
  "IsVersionAvailable pv version \<longleftrightarrow> version \<in> set (GetAllVersions pv)"

definition ValidateVersion :: "PostgreSQLVersions \<Rightarrow> string \<Rightarrow> bool" where
  "ValidateVersion pv version = IsVersionAvailable pv version"

section \<open>Image names and registry paths\<close>

definition convertImageName :: "string \<Rightarrow> string" where
  "convertImageName imageName = (case Cut CHR '':'' imageName of
     (imageNamePart, tag, ok) \<Rightarrow>
       if \<not> ok then getSourceName imageName else getSourceName imageNamePart @ '':'' @ tag)"

text \<open>A source without a slash makes the slice expression of the registry path panic (\<open>None\<close>).\<close>

definition BuildImageURL :: "PostgreSQLVersions \<Rightarrow> string \<Rightarrow> string option" where
  "BuildImageURL pv imageName =
     (let imageNamePart = (case Cut CHR '':'' imageName of (before, _, ok) \<Rightarrow> if ok then before else imageName) in
      case find (\<lambda>source. let sourceImageName = after_last CHR ''/'' (so_Source source) in
             sourceImageName = imageNamePart \<or> sourceImageName = getSourceName imageNamePart) (pv_Sources pv) of
        Some source \<Rightarrow> map_option (\<lambda>registryPath. registryPath @ ''/'' @ convertImageName imageName)
                         (before_last CHR ''/'' (so_Source source))
      | None \<Rightarrow> Some imageName)"

definition ShortImageName :: "string \<Rightarrow> string" where
  "ShortImageName fullImageName = (let imageWithTag = after_last CHR ''/'' fullImageName in
     case find (\<lambda>(sourceName, _). take (length sourceName + 1) imageWithTag = sourceName @ '':'') imageDisplayNames of
       Some (sourceName, displayName) \<Rightarrow> displayName @ drop (length sourceName) imageWithTag
     | None \<Rightarrow> imageWithTag)"

definition GetMajorForVersion :: "string \<Rightarrow> string" where
  "GetMajorForVersion version = (let digits = takeWhile (\<lambda>c. digit_val c \<noteq> None) version in
     if digits = version then version
     else if digits = '''' then fst (Cut CHR ''.'' version)
     else digits)"

record ImageVersion =
  iv_Offering :: string
  iv_Major :: int
  iv_Minor :: int

datatype image_err = ExpectedOfferingVersion | ExpectedMajorMinor | InvalidMajor string | InvalidMinor string | NotAvailable string

definition strip_suffix :: "string \<Rightarrow> string" where
  "strip_suffix version = takeWhile (\<lambda>c. c \<noteq> CHR ''-'') version"

definition ParseImageVersion :: "string \<Rightarrow> image_err + ImageVersion" where
  "ParseImageVersion img = (case Cut CHR '':'' (ShortImageName img) of
     (offering, version, ok) \<Rightarrow>
       if \<not> ok then Inl ExpectedOfferingVersion
       else (case Cut CHR ''.'' (strip_suffix version) of
         (majorStr, minorStr, ok') \<Rightarrow>
           if \<not> ok' then Inl ExpectedMajorMinor
           else (case ParseInt majorStr of
               None \<Rightarrow> Inl (InvalidMajor majorStr)
             | Some major \<Rightarrow> (case ParseInt minorStr of
                 None \<Rightarrow> Inl (InvalidMinor minorStr)
               | Some minor \<Rightarrow> Inr \<lparr>iv_Offering = offering, iv_Major = major, iv_Minor = minor\<rparr>))))"

definition ExtractVersionFromImageName :: "string \<Rightarrow> string" where
  "ExtractVersionFromImageName imageName =
     (if CHR '':'' \<notin> set imageName then '''' else strip_suffix (after_last CHR '':'' imageName))"

definition ExtractMajorVersionFromImage :: "string \<Rightarrow> int" where
  "ExtractMajorVersionFromImage imageName =
     (if CHR '':'' \<notin> set imageName then 0
      else let versionPart = strip_suffix (after_last CHR '':'' imageName);
               numericPart = takeWhile (\<lambda>c. digit_val c \<noteq> None) versionPart;
               versionPart' = (if CHR ''.'' \<in> set versionPart then takeWhile (\<lambda>c. c \<noteq> CHR ''.'') versionPart
                               else if numericPart \<noteq> '''' then numericPart else versionPart) in
        case ParseInt versionPart' of Some majorVersion \<Rightarrow> majorVersion | None \<Rightarrow> 0)"

section \<open>The images on offer\<close>

definition image_tag :: "string \<Rightarrow> string \<Rightarrow> string" where
  "image_tag imageName version = imageName @ '':'' @ version"

definition all_image_names :: "PostgreSQLVersions \<Rightarrow> string list" where
  "all_image_names pv = fold (\<lambda>source. fold (\<lambda>(_, major). add_major (image_tag (sourceDisplayName (so_Source source))) major)
     (so_MajorVersions source)) (pv_Sources pv) []"

definition GetAllImageNames :: "PostgreSQLVersions \<Rightarrow> string list" where
  "GetAllImageNames pv = sort (all_image_names pv)"

definition ValidateImage :: "PostgreSQLVersions \<Rightarrow> string \<Rightarrow> image_err option" where
  "ValidateImage pv img =
     (if count_list img CHR '':'' \<noteq> 1 then Some ExpectedOfferingVersion
      else if img \<notin> set (GetAllImageNames pv) then Some (NotAvailable img)
      else None)"

definition HiddenMajorImages :: "PostgreSQLVersions \<Rightarrow> string \<rightharpoonup> string" where
  "HiddenMajorImages pv = fold (\<lambda>source. fold (\<lambda>(majorName, major) hidden.
     if \<not> mv_Supported major \<or> \<not> mv_Hidden major then hidden
     else fold (\<lambda>version h. h(image_tag (sourceDisplayName (so_Source source)) version \<mapsto> majorName)) (mv_Versions major) hidden)
     (so_MajorVersions source)) (pv_Sources pv) Map.empty"

definition HiddenImageNames :: "PostgreSQLVersions \<Rightarrow> string list" where
  "HiddenImageNames pv = sort (fold (\<lambda>source. fold (\<lambda>(_, major) hidden.
     if \<not> mv_Supported major \<or> \<not> mv_ShowOnlyLatest major then hidden
     else fold (\<lambda>version h. if version = mv_Latest major then h
                            else add_new (image_tag (sourceDisplayName (so_Source source)) version) h) (mv_Versions major) hidden)
     (so_MajorVersions source)) (pv_Sources pv) [])"

section \<open>versions.yaml\<close>

definition yaml_major :: "string list \<Rightarrow> string \<Rightarrow> bool \<Rightarrow> bool \<Rightarrow> MajorVersion" where
  "yaml_major versions latest show_only_latest hidden = \<lparr>mv_Versions = versions, mv_Latest = latest, mv_Supported = True,
     mv_ShowOnlyLatest = show_only_latest, mv_Hidden = hidden\<rparr>"

definition yaml_source :: "string \<Rightarrow> (string \<times> MajorVersion) list \<Rightarrow> Source" where
  "yaml_source name majors = \<lparr>so_Source = ''ghcr.io/xataio/postgres-images/'' @ name,
     so_PackageURL = ''https://github.com/xataio/postgres-images/pkgs/container/postgres-images%2F'' @ name,
     so_MajorVersions = majors\<rparr>"

definition versions_yaml :: PostgreSQLVersions where
  "versions_yaml = \<lparr>pv_LastUpdated = ''2026-08-19T03:57:13Z'', pv_UpdatedBy = ''workflow'', pv_Sources = [
     yaml_source ''cnpg-postgres-plus'' [
       (''14'', yaml_major [''14.20'', ''14.22'', ''14.23'', ''14.24''] ''14.24'' True True),
       (''15'', yaml_major [''15.15'', ''15.17'', ''15.18'', ''15.19''] ''15.19'' True True),
       (''16'', yaml_major [''16.11'', ''16.13'', ''16.14'', ''16.15''] ''16.15'' True False),
       (''17'', yaml_major [''17.5'', ''17.6'', ''17.7'', ''17.9'', ''17.10'', ''17.11''] ''17.11'' True False),
       (''18'', yaml_major [''18.0'', ''18.1'', ''18.3'', ''18.4'', ''18.6''] ''18.6'' True False)],
     yaml_source ''experimental'' [
       (''17'', yaml_major [''17.7'', ''17.9'', ''17.10'', ''17.11''] ''17.11'' False False),
       (''18'', yaml_major [''18.1'', ''18.3'', ''18.4'', ''18.6''] ''18.6'' False False),
       (''16'', yaml_major [''16.11'', ''16.13'', ''16.14'', ''16.15''] ''16.15'' True False)],
     yaml_source ''xata-analytics'' [
       (''17'', yaml_major [''17.6'', ''17.7'', ''17.9'', ''17.10'', ''17.11''] ''17.11'' False False),
       (''18'', yaml_major [''18.0'', ''18.1'', ''18.3'', ''18.4'', ''18.6''] ''18.6'' False False)]]\<rparr>"

section \<open>The lists are exact\<close>

text \<open>What is on offer, hidden behind \<open>legacyPgVersions\<close> and hidden behind the flag of a major, read off the file.\<close>

definition offered_by :: "PostgreSQLVersions \<Rightarrow> (string \<Rightarrow> MajorVersion \<Rightarrow> string \<Rightarrow> bool) \<Rightarrow> string set" where
  "offered_by pv P = {image_tag (sourceDisplayName (so_Source src)) v | src name mv v.
     src \<in> set (pv_Sources pv) \<and> (name, mv) \<in> set (so_MajorVersions src) \<and> mv_Supported mv \<and> v \<in> set (mv_Versions mv) \<and> P name mv v}"

lemma set_fold_add_new: "set (fold (\<lambda>x. add_new (f x)) xs acc) = f ` set xs \<union> set acc"
  by (induction xs arbitrary: acc) (auto simp: add_new_def)

lemma distinct_fold_add_new: "distinct acc \<Longrightarrow> distinct (fold (\<lambda>x. add_new (f x)) xs acc)"
  by (induction xs arbitrary: acc) (auto simp: add_new_def)

lemma set_fold_grow: "(\<And>x acc. set (g x acc) = h x \<union> set acc) \<Longrightarrow> set (fold g xs acc) = (\<Union>x\<in>set xs. h x) \<union> set acc"
  by (induction xs arbitrary: acc) auto

lemma distinct_fold: "(\<And>x acc. distinct acc \<Longrightarrow> distinct (g x acc)) \<Longrightarrow> distinct acc \<Longrightarrow> distinct (fold g xs acc)"
  by (induction xs arbitrary: acc) auto

lemma set_add_major: "set (add_major f mv acc) = (if mv_Supported mv then f ` set (mv_Versions mv) else {}) \<union> set acc"
  by (simp add: add_major_def set_fold_add_new)

lemma distinct_add_major: "distinct acc \<Longrightarrow> distinct (add_major f mv acc)"
  by (simp add: add_major_def distinct_fold_add_new)

lemma set_all_image_names: "set (all_image_names pv) = offered_by pv (\<lambda>_ _ _. True)"
proof -
  let ?f = "\<lambda>src p. add_major (image_tag (sourceDisplayName (so_Source src))) (snd p)"
  let ?h = "\<lambda>src p. if mv_Supported (snd p) then image_tag (sourceDisplayName (so_Source src)) ` set (mv_Versions (snd p)) else {}"
  have inner: "set (fold (?f src) ps acc) = (\<Union>p\<in>set ps. ?h src p) \<union> set acc" for src acc and ps :: "(string \<times> MajorVersion) list"
    by (rule set_fold_grow) (simp only: set_add_major)
  have "all_image_names pv = fold (\<lambda>src. fold (?f src) (so_MajorVersions src)) (pv_Sources pv) []"
    unfolding all_image_names_def by (simp add: case_prod_beta')
  moreover have "set (fold (\<lambda>src. fold (?f src) (so_MajorVersions src)) (pv_Sources pv) []) =
      (\<Union>src\<in>set (pv_Sources pv). \<Union>p\<in>set (so_MajorVersions src). ?h src p) \<union> set []"
    by (rule set_fold_grow) (rule inner)
  ultimately show ?thesis by (fastforce simp: offered_by_def split: if_splits)
qed

lemma distinct_all_image_names: "distinct (all_image_names pv)"
  unfolding all_image_names_def
  by (intro distinct_fold) (auto intro!: distinct_fold distinct_add_major simp: case_prod_beta')

text \<open>The list of image names is sorted and without repetitions, and holds exactly the versions of supported majors of
  all sources under their display names.\<close>

lemma GetAllImageNames_exact:
  "sorted (GetAllImageNames pv) \<and> distinct (GetAllImageNames pv) \<and> set (GetAllImageNames pv) = offered_by pv (\<lambda>_ _ _. True)"
  by (simp add: GetAllImageNames_def set_all_image_names distinct_all_image_names)

text \<open>The order in which the loops meet the majors does not show in the result.\<close>

definition same_file :: "PostgreSQLVersions \<Rightarrow> PostgreSQLVersions \<Rightarrow> bool" where
  "same_file pv pv' \<longleftrightarrow> list_all2 (\<lambda>s t. so_Source s = so_Source t \<and> mset (so_MajorVersions s) = mset (so_MajorVersions t))
     (pv_Sources pv) (pv_Sources pv')"

lemma offered_by_mono: "same_file pv pv' \<Longrightarrow> offered_by pv P \<subseteq> offered_by pv' P"
  unfolding same_file_def offered_by_def list_all2_conv_all_nth
  by (smt (verit) Collect_mono_iff in_set_conv_nth set_mset_mset)

lemma same_file_sym: "same_file pv pv' \<Longrightarrow> same_file pv' pv"
  unfolding same_file_def by (metis (mono_tags, lifting) list_all2_conv_all_nth)

lemma GetAllImageNames_any_order: "same_file pv pv' \<Longrightarrow> GetAllImageNames pv = GetAllImageNames pv'"
  by (rule sorted_distinct_set_unique)
    (auto simp: GetAllImageNames_def distinct_all_image_names set_all_image_names dest: offered_by_mono same_file_sym)

lemma dom_fold_grow: "(\<And>x acc. dom (g x acc) = h x \<union> dom acc) \<Longrightarrow> dom (fold g xs acc) = (\<Union>x\<in>set xs. h x) \<union> dom acc"
  by (induction xs arbitrary: acc) auto

text \<open>What the flags hide are images on offer, and exactly those the file marks.\<close>

lemma HiddenMajorImages_dom: "dom (HiddenMajorImages pv) = offered_by pv (\<lambda>_ mv _. mv_Hidden mv)"
proof -
  let ?n = "\<lambda>src. image_tag (sourceDisplayName (so_Source src))"
  let ?m = "\<lambda>src p acc. if \<not> mv_Supported (snd p) \<or> \<not> mv_Hidden (snd p) then acc
    else fold (\<lambda>version h. h(?n src version \<mapsto> fst p)) (mv_Versions (snd p)) acc"
  let ?h = "\<lambda>src p. if \<not> mv_Supported (snd p) \<or> \<not> mv_Hidden (snd p) then {} else ?n src ` set (mv_Versions (snd p))"
  have vs: "dom (fold (\<lambda>version h. h(f version \<mapsto> (a :: string))) vs acc) = f ` set vs \<union> dom acc" for f :: "string \<Rightarrow> string" and a vs acc
    by (induction vs arbitrary: acc) auto
  have inner: "dom (fold (?m src) ps acc) = (\<Union>p\<in>set ps. ?h src p) \<union> dom acc" for src acc and ps :: "(string \<times> MajorVersion) list"
    by (rule dom_fold_grow) (simp add: vs)
  have "HiddenMajorImages pv = fold (\<lambda>src. fold (?m src) (so_MajorVersions src)) (pv_Sources pv) Map.empty"
    unfolding HiddenMajorImages_def by (simp add: case_prod_beta')
  moreover have "dom (fold (\<lambda>src. fold (?m src) (so_MajorVersions src)) (pv_Sources pv) Map.empty) =
      (\<Union>src\<in>set (pv_Sources pv). \<Union>p\<in>set (so_MajorVersions src). ?h src p) \<union> dom (Map.empty :: string \<rightharpoonup> string)"
    by (rule dom_fold_grow) (rule inner)
  ultimately show ?thesis by (fastforce simp: offered_by_def split: if_splits)
qed

lemma set_HiddenImageNames: "set (HiddenImageNames pv) = offered_by pv (\<lambda>_ mv v. mv_ShowOnlyLatest mv \<and> v \<noteq> mv_Latest mv)"
proof -
  let ?n = "\<lambda>src. image_tag (sourceDisplayName (so_Source src))"
  let ?m = "\<lambda>src p acc. if \<not> mv_Supported (snd p) \<or> \<not> mv_ShowOnlyLatest (snd p) then acc
    else fold (\<lambda>version h. if version = mv_Latest (snd p) then h else add_new (?n src version) h) (mv_Versions (snd p)) acc"
  let ?h = "\<lambda>src p. if \<not> mv_Supported (snd p) \<or> \<not> mv_ShowOnlyLatest (snd p) then {}
    else ?n src ` (set (mv_Versions (snd p)) - {mv_Latest (snd p)})"
  have vs: "set (fold (\<lambda>version h. if version = l then h else add_new (f version) h) vs acc) = f ` (set vs - {l}) \<union> set acc"
    for f :: "string \<Rightarrow> string" and l vs acc
    by (induction vs arbitrary: acc) (auto simp: add_new_def)
  have inner: "set (fold (?m src) ps acc) = (\<Union>p\<in>set ps. ?h src p) \<union> set acc" for src acc and ps :: "(string \<times> MajorVersion) list"
    by (rule set_fold_grow) (simp add: vs)
  have "HiddenImageNames pv = sort (fold (\<lambda>src. fold (?m src) (so_MajorVersions src)) (pv_Sources pv) [])"
    unfolding HiddenImageNames_def by (simp add: case_prod_beta')
  moreover have "set (fold (\<lambda>src. fold (?m src) (so_MajorVersions src)) (pv_Sources pv) []) =
      (\<Union>src\<in>set (pv_Sources pv). \<Union>p\<in>set (so_MajorVersions src). ?h src p) \<union> set []"
    by (rule set_fold_grow) (rule inner)
  ultimately show ?thesis by (fastforce simp: offered_by_def split: if_splits)
qed

section \<open>Names and registry paths agree\<close>

text \<open>Sources are paths whose last part is no display name and has no colon; versions have no slash.\<close>

definition well_named :: "PostgreSQLVersions \<Rightarrow> bool" where
  "well_named pv \<longleftrightarrow> list_all (\<lambda>src. let n = after_last CHR ''/'' (so_Source src) in
     CHR ''/'' \<in> set (so_Source src) \<and> CHR '':'' \<notin> set n \<and> n \<noteq> Postgres \<and> n \<noteq> Analytics \<and>
     list_all (\<lambda>(_, mv). list_all (\<lambda>v. CHR ''/'' \<notin> set v) (mv_Versions mv)) (so_MajorVersions src)) (pv_Sources pv)"

lemmas name_defs = Postgres_def CNPGPostgres_def Analytics_def XataAnalytics_def imageDisplayNames_def imageSourceNames_def

lemma scan_absent: "c \<notin> set s \<Longrightarrow> takeWhile (\<lambda>x. x \<noteq> c) s = s" "c \<notin> set s \<Longrightarrow> dropWhile (\<lambda>x. x \<noteq> c) s = []"
  by (induction s) auto

lemma after_last_append: "c \<notin> set t \<Longrightarrow> after_last c (s @ c # t) = t"
  by (simp add: after_last_def takeWhile_tail scan_absent)

lemma after_last_no: "c \<notin> set s \<Longrightarrow> after_last c s = s"
  by (simp add: after_last_def scan_absent)

lemma after_last_not_in: "c \<notin> set (after_last c s)"
  unfolding after_last_def using set_takeWhileD[of c "\<lambda>x. x \<noteq> c" "rev s"] by auto

lemma Cut_append: "c \<notin> set s \<Longrightarrow> Cut c (s @ c # t) = (s, t, True)"
  by (auto simp: Cut_def takeWhile_append dropWhile_append scan_absent)

lemma display_source: "n \<noteq> Postgres \<Longrightarrow> n \<noteq> Analytics \<Longrightarrow> getSourceName (getDisplayName n) = n"
  by (simp add: getDisplayName_def getSourceName_def name_defs)

lemma display_chars: "c \<notin> set n \<Longrightarrow> c \<in> {CHR ''/'', CHR '':''} \<Longrightarrow> c \<notin> set (getDisplayName n)"
  by (auto simp: getDisplayName_def name_defs)

lemma tag_prefix:
  assumes "CHR '':'' \<notin> set n" "CHR '':'' \<notin> set m"
  shows "take (length m + 1) (n @ CHR '':'' # v) = m @ [CHR '':''] \<longleftrightarrow> n = m"
proof
  assume "take (length m + 1) (n @ CHR '':'' # v) = m @ [CHR '':'']"
  then have "n @ CHR '':'' # v = m @ CHR '':'' # drop (length m + 1) (n @ CHR '':'' # v)"
    by (metis append.assoc append_Cons append_Nil append_take_drop_id)
  then have "fst (Cut CHR '':'' (n @ CHR '':'' # v)) = m" using Cut_append[OF assms(2)] by simp
  then show "n = m" using Cut_append[OF assms(1)] by simp
qed simp

lemma Short_url:
  assumes "CHR ''/'' \<notin> set n" "CHR '':'' \<notin> set n" "CHR ''/'' \<notin> set v"
  shows "ShortImageName (path @ ''/'' @ n @ '':'' @ v) = image_tag (getDisplayName n) v"
    "ShortImageName (image_tag n v) = image_tag (getDisplayName n) v"
proof -
  have "after_last CHR ''/'' (path @ ''/'' @ n @ '':'' @ v) = n @ CHR '':'' # v"
    using after_last_append[of "CHR ''/''" "n @ CHR '':'' # v" path] assms by simp
  moreover have "after_last CHR ''/'' (image_tag n v) = n @ CHR '':'' # v"
    using assms by (simp add: image_tag_def after_last_no)
  moreover have "take (length m + 1) (n @ CHR '':'' # v) = m @ [CHR '':''] \<longleftrightarrow> n = m" if "m \<in> {CNPGPostgres, XataAnalytics}" for m
    by (rule tag_prefix) (use that assms in \<open>auto simp: name_defs\<close>)
  ultimately show "ShortImageName (path @ ''/'' @ n @ '':'' @ v) = image_tag (getDisplayName n) v"
    "ShortImageName (image_tag n v) = image_tag (getDisplayName n) v"
    by (auto simp: ShortImageName_def Let_def imageDisplayNames_def getDisplayName_def image_tag_def)
qed

lemma image_url_resolves:
  assumes wn: "well_named pv" and "img \<in> set (GetAllImageNames pv)"
  shows "\<exists>url. BuildImageURL pv img = Some url \<and> ShortImageName url = img \<and> ParseImageVersion url = ParseImageVersion img"
proof -
  obtain src name mv v where src: "src \<in> set (pv_Sources pv)" "(name, mv) \<in> set (so_MajorVersions src)" "v \<in> set (mv_Versions mv)"
    and img: "img = image_tag (sourceDisplayName (so_Source src)) v"
    using assms(2) by (auto simp: GetAllImageNames_def set_all_image_names offered_by_def)
  define n where "n = after_last CHR ''/'' (so_Source src)"
  have n: "CHR '':'' \<notin> set n" "n \<noteq> Postgres" "n \<noteq> Analytics" "CHR ''/'' \<notin> set n" and v: "CHR ''/'' \<notin> set v"
    using wn src after_last_not_in unfolding well_named_def n_def list_all_iff Let_def by (blast, blast, blast, blast, fastforce)
  have img': "img = image_tag (getDisplayName n) v" using img by (simp add: sourceDisplayName_def n_def)
  have colon: "CHR '':'' \<notin> set (getDisplayName n)" using n by (intro display_chars) auto
  then have cut: "Cut CHR '':'' img = (getDisplayName n, v, True)" using Cut_append by (simp add: img' image_tag_def)
  let ?match = "\<lambda>source. let sourceImageName = after_last CHR ''/'' (so_Source source) in
    sourceImageName = getDisplayName n \<or> sourceImageName = n"
  obtain src' where src': "find ?match (pv_Sources pv) = Some src'"
    using src(1) find_NoneD[of ?match "pv_Sources pv" src] by (cases "find ?match (pv_Sources pv)") (auto simp: n_def Let_def)
  then have "CHR ''/'' \<in> set (so_Source src')" using wn find_SomeD[OF src'] unfolding well_named_def list_all_iff Let_def by blast
  then obtain path where path: "before_last CHR ''/'' (so_Source src') = Some path" by (simp add: before_last_def)
  have url: "BuildImageURL pv img = Some (path @ ''/'' @ n @ '':'' @ v)"
    using src' path by (simp add: BuildImageURL_def convertImageName_def cut display_source n)
  have short: "ShortImageName (path @ ''/'' @ n @ '':'' @ v) = img" using Short_url n v img' by simp
  moreover have "ShortImageName img = img"
  proof -
    have "getDisplayName (getDisplayName n) = getDisplayName n" using n by (simp add: getDisplayName_def name_defs)
    then show ?thesis using Short_url(2)[OF display_chars[OF n(4)] colon v] img' by simp
  qed
  ultimately show ?thesis using url by (simp add: ParseImageVersion_def)
qed

text \<open>C26. Every image on offer has a path in a registry; the path is shown as the name again, and both name the same
  offering, major and minor, so no two images on offer share a path.\<close>

theorem image_url_roundtrip:
  assumes "well_named pv"
  shows "inj_on (BuildImageURL pv) (set (GetAllImageNames pv)) \<and>
    (img \<in> set (GetAllImageNames pv) \<longrightarrow>
      (\<exists>url. BuildImageURL pv img = Some url \<and> ShortImageName url = img \<and> ParseImageVersion url = ParseImageVersion img))"
  using image_url_resolves[OF assms] by (metis (no_types, lifting) inj_on_def option.inject)

theorem image_url_roundtrip_witness:
  "\<exists>url. BuildImageURL versions_yaml ''analytics:17.11'' = Some url \<and> ShortImageName url = ''analytics:17.11'' \<and>
     ParseImageVersion url = ParseImageVersion ''analytics:17.11''"
proof -
  have "well_named versions_yaml" by code_simp
  moreover have "''analytics:17.11'' \<in> set (GetAllImageNames versions_yaml)" by code_simp
  ultimately show ?thesis using image_url_roundtrip by blast
qed

text \<open>Two departures.  The parser does not look the image up, and the latest version of a major is the greatest text.\<close>

lemma ParseImageVersion_unknown:
  "ParseImageVersion ''nosuch:1.2'' = Inr \<lparr>iv_Offering = ''nosuch'', iv_Major = 1, iv_Minor = 2\<rparr> \<and>
   ''nosuch:1.2'' \<notin> set (GetAllImageNames versions_yaml)"
  by code_simp

lemma GetLatestForMajor_textual:
  "GetLatestForMajor \<lparr>pv_LastUpdated = ''x'', pv_UpdatedBy = ''x'',
     pv_Sources = [yaml_source ''a'' [(''17'', yaml_major [''17.9''] ''17.9'' False False)],
                   yaml_source ''b'' [(''17'', yaml_major [''17.10''] ''17.10'' False False)]]\<rparr> ''17'' = ''17.9''"
  by code_simp

lemma versions_yaml_loads: "loadVersions versions_yaml = Inr versions_yaml"
  by code_simp

end
