(* ===== verification/Image_Policy.thy ===== *)
theory Image_Policy
  imports Pg_Images
begin

text \<open>
  Which images an organization may use: the list of images of the projects API (\<open>ListImages\<close> of
  \<open>services/projects/api/handler.go\<close>), the validation of an image for a new branch and of an upgrade
  (\<open>services/projects/branch/image.go\<close>).  Feature flags are a function from names of flags to their values for the
  organization, the same during one request; the provider of images is the one of \<open>internal/postgresversions\<close>.
\<close>

definition ExperimentalImages :: string where "ExperimentalImages = ''experimentalImages''"
definition AnalyticsImages :: string where "AnalyticsImages = ''analyticsImages''"
definition LegacyPgVersions :: string where "LegacyPgVersions = ''legacyPgVersions''"

definition PgMajorFlag :: "string \<Rightarrow> string" where
  "PgMajorFlag major = ''pgMajor'' @ major"

definition MajorVersionEnabled :: "(string \<Rightarrow> bool) \<Rightarrow> string \<Rightarrow> bool" where
  "MajorVersionEnabled feat major = feat (PgMajorFlag major)"

definition HasPrefix :: "string \<Rightarrow> string \<Rightarrow> bool" where
  "HasPrefix s p \<longleftrightarrow> take (length p) s = p"

definition validImage :: string where "validImage = ''postgresql:17''"

datatype policy_err = ImageNotAvailable string | ImageNotValid string | BadImage image_err
  | IncompatibleOffering string string | MajorUpgrade int int | OlderMinor int int | RegistryPanic

definition resolveImage :: "PostgreSQLVersions \<Rightarrow> string \<Rightarrow> policy_err + string" where
  "resolveImage pv img =
     (if img = validImage then Inr ''ghcr.io/xataio/postgres-images/cnpg-postgres-plus:17.5''
      else if img \<in> set (GetAllImageNames pv) then
        (case BuildImageURL pv img of Some imageURL \<Rightarrow> Inr imageURL | None \<Rightarrow> Inl RegistryPanic)
      else Inl (ImageNotValid img))"

definition branch_ValidateImage :: "(string \<Rightarrow> bool) \<Rightarrow> PostgreSQLVersions \<Rightarrow> string \<Rightarrow> policy_err + string" where
  "branch_ValidateImage feat pv img =
     (if HasPrefix img ''experimental:'' \<and> \<not> feat ExperimentalImages then Inl (ImageNotAvailable img)
      else if HasPrefix img ''analytics:'' \<and> \<not> feat AnalyticsImages then Inl (ImageNotAvailable img)
      else if (case HiddenMajorImages pv img of Some major \<Rightarrow> \<not> MajorVersionEnabled feat major | None \<Rightarrow> False)
        then Inl (ImageNotAvailable img)
      else if img \<in> set (HiddenImageNames pv) \<and> \<not> feat LegacyPgVersions then Inl (ImageNotAvailable img)
      else resolveImage pv img)"

definition ValidateImageUpgrade :: "PostgreSQLVersions \<Rightarrow> string \<Rightarrow> string \<Rightarrow> policy_err + string" where
  "ValidateImageUpgrade pv newImage currentImage = (case resolveImage pv newImage of
     Inl e \<Rightarrow> Inl e
   | Inr newImageURL \<Rightarrow> (case ParseImageVersion newImageURL of
       Inl e \<Rightarrow> Inl (BadImage e)
     | Inr newImageInfo \<Rightarrow> (case ParseImageVersion currentImage of
         Inl e \<Rightarrow> Inl (BadImage e)
       | Inr currentImageInfo \<Rightarrow>
           if iv_Offering newImageInfo \<noteq> iv_Offering currentImageInfo then
             Inl (IncompatibleOffering (iv_Offering newImageInfo) (iv_Offering currentImageInfo))
           else if iv_Major newImageInfo \<noteq> iv_Major currentImageInfo then
             Inl (MajorUpgrade (iv_Major newImageInfo) (iv_Major currentImageInfo))
           else if iv_Minor newImageInfo < iv_Minor currentImageInfo then
             Inl (OlderMinor (iv_Minor newImageInfo) (iv_Minor currentImageInfo))
           else Inr newImageURL)))"

record spec_Image =
  im_MajorVersion :: string
  im_FullVersion :: string
  im_Name :: string

text \<open>The four filters of the list, in the order of the handler, and the answer.\<close>

definition listed_names :: "(string \<Rightarrow> bool) \<Rightarrow> PostgreSQLVersions \<Rightarrow> string list" where
  "listed_names feat pv =
     (let images = GetAllImageNames pv;
          images = (if feat ExperimentalImages then images else filter (\<lambda>img. \<not> HasPrefix img ''experimental:'') images);
          images = (if feat AnalyticsImages then images else filter (\<lambda>img. \<not> HasPrefix img ''analytics:'') images);
          images = (if feat LegacyPgVersions then images else filter (\<lambda>img. img \<notin> set (HiddenImageNames pv)) images)
      in filter (\<lambda>img. case HiddenMajorImages pv img of None \<Rightarrow> True | Some major \<Rightarrow> MajorVersionEnabled feat major) images)"

definition ListImages :: "(string \<Rightarrow> bool) \<Rightarrow> PostgreSQLVersions \<Rightarrow> spec_Image list" where
  "ListImages feat pv = map (\<lambda>it. let version = ExtractVersionFromImageName it in
     \<lparr>im_MajorVersion = GetMajorForVersion version, im_FullVersion = version, im_Name = it\<rparr>) (listed_names feat pv)"

section \<open>Listed and accepted images agree\<close>

lemma resolve_offered: "well_named pv \<Longrightarrow> img \<in> set (GetAllImageNames pv) \<Longrightarrow> \<exists>url. resolveImage pv img = Inr url"
  using image_url_resolves[of pv img] by (auto simp: resolveImage_def)

lemma ValidateImage_listed:
  assumes "well_named pv" "img \<noteq> validImage"
  shows "(\<exists>url. branch_ValidateImage feat pv img = Inr url) \<longleftrightarrow> img \<in> set (listed_names feat pv)"
proof (cases "img \<in> set (GetAllImageNames pv)")
  case True
  then obtain url where "resolveImage pv img = Inr url" using resolve_offered assms by blast
  then show ?thesis using True by (auto simp: branch_ValidateImage_def listed_names_def Let_def split: option.splits)
next
  case False
  then have "resolveImage pv img = Inl (ImageNotValid img)" using assms by (simp add: resolveImage_def)
  then show ?thesis using False by (auto simp: branch_ValidateImage_def listed_names_def Let_def split: option.splits)
qed

text \<open>C24. For all flags of an organization, the images that the API lists are exactly those that it accepts for a new branch;
  the old identifier of the UI is the one exception.\<close>

theorem listed_images_accepted:
  assumes "well_named pv" "img \<noteq> validImage"
  shows "(\<exists>url. branch_ValidateImage feat pv img = Inr url) \<longleftrightarrow> img \<in> im_Name ` set (ListImages feat pv)"
  using ValidateImage_listed[OF assms] by (simp add: ListImages_def Let_def image_image)

theorem listed_images_accepted_witness:
  "(\<exists>url. branch_ValidateImage (\<lambda>f. f = ''analyticsImages'') versions_yaml ''analytics:17.9'' = Inr url) \<and>
   \<not> (\<exists>url. branch_ValidateImage (\<lambda>_. False) versions_yaml ''analytics:17.9'' = Inr url)"
proof -
  note ok = listed_images_accepted[of versions_yaml "''analytics:17.9''"]
  have "well_named versions_yaml" "''analytics:17.9'' \<noteq> validImage" by code_simp+
  note ok = ok[OF this]
  have "''analytics:17.9'' \<in> im_Name ` set (ListImages (\<lambda>f. f = ''analyticsImages'') versions_yaml)" by code_simp
  moreover have "''analytics:17.9'' \<notin> im_Name ` set (ListImages (\<lambda>_. False) versions_yaml)" by code_simp
  ultimately show ?thesis using ok by blast
qed

text \<open>When an image may take the place of another: both can be read, same offering and major, minor not older.\<close>

definition may_replace :: "string \<Rightarrow> string \<Rightarrow> bool" where
  "may_replace newImage currentImage \<longleftrightarrow> (\<exists>new cur. ParseImageVersion newImage = Inr new \<and> ParseImageVersion currentImage = Inr cur \<and>
     iv_Offering new = iv_Offering cur \<and> iv_Major new = iv_Major cur \<and> iv_Minor cur \<le> iv_Minor new)"

lemma may_replace_cong: "ParseImageVersion a = ParseImageVersion b \<Longrightarrow> may_replace a c = may_replace b c"
  by (simp add: may_replace_def)

lemma upgrade_iff:
  "ValidateImageUpgrade pv newImage currentImage = Inr url \<longleftrightarrow> resolveImage pv newImage = Inr url \<and> may_replace url currentImage"
  by (auto simp: ValidateImageUpgrade_def may_replace_def split: sum.splits)

text \<open>C25. An upgrade is accepted with the path \<open>url\<close> exactly when either the new image is on offer, \<open>url\<close> is the path of
  that image, and offering and major are those of the current image and the minor is not older; or the new image is the old
  identifier of the UI, which stands for 17.5 on offer or not, \<open>url\<close> is the path of 17.5, and 17.5 satisfies the same comparison.
  An image that is neither is never accepted, nor is a current image that cannot be read.\<close>

theorem ValidateImageUpgrade_correct:
  assumes "well_named pv"
  shows "ValidateImageUpgrade pv newImage currentImage = Inr url \<longleftrightarrow>
    newImage = ''postgresql:17'' \<and> url = ''ghcr.io/xataio/postgres-images/cnpg-postgres-plus:17.5'' \<and> may_replace ''postgres:17.5'' currentImage
    \<or> newImage \<noteq> ''postgresql:17'' \<and> newImage \<in> set (GetAllImageNames pv) \<and> BuildImageURL pv newImage = Some url \<and>
        may_replace newImage currentImage"
proof (cases "newImage = ''postgresql:17''")
  case True
  have "ParseImageVersion ''ghcr.io/xataio/postgres-images/cnpg-postgres-plus:17.5'' = ParseImageVersion ''postgres:17.5''" by code_simp
  note may_replace_cong[OF this, of currentImage]
  then show ?thesis using True by (auto simp: upgrade_iff resolveImage_def validImage_def)
next
  case other: False
  show ?thesis
  proof (cases "newImage \<in> set (GetAllImageNames pv)")
    case True
    then obtain u where "BuildImageURL pv newImage = Some u" "ParseImageVersion u = ParseImageVersion newImage"
      using image_url_resolves assms by blast
    then show ?thesis using True other may_replace_cong[of u newImage currentImage]
      by (auto simp: upgrade_iff resolveImage_def validImage_def)
  qed (use other in \<open>auto simp: upgrade_iff resolveImage_def validImage_def\<close>)
qed

theorem ValidateImageUpgrade_correct_witness:
  "(\<exists>url. ValidateImageUpgrade versions_yaml ''postgres:17.11'' ''ghcr.io/xataio/postgres-images/cnpg-postgres-plus:17.5-08092025'' = Inr url) \<and>
   (\<nexists>url. ValidateImageUpgrade versions_yaml ''mysql:17.11'' ''ghcr.io/xataio/postgres-images/cnpg-postgres-plus:17.5-08092025'' = Inr url)"
proof -
  let ?cur = "''ghcr.io/xataio/postgres-images/cnpg-postgres-plus:17.5-08092025''"
  have ok: "well_named versions_yaml" by code_simp
  have on: "''postgres:17.11'' \<in> set (GetAllImageNames versions_yaml)" "''mysql:17.11'' \<notin> set (GetAllImageNames versions_yaml)" by code_simp+
  have "ParseImageVersion ''postgres:17.11'' = Inr \<lparr>iv_Offering = ''postgres'', iv_Major = 17, iv_Minor = 11\<rparr>"
    "ParseImageVersion ?cur = Inr \<lparr>iv_Offering = ''postgres'', iv_Major = 17, iv_Minor = 5\<rparr>" by code_simp+
  then have "may_replace ''postgres:17.11'' ?cur" unfolding may_replace_def by simp
  moreover obtain url where "BuildImageURL versions_yaml ''postgres:17.11'' = Some url" using image_url_resolves[OF ok on(1)] by blast
  ultimately have "ValidateImageUpgrade versions_yaml ''postgres:17.11'' ?cur = Inr url"
    unfolding ValidateImageUpgrade_correct[OF ok] using on(1) by simp
  then show ?thesis unfolding ValidateImageUpgrade_correct[OF ok, of "''mysql:17.11''"] using on(2) by simp
qed

text \<open>The old identifier stands for a minor that is hidden from organizations without the flag.\<close>

lemma validImage_bypasses:
  "branch_ValidateImage (\<lambda>_. False) versions_yaml validImage = Inr ''ghcr.io/xataio/postgres-images/cnpg-postgres-plus:17.5'' \<and>
   branch_ValidateImage (\<lambda>_. False) versions_yaml ''postgres:17.5'' = Inl (ImageNotAvailable ''postgres:17.5'')"
  by code_simp

end
