(* ===== verification/Api_Prog.thy ===== *)
theory Api_Prog
  imports Xata_Prelude
begin

text \<open>
  Programs that talk to an API: a program has returned, or it makes a call and goes on with the answer.  As the answers
  are the only thing such a program learns, every interleaving of several of them is an interleaving of their calls.

  A trace is the calls of a run with their answers.  \<open>always\<close> is the weakest precondition for what holds of the trace and
  the result of every complete run, \<open>guarded\<close> says that every call is made only when a condition on the trace before it
  holds, and \<open>follow\<close> runs a program on a list of answers.
\<close>

datatype ('q, 'r, 'a) prog = Ret 'a | Call 'q "'r \<Rightarrow> ('q, 'r, 'a) prog"

type_synonym ('q, 'r) trace = "('q \<times> 'r) list"

primrec bind_p :: "('q, 'r, 'a) prog \<Rightarrow> ('a \<Rightarrow> ('q, 'r, 'b) prog) \<Rightarrow> ('q, 'r, 'b) prog" where
  "bind_p (Ret a) f = f a"
| "bind_p (Call q k) f = Call q (\<lambda>r. bind_p (k r) f)"

text \<open>The error is returned early.\<close>

definition try_p :: "('q, 'r, 'e + 'a) prog \<Rightarrow> ('a \<Rightarrow> ('q, 'r, 'e + 'b) prog) \<Rightarrow> ('q, 'r, 'e + 'b) prog" where
  "try_p p f = bind_p p (\<lambda>x. case x of Inl e \<Rightarrow> Ret (Inl e) | Inr a \<Rightarrow> f a)"

primrec always :: "('q, 'r, 'a) prog \<Rightarrow> ('q, 'r) trace \<Rightarrow> (('q, 'r) trace \<Rightarrow> 'a \<Rightarrow> bool) \<Rightarrow> bool" where
  "always (Ret a) tr Q = Q tr a"
| "always (Call q k) tr Q = (\<forall>r. always (k r) (tr @ [(q, r)]) Q)"

primrec guarded :: "('q, 'r, 'a) prog \<Rightarrow> ('q, 'r) trace \<Rightarrow> (('q, 'r) trace \<Rightarrow> 'q \<Rightarrow> bool) \<Rightarrow> bool" where
  "guarded (Ret a) tr G = True"
| "guarded (Call q k) tr G = (G tr q \<and> (\<forall>r. guarded (k r) (tr @ [(q, r)]) G))"

fun follow :: "('q, 'r, 'a) prog \<Rightarrow> 'r list \<Rightarrow> ('q, 'r) trace \<times> 'a option" where
  "follow (Ret a) rs = ([], Some a)"
| "follow (Call q k) [] = ([], None)"
| "follow (Call q k) (r # rs) = (case follow (k r) rs of (tr, a) \<Rightarrow> ((q, r) # tr, a))"

lemma bind_Ret [simp]: "bind_p p Ret = p"
  by (induction p) auto

lemma bind_assoc: "bind_p (bind_p p f) g = bind_p p (\<lambda>a. bind_p (f a) g)"
  by (induction p) auto

lemma always_bind [simp]: "always (bind_p p f) tr Q = always p tr (\<lambda>tr' a. always (f a) tr' Q)"
  by (induction p arbitrary: tr) auto

lemma guarded_bind [simp]: "guarded (bind_p p f) tr G = (guarded p tr G \<and> always p tr (\<lambda>tr' a. guarded (f a) tr' G))"
  by (induction p arbitrary: tr) auto

lemma always_try [simp]:
  "always (try_p p f) tr Q = always p tr (\<lambda>tr' x. case x of Inl e \<Rightarrow> Q tr' (Inl e) | Inr a \<Rightarrow> always (f a) tr' Q)"
  unfolding try_p_def always_bind by (rule arg_cong[of _ _ "always p tr"]) (auto split: sum.splits)

lemma guarded_try [simp]:
  "guarded (try_p p f) tr G = (guarded p tr G \<and> always p tr (\<lambda>tr' x. case x of Inl e \<Rightarrow> True | Inr a \<Rightarrow> guarded (f a) tr' G))"
  unfolding try_p_def guarded_bind by (rule arg_cong[of _ _ "\<lambda>x. _ \<and> always p tr x"]) (auto split: sum.splits)

lemma always_mono: "always p tr Q \<Longrightarrow> (\<And>tr' a. Q tr' a \<Longrightarrow> R tr' a) \<Longrightarrow> always p tr R"
  by (induction p arbitrary: tr) auto

lemma always_conj: "always p tr (\<lambda>tr' a. Q tr' a \<and> R tr' a) = (always p tr Q \<and> always p tr R)"
  by (induction p arbitrary: tr) auto

lemma always_True [simp]: "always p tr (\<lambda>_ _. True)"
  by (induction p arbitrary: tr) auto

text \<open>Running a composition, for the evaluation of concrete runs.\<close>

definition after :: "('q, 'r) trace \<times> 'a option \<Rightarrow> 'r list \<Rightarrow> ('a \<Rightarrow> ('q, 'r, 'b) prog) \<Rightarrow> ('q, 'r) trace \<times> 'b option" where
  "after x rs f = (case x of (tr, None) \<Rightarrow> (tr, None) | (tr, Some a) \<Rightarrow> (case follow (f a) (drop (length tr) rs) of (tr2, b) \<Rightarrow> (tr @ tr2, b)))"

lemma after_simps [simp]:
  "after (tr, Some a) rs f = (case follow (f a) (drop (length tr) rs) of (tr2, b) \<Rightarrow> (tr @ tr2, b))"
  "after (tr, None) rs f = (tr, None)"
  by (simp_all add: after_def)

lemma follow_bind: "follow (bind_p p f) rs = after (follow p rs) rs f"
  by (induction p rs rule: follow.induct) (auto simp: after_def split: prod.splits option.splits)

lemma always_follow: "always p tr0 Q \<Longrightarrow> follow p rs = (tr, Some a) \<Longrightarrow> Q (tr0 @ tr) a"
proof (induction p arbitrary: tr0 rs tr)
  case (Call q k)
  then obtain r rs' tr' where *: "rs = r # rs'" "follow (k r) rs' = (tr', Some a)" "tr = (q, r) # tr'"
    by (cases rs) (auto split: prod.splits)
  then have "always (k r) (tr0 @ [(q, r)]) Q" using Call.prems by simp
  then show ?case using Call.IH[OF rangeI] * by fastforce
qed simp

lemma guarded_follow: "guarded p tr0 G \<Longrightarrow> fst (follow p rs) = tr1 @ (q, r) # tr2 \<Longrightarrow> G (tr0 @ tr1) q"
proof (induction p arbitrary: tr0 rs tr1)
  case (Call q' k)
  then obtain r' rs' where *: "rs = r' # rs'" "(q', r') # fst (follow (k r') rs') = tr1 @ (q, r) # tr2"
    by (cases rs) (auto split: prod.splits)
  show ?case
  proof (cases tr1)
    case Nil
    then show ?thesis using * Call.prems by auto
  next
    case (Cons x tr1')
    then have "fst (follow (k r') rs') = tr1' @ (q, r) # tr2" "x = (q', r')" using * by auto
    then show ?thesis using Call.IH[OF rangeI, of r' "tr0 @ [(q', r')]" rs' tr1'] Call.prems(1) Cons by auto
  qed
qed simp

end
