(* ===== verification/Wakeup.thy ===== *)
theory Wakeup
  imports Api_Prog Pg_Images
begin

text \<open>
  The reconciler of wake-up requests (\<open>services/branch-operator/pkg/wakeup\<close>): it takes a running cluster from a pool,
  puts the volume of a hibernated branch under it and assigns it to the branch.  Every access to the Kubernetes API, the
  clock, the random source and the node plugin is a call of a program (\<open>Api_Prog\<close>); an answer that does not fit its call
  counts as an error.  Tracing and logging are left out.  Names are quoted without escapes, and a poll ends with an error
  when its context is cancelled, which the field \<open>rc_Polls\<close> counts in polls.
\<close>

section \<open>Objects\<close>

datatype ConditionStatus = ConditionTrue | ConditionFalse | ConditionUnknown

record Condition =
  co_Type :: string
  co_Status :: ConditionStatus
  co_Reason :: string
  co_Message :: string
  co_ObservedGeneration :: int
  co_LastTransitionTime :: int

datatype PasswordSyncMode = PasswordSyncModeWait | PasswordSyncModeSkip

record WakeupRequest =
  wr_Name :: string
  wr_Namespace :: string
  wr_ResourceVersion :: string
  wr_Generation :: int
  wr_DeletionTimestamp :: "int option"
  wr_BranchName :: string
  wr_XVolName :: string
  wr_PasswordSync :: PasswordSyncMode
  wr_ObservedGeneration :: int
  wr_Conditions :: "Condition list"
  wr_LastError :: string

record wake_branch =
  wb_Name :: string
  wb_Annotations :: "string \<rightharpoonup> string"
  wb_ClusterName :: "string option"
  wb_Image :: string

record Cluster =
  cl_Name :: string
  cl_Namespace :: string
  cl_ResourceVersion :: string
  cl_Pool :: "string option"
  cl_ReadyInstances :: int
  cl_HealthyPVC :: "string list"
  cl_TargetPrimary :: string
  cl_ImageName :: string
  cl_PasswordStatus :: "string \<rightharpoonup> string"

record Pod =
  po_Name :: string
  po_NodeName :: string
  po_PodIP :: string

record WakeupReconciler =
  rc_CSINodeNamespace :: string
  rc_CSINodePort :: int
  rc_WakeupRequestTTL :: int
  rc_PasswordSyncTimeout :: int
  rc_Polls :: nat

section \<open>Calls and errors\<close>

datatype kube_kind = KNotFound | KConflict | KOther

datatype kube_query =
    TimeNow
  | IntN nat
  | GetWakeupRequest string string
  | StatusUpdate WakeupRequest
  | DeleteWakeupRequest string string
  | GetBranch string
  | ApplyBranch string string "string option"
  | GetXVol string
  | GetPool string string
  | ListPoolClusters string string
  | UpdateCluster Cluster
  | GetCluster string string
  | ApplyRoles string string string
  | DeleteCluster string string
  | GetPVC string string
  | GetPV string
  | PatchPV string string string
  | GetPod string string
  | ListCSINodePods string
  | GetSecret string string
  | Dial string
  | WakeUpRPC string string string
  | Eventf string bool string string

datatype reply =
    RErr kube_kind string
  | ROk
  | RTime int
  | RIndex nat
  | RWakeupRequest WakeupRequest
  | RBranch wake_branch
  | RText string
  | RClusters "Cluster list"
  | RCluster Cluster
  | RPod Pod
  | RPods "Pod list"

datatype werr = ApiError kube_kind string | Errorf string werr | NewError string | ConditionError string werr bool

type_synonym 'a wprog = "(kube_query, reply, 'a) prog"

fun Error :: "werr \<Rightarrow> string" where
  "Error (ApiError k m) = m"
| "Error (Errorf p e) = p @ '': '' @ Error e"
| "Error (NewError m) = m"
| "Error (ConditionError reason e terminal) = reason @ '': '' @ Error e"

fun IsNotFound :: "werr \<Rightarrow> bool" where
  "IsNotFound (ApiError k m) = (k = KNotFound)"
| "IsNotFound (Errorf p e) = IsNotFound e"
| "IsNotFound (NewError m) = False"
| "IsNotFound (ConditionError reason e terminal) = IsNotFound e"

text \<open>The first \<open>ConditionError\<close> of the chain of an error, as its reason and whether it is terminal.\<close>

fun AsConditionError :: "werr \<Rightarrow> (string \<times> bool) option" where
  "AsConditionError (ConditionError reason e terminal) = Some (reason, terminal)"
| "AsConditionError (Errorf p e) = AsConditionError e"
| "AsConditionError e = None"

definition ignoreTerminal :: "werr \<Rightarrow> werr option" where
  "ignoreTerminal err = (case AsConditionError err of Some (_, True) \<Rightarrow> None | _ \<Rightarrow> Some err)"

definition quoted :: "string \<Rightarrow> string" where
  "quoted s = ''\"'' @ s @ ''\"''"

definition answer :: "(reply \<Rightarrow> 'a option) \<Rightarrow> reply \<Rightarrow> werr + 'a" where
  "answer sel r = (case r of RErr k m \<Rightarrow> Inl (ApiError k m)
     | _ \<Rightarrow> (case sel r of Some a \<Rightarrow> Inr a | None \<Rightarrow> Inl (ApiError KOther ''unexpected answer'')))"

definition fetch :: "kube_query \<Rightarrow> (reply \<Rightarrow> 'a option) \<Rightarrow> (werr + 'a) wprog" where
  "fetch q sel = Call q (\<lambda>r. Ret (answer sel r))"

definition the_ok :: "reply \<Rightarrow> unit option" where
  "the_ok r = (case r of ROk \<Rightarrow> Some () | _ \<Rightarrow> None)"

definition the_text :: "reply \<Rightarrow> string option" where
  "the_text r = (case r of RText s \<Rightarrow> Some s | _ \<Rightarrow> None)"

definition the_branch :: "string \<Rightarrow> reply \<Rightarrow> wake_branch option" where
  "the_branch n r = (case r of RBranch b \<Rightarrow> if wb_Name b = n then Some b else None | _ \<Rightarrow> None)"

definition the_cluster :: "string \<Rightarrow> string \<Rightarrow> reply \<Rightarrow> Cluster option" where
  "the_cluster ns n r = (case r of RCluster c \<Rightarrow> if cl_Name c = n \<and> cl_Namespace c = ns then Some c else None | _ \<Rightarrow> None)"

text \<open>The answer to a status update is the object as it was sent; only what the API server maintains may differ.\<close>

definition stored_as :: "WakeupRequest \<Rightarrow> WakeupRequest \<Rightarrow> bool" where
  "stored_as a b \<longleftrightarrow> a\<lparr>wr_ResourceVersion := '''', wr_Generation := 0, wr_DeletionTimestamp := None\<rparr> =
     b\<lparr>wr_ResourceVersion := '''', wr_Generation := 0, wr_DeletionTimestamp := None\<rparr>"

definition the_stored :: "WakeupRequest \<Rightarrow> reply \<Rightarrow> WakeupRequest option" where
  "the_stored wr r = (case r of RWakeupRequest wr' \<Rightarrow> if stored_as wr' wr then Some wr' else None | _ \<Rightarrow> None)"

definition now_p :: "int wprog" where
  "now_p = Call TimeNow (\<lambda>r. Ret (case r of RTime t \<Rightarrow> t | _ \<Rightarrow> 0))"

section \<open>Conditions (conditions.go, wakeuprequest\_conditions.go)\<close>

definition WakeupSucceededConditionType :: string where "WakeupSucceededConditionType = ''Succeeded''"
definition WakeupSucceededReason :: string where "WakeupSucceededReason = ''WakeupSucceeded''"
definition PVNotAvailableReason :: string where "PVNotAvailableReason = ''PVNotAvailable''"
definition CSINodePodNotFoundReason :: string where "CSINodePodNotFoundReason = ''CSINodePodNotFound''"
definition PoolNotFoundReason :: string where "PoolNotFoundReason = ''WakeupPoolNotFound''"
definition NoPoolAnnotationReason :: string where "NoPoolAnnotationReason = ''WakeupPoolAnnotationMissing''"
definition WakeupReconciliationFailedReason :: string where "WakeupReconciliationFailedReason = ''ReconciliationFailed''"
definition WakeupInProgressReason :: string where "WakeupInProgressReason = ''InProgress''"
definition WakeupAwaitingReconciliationReason :: string where "WakeupAwaitingReconciliationReason = ''AwaitingReconciliation''"
definition BranchNotFoundReason :: string where "BranchNotFoundReason = ''BranchNotFound''"
definition PoolExhaustedReason :: string where "PoolExhaustedReason = ''WakeupPoolExhausted''"
definition XVolNotReadyReason :: string where "XVolNotReadyReason = ''XVolNotReady''"
definition XVolNotFoundReason :: string where "XVolNotFoundReason = ''XVolNotFound''"

definition WakeupConditionMessages :: "(string \<times> string) list" where
  "WakeupConditionMessages = [
     (WakeupSucceededReason, ''Wakeup succeeded''),
     (WakeupReconciliationFailedReason, ''An error occurred during reconciliation''),
     (WakeupAwaitingReconciliationReason, ''The wakeup request is awaiting reconciliation''),
     (BranchNotFoundReason, ''The specified branch was not found''),
     (NoPoolAnnotationReason, ''The branch has no wakeup pool annotation''),
     (PoolNotFoundReason, ''The specified wakeup pool was not found''),
     (PoolExhaustedReason, ''The wakeup pool has no healthy clusters''),
     (WakeupInProgressReason, ''Wakeup is in progress''),
     (PVNotAvailableReason, ''The cluster'' @ [CHR 0x27] @ ''s primary PV could not be resolved''),
     (CSINodePodNotFoundReason, ''No CSI node plugin pod found on the primary pod'' @ [CHR 0x27] @ ''s node''),
     (XVolNotReadyReason, ''The XVol status indicates it is not ready for wakeup''),
     (XVolNotFoundReason, ''The XVol referenced by the branch was not found'')]"

text \<open>\<open>meta.SetStatusCondition\<close> and \<open>meta.FindStatusCondition\<close>: at most one condition of each type.\<close>

fun SetStatusCondition :: "int \<Rightarrow> Condition \<Rightarrow> Condition list \<Rightarrow> Condition list" where
  "SetStatusCondition now new [] = [new\<lparr>co_LastTransitionTime := now\<rparr>]"
| "SetStatusCondition now new (c # cs) =
     (if co_Type c = co_Type new then
        new\<lparr>co_LastTransitionTime := if co_Status c \<noteq> co_Status new then now else co_LastTransitionTime c\<rparr> # cs
      else c # SetStatusCondition now new cs)"

definition FindStatusCondition :: "string \<Rightarrow> Condition list \<Rightarrow> Condition option" where
  "FindStatusCondition ty conds = find (\<lambda>c. co_Type c = ty) conds"

definition succeeded_condition :: "WakeupRequest \<Rightarrow> ConditionStatus \<Rightarrow> string \<Rightarrow> Condition" where
  "succeeded_condition wr status reason = \<lparr>co_Type = WakeupSucceededConditionType, co_Status = status, co_Reason = reason,
     co_Message = (case map_of WakeupConditionMessages reason of Some m \<Rightarrow> m | None \<Rightarrow> ''''),
     co_ObservedGeneration = wr_Generation wr, co_LastTransitionTime = 0\<rparr>"

text \<open>A status update fills the object with the answer; when it fails, the object keeps what was set locally.\<close>

definition status_update :: "WakeupRequest \<Rightarrow> (WakeupRequest \<times> werr option) wprog" where
  "status_update wr = Call (StatusUpdate wr) (\<lambda>r. Ret (case answer (the_stored wr) r of
     Inr wr' \<Rightarrow> (wr', None) | Inl e \<Rightarrow> (wr, Some e)))"

definition setSucceededCondition :: "WakeupRequest \<Rightarrow> ConditionStatus \<Rightarrow> string \<Rightarrow> (WakeupRequest \<times> werr option) wprog" where
  "setSucceededCondition wr status reason = bind_p now_p (\<lambda>t.
     status_update (wr\<lparr>wr_Conditions := SetStatusCondition t (succeeded_condition wr status reason) (wr_Conditions wr)\<rparr>))"

definition ensureStatusConditions :: "WakeupRequest \<Rightarrow> (WakeupRequest \<times> werr option) wprog" where
  "ensureStatusConditions wr =
     (if wr_Conditions wr \<noteq> [] then Ret (wr, None)
      else setSucceededCondition wr ConditionUnknown WakeupAwaitingReconciliationReason)"

definition setStatusConditionFromError :: "WakeupRequest \<Rightarrow> werr option \<Rightarrow> WakeupRequest wprog" where
  "setStatusConditionFromError wr err = (case err of
     None \<Rightarrow> Ret wr
   | Some e \<Rightarrow> (case AsConditionError e of
       Some (reason, terminal) \<Rightarrow>
         bind_p (setSucceededCondition wr (if terminal then ConditionFalse else ConditionUnknown) reason) (\<lambda>(wr', _). Ret wr')
     | None \<Rightarrow> bind_p (setSucceededCondition wr ConditionUnknown WakeupReconciliationFailedReason) (\<lambda>(wr', _). Ret wr')))"

definition setLastErrorStatus :: "WakeupRequest \<Rightarrow> werr option \<Rightarrow> WakeupRequest wprog" where
  "setLastErrorStatus wr err =
     bind_p (status_update (wr\<lparr>wr_LastError := case err of None \<Rightarrow> '''' | Some e \<Rightarrow> Error e\<rparr>)) (\<lambda>(wr', _). Ret wr')"

definition succeeded_status :: "WakeupRequest \<Rightarrow> ConditionStatus option" where
  "succeeded_status wr = map_option co_Status (FindStatusCondition WakeupSucceededConditionType (wr_Conditions wr))"

definition isWakeupSucceeded :: "WakeupRequest \<Rightarrow> bool" where
  "isWakeupSucceeded wr \<longleftrightarrow> succeeded_status wr = Some ConditionTrue"

definition isWakeupFailed :: "WakeupRequest \<Rightarrow> bool" where
  "isWakeupFailed wr \<longleftrightarrow> succeeded_status wr = Some ConditionFalse"

definition recordFailureEvent :: "WakeupRequest \<Rightarrow> werr option \<Rightarrow> unit wprog" where
  "recordFailureEvent wur err = (case err of
     None \<Rightarrow> Ret ()
   | Some e \<Rightarrow>
       if Error e = wr_LastError wur then Ret ()
       else (case AsConditionError e of
           Some (reason, terminal) \<Rightarrow> Call (Eventf (wr_Name wur) terminal reason (Error e)) (\<lambda>_. Ret ())
         | None \<Rightarrow> Call (Eventf (wr_Name wur) True WakeupReconciliationFailedReason (Error e)) (\<lambda>_. Ret ())))"

section \<open>Helpers (branch.go, xvol.go, pool.go, pv.go, csinode.go, rpc.go, cluster.go, ttl.go)\<close>

definition wake_getBranch :: "string \<Rightarrow> (werr + wake_branch) wprog" where
  "wake_getBranch name = bind_p (fetch (GetBranch name) (the_branch name)) (\<lambda>x. Ret (case x of
     Inl err \<Rightarrow> if IsNotFound err then Inl (ConditionError BranchNotFoundReason err False) else Inl err
   | Inr b \<Rightarrow> Inr b))"

definition WakeupPoolAnnotation :: string where "WakeupPoolAnnotation = ''xata.io/wakeup-pool''"
definition AwokenByXVolAnnotation :: string where "AwokenByXVolAnnotation = ''xata.io/awoken-by-xvol''"

definition wakeupPoolName :: "wake_branch \<Rightarrow> werr + string" where
  "wakeupPoolName branch = (case wb_Annotations branch WakeupPoolAnnotation of
     None \<Rightarrow> Inl (ConditionError NoPoolAnnotationReason (NewError (''missing '' @ quoted WakeupPoolAnnotation @ '' annotation'')) True)
   | Some n \<Rightarrow> Inr n)"

text \<open>The applied configuration names the cluster, the image unless it is empty, and clears the waiting annotation.\<close>

definition assignClusterToBranch :: "wake_branch \<Rightarrow> string \<Rightarrow> string \<Rightarrow> (werr + unit) wprog" where
  "assignClusterToBranch branch clusterName img =
     fetch (ApplyBranch (wb_Name branch) clusterName (if img \<noteq> '''' then Some img else None)) the_ok"

definition adoptableImage :: "string \<Rightarrow> string \<Rightarrow> string" where
  "adoptableImage branchImage clusterImage =
     (if branchImage = '''' \<or> clusterImage = '''' \<or> branchImage = clusterImage then ''''
      else (case ParseImageVersion branchImage of
        Inl _ \<Rightarrow> ''''
      | Inr branchVersion \<Rightarrow> (case ParseImageVersion clusterImage of
          Inl _ \<Rightarrow> ''''
        | Inr clusterVersion \<Rightarrow>
            if iv_Offering clusterVersion \<noteq> iv_Offering branchVersion \<or> iv_Major clusterVersion \<noteq> iv_Major branchVersion
              \<or> iv_Minor clusterVersion \<le> iv_Minor branchVersion
            then '''' else clusterImage)))"

definition xvolStateAvailable :: string where "xvolStateAvailable = ''Available''"
definition xvolStateBound :: string where "xvolStateBound = ''Bound''"

definition validateXVolStatus :: "string \<Rightarrow> (werr + unit) wprog" where
  "validateXVolStatus xvolName = bind_p (fetch (GetXVol xvolName) the_text) (\<lambda>x. Ret (case x of
     Inl err \<Rightarrow> if IsNotFound err
       then Inl (ConditionError XVolNotFoundReason (NewError (''XVol '' @ quoted xvolName @ '' not found'')) False)
       else Inl (Errorf (''get XVol '' @ quoted xvolName) err)
   | Inr state \<Rightarrow> if state \<notin> {xvolStateAvailable, xvolStateBound}
       then Inl (ConditionError XVolNotReadyReason
         (NewError (''XVol '' @ quoted xvolName @ '' is in state '' @ quoted state @ '', not wakeable'')) False)
       else Inr ()))"

text \<open>One of the ready clusters is drawn and claimed by an update that drops the reference to the pool.\<close>

definition claim_one :: "string \<Rightarrow> Cluster list \<Rightarrow> (werr + Cluster) wprog" where
  "claim_one poolName items = Call (IntN (length items)) (\<lambda>r.
     let cluster = items ! ((case r of RIndex i \<Rightarrow> i | _ \<Rightarrow> 0) mod length items) in
     if cl_Pool cluster \<noteq> Some poolName then Ret (Inl (Errorf ''remove controller reference'' (NewError ''owner not found'')))
     else fetch (UpdateCluster (cluster\<lparr>cl_Pool := None\<rparr>)) (the_cluster (cl_Namespace cluster) (cl_Name cluster)))"

definition take_listed :: "string \<Rightarrow> Cluster list \<Rightarrow> (werr + Cluster) wprog" where
  "take_listed poolName listed = (let items = filter (\<lambda>c. cl_ReadyInstances c \<noteq> 0) listed in
     if items = [] then
       Ret (Inl (ConditionError PoolExhaustedReason (NewError (''no clusters in pool '' @ quoted poolName)) False))
     else claim_one poolName items)"

definition the_clusters :: "reply \<Rightarrow> Cluster list option" where
  "the_clusters r = (case r of RClusters cs \<Rightarrow> Some cs | _ \<Rightarrow> None)"

definition takeClusterFromPool :: "string \<Rightarrow> string \<Rightarrow> (werr + Cluster) wprog" where
  "takeClusterFromPool ns poolName = bind_p (fetch (GetPool ns poolName) the_ok) (\<lambda>x. case x of
     Inl err \<Rightarrow> Ret (Inl (if IsNotFound err then ConditionError PoolNotFoundReason err True else err))
   | Inr _ \<Rightarrow> try_p (fetch (ListPoolClusters ns poolName) the_clusters) (take_listed poolName))"

definition setUserPasswordSecret :: "wake_branch \<Rightarrow> Cluster \<Rightarrow> (werr + unit) wprog" where
  "setUserPasswordSecret branch cluster = fetch (ApplyRoles (cl_Namespace cluster) (cl_Name cluster) (wb_Name branch)) the_ok"

definition pvConditionError :: "werr \<Rightarrow> werr" where
  "pvConditionError err = ConditionError PVNotAvailableReason err True"

definition wrap_err :: "string \<Rightarrow> (werr + 'a) wprog \<Rightarrow> (werr + 'a) wprog" where
  "wrap_err msg p = bind_p p (\<lambda>x. Ret (case x of Inl e \<Rightarrow> Inl (Errorf msg e) | Inr a \<Rightarrow> Inr a))"

definition getPersistentVolume :: "Cluster \<Rightarrow> (werr + string) wprog" where
  "getPersistentVolume cluster = (case cl_HealthyPVC cluster of
     [] \<Rightarrow> Ret (Inl (pvConditionError (NewError (''no healthy PVCs found for cluster '' @ quoted (cl_Name cluster)))))
   | pvcName # _ \<Rightarrow> try_p (wrap_err (''get pvc '' @ quoted pvcName) (fetch (GetPVC (cl_Namespace cluster) pvcName) the_text)) (\<lambda>pvName.
       if pvName = '''' then Ret (Inl (pvConditionError (NewError (''PVC '' @ quoted pvcName @ '' is not bound to a PV''))))
       else try_p (wrap_err (''get pv '' @ quoted pvName) (fetch (GetPV pvName) the_ok)) (\<lambda>_. Ret (Inr pvName))))"

definition annotatePVWithXVol :: "string \<Rightarrow> string \<Rightarrow> (werr + unit) wprog" where
  "annotatePVWithXVol pv xvolName = wrap_err (''patch PV '' @ quoted pv @ '' with XVol annotation'')
     (fetch (PatchPV pv AwokenByXVolAnnotation xvolName) the_ok)"

definition getCSINodePod :: "WakeupReconciler \<Rightarrow> Cluster \<Rightarrow> (werr + Pod) wprog" where
  "getCSINodePod rc cluster = (let primaryPodName = cl_TargetPrimary cluster in
     if primaryPodName = '''' then Ret (Inl (NewError (''cluster '' @ quoted (cl_Name cluster) @ '' has no target primary'')))
     else try_p (wrap_err (''get primary pod '' @ quoted primaryPodName)
            (fetch (GetPod (cl_Namespace cluster) primaryPodName) (\<lambda>r. case r of RPod p \<Rightarrow> Some p | _ \<Rightarrow> None))) (\<lambda>primaryPod.
       let nodeName = po_NodeName primaryPod in
       if nodeName = '''' then Ret (Inl (NewError (''primary pod '' @ quoted primaryPodName @ '' is not scheduled to a node'')))
       else try_p (wrap_err ''list CSI node pods''
              (fetch (ListCSINodePods (rc_CSINodeNamespace rc)) (\<lambda>r. case r of RPods ps \<Rightarrow> Some ps | _ \<Rightarrow> None))) (\<lambda>pods.
         Ret (case find (\<lambda>p. po_NodeName p = nodeName) pods of
           Some p \<Rightarrow> Inr p
         | None \<Rightarrow> Inl (ConditionError CSINodePodNotFoundReason (NewError (''no CSI node pod found on node '' @ quoted nodeName)) True)))))"

definition wakeUp :: "WakeupReconciler \<Rightarrow> Pod \<Rightarrow> string \<Rightarrow> string \<Rightarrow> (werr + unit) wprog" where
  "wakeUp rc csiNodePod xvolName pvName = (let addr = po_PodIP csiNodePod @ '':'' @ show_int (rc_CSINodePort rc) in
     try_p (wrap_err (''dial CSI node pod '' @ quoted (po_Name csiNodePod) @ '' at '' @ addr) (fetch (Dial addr) the_ok)) (\<lambda>_.
     wrap_err (''failed WakeUp RPC on pod '' @ quoted (po_Name csiNodePod)) (fetch (WakeUpRPC addr xvolName pvName) the_ok)))"

definition XataRoleName :: string where "XataRoleName = ''xata''"

definition clusterUsesCredsFromSecretVersion :: "Cluster \<Rightarrow> string \<Rightarrow> string \<Rightarrow> bool" where
  "clusterUsesCredsFromSecretVersion cluster username secretVersion \<longleftrightarrow> cl_PasswordStatus cluster username = Some secretVersion"

text \<open>The poll; the cluster is refreshed by each read, also when the poll ends with an error.\<close>

fun password_poll :: "nat \<Rightarrow> string \<Rightarrow> string \<Rightarrow> int \<Rightarrow> Cluster \<Rightarrow> (Cluster \<times> (werr + unit)) wprog" where
  "password_poll 0 branchName version deadline cluster = Ret (cluster, Inl (NewError ''context canceled''))"
| "password_poll (Suc n) branchName version deadline cluster =
     bind_p (fetch (GetCluster (cl_Namespace cluster) (cl_Name cluster)) (the_cluster (cl_Namespace cluster) (cl_Name cluster))) (\<lambda>x. case x of
       Inl e \<Rightarrow> Ret (cluster, Inl e)
     | Inr cluster' \<Rightarrow>
         if clusterUsesCredsFromSecretVersion cluster' XataRoleName version then Ret (cluster', Inr ())
         else bind_p (fetch (GetBranch branchName) (the_branch branchName)) (\<lambda>y. case y of
           Inl e \<Rightarrow> Ret (cluster', Inl e)
         | Inr _ \<Rightarrow> bind_p now_p (\<lambda>t.
             if t > deadline then Ret (cluster', Inr ()) else password_poll n branchName version deadline cluster')))"

definition waitForRolePasswordSync :: "WakeupReconciler \<Rightarrow> string \<Rightarrow> Cluster \<Rightarrow> (Cluster \<times> (werr + unit)) wprog" where
  "waitForRolePasswordSync rc branchName cluster = (let secretName = branchName @ ''-app'' in
     bind_p (wrap_err (''get branch secret '' @ quoted secretName) (fetch (GetSecret (cl_Namespace cluster) secretName) the_text)) (\<lambda>x. case x of
       Inl e \<Rightarrow> Ret (cluster, Inl e)
     | Inr version \<Rightarrow> bind_p now_p (\<lambda>t. password_poll (rc_Polls rc) branchName version (t + rc_PasswordSyncTimeout rc) cluster)))"

section \<open>Reconcile\<close>

text \<open>What a reconciliation returns: the delay of the next one, 0 for none, and the error.\<close>

type_synonym wake_result = "int \<times> werr option"

definition deleteAfterTTL :: "WakeupReconciler \<Rightarrow> WakeupRequest \<Rightarrow> wake_result wprog" where
  "deleteAfterTTL rc wr = (case FindStatusCondition WakeupSucceededConditionType (wr_Conditions wr) of
     None \<Rightarrow> Ret (0, None)
   | Some cond \<Rightarrow> bind_p now_p (\<lambda>t.
       let elapsed = t - co_LastTransitionTime cond; remaining = rc_WakeupRequestTTL rc - elapsed in
       if remaining > 0 then Ret (remaining, None)
       else bind_p (fetch (DeleteWakeupRequest (wr_Namespace wr) (wr_Name wr)) the_ok) (\<lambda>x.
         Ret (0, case x of Inl err \<Rightarrow> if IsNotFound err then None else Some err | Inr _ \<Rightarrow> None))))"

text \<open>The end of a successful reconciliation; the pair is the request as it is then and the error or the delay.\<close>

definition mark_succeeded :: "WakeupReconciler \<Rightarrow> WakeupRequest \<Rightarrow> (WakeupRequest \<times> (werr + int)) wprog" where
  "mark_succeeded rc wr = bind_p (setSucceededCondition wr ConditionTrue WakeupSucceededReason) (\<lambda>(wr', e).
     Ret (wr', case e of Some err \<Rightarrow> Inl err | None \<Rightarrow> Inr (rc_WakeupRequestTTL rc)))"

definition on_ok :: "WakeupRequest \<Rightarrow> (werr + 'a) wprog \<Rightarrow> ('a \<Rightarrow> (WakeupRequest \<times> (werr + int)) wprog) \<Rightarrow> (WakeupRequest \<times> (werr + int)) wprog" where
  "on_ok wr p f = bind_p p (\<lambda>x. case x of Inl e \<Rightarrow> Ret (wr, Inl e) | Inr a \<Rightarrow> f a)"

definition when_waiting :: "WakeupRequest \<Rightarrow> (werr + unit) wprog \<Rightarrow> (werr + unit) wprog" where
  "when_waiting wr p = (if wr_PasswordSync wr = PasswordSyncModeWait then p else Ret (Inr ()))"

definition wait_step :: "WakeupReconciler \<Rightarrow> WakeupRequest \<Rightarrow> wake_branch \<Rightarrow> Cluster \<Rightarrow> (Cluster \<times> (werr + unit)) wprog" where
  "wait_step rc wr branch cluster =
     (if wr_PasswordSync wr = PasswordSyncModeWait then waitForRolePasswordSync rc (wb_Name branch) cluster else Ret (cluster, Inr ()))"

text \<open>From the awake cluster to the end: the image of a cluster with a newer minor is adopted.\<close>

definition hand_over :: "WakeupReconciler \<Rightarrow> WakeupRequest \<Rightarrow> wake_branch \<Rightarrow> string \<Rightarrow> Cluster \<Rightarrow> (WakeupRequest \<times> (werr + int)) wprog" where
  "hand_over rc wr branch pv cluster =
     on_ok wr (annotatePVWithXVol pv (wr_XVolName wr)) (\<lambda>_.
       let adopted = adoptableImage (wb_Image branch) (cl_ImageName cluster);
           img = (if adopted \<noteq> '''' then adopted else wb_Image branch) in
       on_ok wr (assignClusterToBranch branch (cl_Name cluster) img) (\<lambda>_. mark_succeeded rc wr))"

definition use_cluster :: "WakeupReconciler \<Rightarrow> WakeupRequest \<Rightarrow> wake_branch \<Rightarrow> Cluster \<Rightarrow> (WakeupRequest \<times> (werr + int)) wprog" where
  "use_cluster rc wr branch cluster =
     on_ok wr (when_waiting wr (setUserPasswordSecret branch cluster)) (\<lambda>_.
     on_ok wr (getPersistentVolume cluster) (\<lambda>pv.
     on_ok wr (getCSINodePod rc cluster) (\<lambda>csiNodePod.
     on_ok wr (wakeUp rc csiNodePod (wr_XVolName wr) pv) (\<lambda>_.
     bind_p (wait_step rc wr branch cluster) (\<lambda>(cluster', waited).
     on_ok wr (Ret waited) (\<lambda>_. hand_over rc wr branch pv cluster'))))))"

definition cleanup :: "Cluster \<Rightarrow> (WakeupRequest \<times> (werr + int)) wprog \<Rightarrow> (WakeupRequest \<times> (werr + int)) wprog" where
  "cleanup cluster p = bind_p p (\<lambda>(wr, out). case out of
     Inl e \<Rightarrow> Call (DeleteCluster (cl_Namespace cluster) (cl_Name cluster)) (\<lambda>_. Ret (wr, Inl e))
   | Inr d \<Rightarrow> Ret (wr, Inr d))"

text \<open>A branch that has a cluster is only told again that it is awake.\<close>

definition wake_with :: "WakeupReconciler \<Rightarrow> WakeupRequest \<Rightarrow> wake_branch \<Rightarrow> (WakeupRequest \<times> (werr + int)) wprog" where
  "wake_with rc wr branch = (case wb_ClusterName branch of
     Some name \<Rightarrow> on_ok wr (assignClusterToBranch branch name (wb_Image branch)) (\<lambda>_. mark_succeeded rc wr)
   | None \<Rightarrow>
       on_ok wr (validateXVolStatus (wr_XVolName wr)) (\<lambda>_.
       on_ok wr (Ret (wakeupPoolName branch)) (\<lambda>poolName.
       on_ok wr (takeClusterFromPool (wr_Namespace wr) poolName) (\<lambda>cluster.
       cleanup cluster (use_cluster rc wr branch cluster)))))"

definition wake_branch_up :: "WakeupReconciler \<Rightarrow> WakeupRequest \<Rightarrow> (WakeupRequest \<times> (werr + int)) wprog" where
  "wake_branch_up rc wr0 = bind_p (setSucceededCondition wr0 ConditionUnknown WakeupInProgressReason) (\<lambda>(wr, e). case e of
     Some err \<Rightarrow> Ret (wr, Inl err)
   | None \<Rightarrow> on_ok wr (wake_getBranch (wr_BranchName wr)) (wake_with rc wr))"

text \<open>The deferred bookkeeping, after the clean-up.\<close>

definition record_outcome :: "WakeupRequest \<Rightarrow> werr option \<Rightarrow> unit wprog" where
  "record_outcome wr err = bind_p (recordFailureEvent wr err) (\<lambda>_.
     bind_p (setStatusConditionFromError wr err) (\<lambda>wr'. bind_p (setLastErrorStatus wr' err) (\<lambda>_. Ret ())))"

definition observe_generation :: "WakeupRequest \<Rightarrow> (WakeupRequest \<times> werr option) wprog" where
  "observe_generation wr = (if wr_ObservedGeneration wr \<noteq> wr_Generation wr
     then status_update (wr\<lparr>wr_ObservedGeneration := wr_Generation wr\<rparr>) else Ret (wr, None))"

definition the_request :: "string \<Rightarrow> string \<Rightarrow> reply \<Rightarrow> WakeupRequest option" where
  "the_request ns n r = (case r of RWakeupRequest w \<Rightarrow> if wr_Namespace w = ns \<and> wr_Name w = n then Some w else None | _ \<Rightarrow> None)"

text \<open>What the whole reconciliation returns for an outcome; a terminal error is not returned, so it is not retried.\<close>

definition returned :: "werr + int \<Rightarrow> wake_result" where
  "returned out = (case out of Inl err \<Rightarrow> (0, ignoreTerminal err) | Inr d \<Rightarrow> (d, None))"

definition attempt :: "WakeupReconciler \<Rightarrow> WakeupRequest \<Rightarrow> wake_result wprog" where
  "attempt rc wr2 = bind_p (wake_branch_up rc wr2) (\<lambda>(wr, out).
     bind_p (record_outcome wr (case out of Inl err \<Rightarrow> Some err | Inr _ \<Rightarrow> None)) (\<lambda>_. Ret (returned out)))"

definition reconcile_live :: "WakeupReconciler \<Rightarrow> WakeupRequest \<Rightarrow> wake_result wprog" where
  "reconcile_live rc wr1 =
     (if isWakeupSucceeded wr1 then deleteAfterTTL rc wr1
      else if isWakeupFailed wr1 then Ret (0, None)
      else bind_p (observe_generation wr1) (\<lambda>(wr2, e2). case e2 of Some err \<Rightarrow> Ret (0, Some err) | None \<Rightarrow> attempt rc wr2))"

definition Reconcile :: "WakeupReconciler \<Rightarrow> string \<Rightarrow> string \<Rightarrow> wake_result wprog" where
  "Reconcile rc ns name = bind_p (fetch (GetWakeupRequest ns name) (the_request ns name)) (\<lambda>x. case x of
     Inl err \<Rightarrow> Ret (0, if IsNotFound err then None else Some err)
   | Inr wr0 \<Rightarrow>
       if wr_DeletionTimestamp wr0 \<noteq> None then Ret (0, None)
       else bind_p (ensureStatusConditions wr0) (\<lambda>(wr1, e). case e of Some err \<Rightarrow> Ret (0, Some err) | None \<Rightarrow> reconcile_live rc wr1))"

section \<open>What a run does, read off its trace\<close>

definition claimed :: "(kube_query, reply) trace \<Rightarrow> string \<Rightarrow> bool" where
  "claimed tr c \<longleftrightarrow> (\<exists>cl r cl'. (UpdateCluster cl, r) \<in> set tr \<and> answer (the_cluster (cl_Namespace cl) (cl_Name cl)) r = Inr cl' \<and> cl_Name cl = c)"

definition assigned :: "(kube_query, reply) trace \<Rightarrow> string \<Rightarrow> string \<Rightarrow> bool" where
  "assigned tr b c \<longleftrightarrow> (\<exists>img r. (ApplyBranch b c img, r) \<in> set tr \<and> answer the_ok r = Inr ())"

definition deleted :: "(kube_query, reply) trace \<Rightarrow> string \<Rightarrow> bool" where
  "deleted tr c \<longleftrightarrow> (\<exists>ns r. (DeleteCluster ns c, r) \<in> set tr)"

definition acked :: "(kube_query, reply) trace \<Rightarrow> bool" where
  "acked tr \<longleftrightarrow> (\<exists>wr r wr'. (StatusUpdate wr, r) \<in> set tr \<and> answer (the_stored wr) r = Inr wr' \<and> isWakeupSucceeded wr)"

definition woken :: "(kube_query, reply) trace \<Rightarrow> string \<Rightarrow> bool" where
  "woken tr xvol \<longleftrightarrow> (\<exists>addr pv r. (WakeUpRPC addr xvol pv, r) \<in> set tr \<and> answer the_ok r = Inr ())"

fun quiet_query :: "kube_query \<Rightarrow> bool" where
  "quiet_query (UpdateCluster cl) = False"
| "quiet_query (ApplyBranch b c img) = False"
| "quiet_query (DeleteCluster ns c) = False"
| "quiet_query (StatusUpdate wr) = False"
| "quiet_query (DeleteWakeupRequest ns n) = False"
| "quiet_query q = True"

primrec only_quiet :: "'a wprog \<Rightarrow> bool" where
  "only_quiet (Ret a) = True"
| "only_quiet (Call q k) = (quiet_query q \<and> (\<forall>r. only_quiet (k r)))"

text \<open>The trace has grown by calls that change none of the objects above.\<close>

definition quietly :: "(kube_query, reply) trace \<Rightarrow> (kube_query, reply) trace \<Rightarrow> bool" where
  "quietly tr tr' \<longleftrightarrow> (\<exists>new. tr' = tr @ new \<and> list_all (\<lambda>(q, r). quiet_query q) new)"

lemma quietly_refl [simp]: "quietly tr tr"
  by (simp add: quietly_def)

lemma quietly_snoc: "quietly (tr @ [(q, r)]) tr' \<Longrightarrow> quiet_query q \<Longrightarrow> quietly tr tr'"
  by (auto simp: quietly_def)

lemma quietly_trans: "quietly tr tr' \<Longrightarrow> quietly tr' tr'' \<Longrightarrow> quietly tr tr''"
  by (auto simp: quietly_def)

lemma quietly_sets:
  assumes "quietly tr tr'"
  shows "claimed tr' = claimed tr" "assigned tr' = assigned tr" "deleted tr' = deleted tr" "acked tr' = acked tr" "\<exists>new. tr' = tr @ new"
proof -
  have "claimed tr' c = claimed tr c" "assigned tr' b c = assigned tr b c" "deleted tr' c = deleted tr c" "acked tr' = acked tr" for b c
    using assms by (force simp: quietly_def claimed_def assigned_def deleted_def acked_def list_all_iff)+
  then show "claimed tr' = claimed tr" "assigned tr' = assigned tr" "deleted tr' = deleted tr" "acked tr' = acked tr" by blast+
  show "\<exists>new. tr' = tr @ new" using assms by (auto simp: quietly_def)
qed

lemma only_quiet_bind [simp]: "only_quiet p \<Longrightarrow> (\<And>a. only_quiet (f a)) \<Longrightarrow> only_quiet (bind_p p f)"
  by (induction p) auto

lemma only_quiet_always: "only_quiet p \<Longrightarrow> always p tr (\<lambda>tr' a. quietly tr tr')"
proof (induction p arbitrary: tr)
  case (Call q k)
  have "always (k r) (tr @ [(q, r)]) (\<lambda>tr' a. quietly tr tr')" for r
    using Call.IH[OF rangeI, of r "tr @ [(q, r)]"] Call.prems by (auto intro: always_mono quietly_snoc)
  then show ?case by simp
qed simp

lemma only_quiet_guarded: "only_quiet p \<Longrightarrow> (\<And>tr q. quiet_query q \<Longrightarrow> G tr q) \<Longrightarrow> guarded p tr G"
  by (induction p arbitrary: tr) auto

lemma only_quiet_try [simp]: "only_quiet p \<Longrightarrow> (\<And>a. only_quiet (f a)) \<Longrightarrow> only_quiet (try_p p f)"
  by (auto simp: try_p_def split: sum.splits)

lemma only_quiet_fetch [simp]: "only_quiet (fetch q sel) = quiet_query q"
  by (simp add: fetch_def)

lemma only_quiet_wrap [simp]: "only_quiet p \<Longrightarrow> only_quiet (wrap_err msg p)"
  by (simp add: wrap_err_def)

lemma only_quiet_now [simp]: "only_quiet now_p"
  by (simp add: now_p_def)

lemma only_quiet_poll [simp]: "only_quiet (password_poll n b v dl cl)"
  by (induction n arbitrary: cl) (auto intro!: only_quiet_bind split: sum.splits)

lemma only_quiet_helpers [simp]:
  "only_quiet (wake_getBranch n)" "only_quiet (validateXVolStatus x)" "only_quiet (setUserPasswordSecret branch cl)"
  "only_quiet (getPersistentVolume cl)" "only_quiet (getCSINodePod rc cl)" "only_quiet (wakeUp rc pod x pv)"
  "only_quiet (waitForRolePasswordSync rc b cl)" "only_quiet (annotatePVWithXVol pv x)" "only_quiet (recordFailureEvent wr err)"
  by (auto simp: wake_getBranch_def validateXVolStatus_def setUserPasswordSecret_def getPersistentVolume_def getCSINodePod_def
      wakeUp_def waitForRolePasswordSync_def annotatePVWithXVol_def recordFailureEvent_def Let_def
      intro!: only_quiet_bind only_quiet_try split: list.splits sum.splits option.splits)

lemma only_quiet_steps [simp]: "only_quiet p \<Longrightarrow> only_quiet (when_waiting wr p)" "only_quiet (wait_step rc wr branch cl)"
  by (auto simp: when_waiting_def wait_step_def)

section \<open>No claimed cluster is left behind\<close>

lemma quietly_call [simp]: "quiet_query q \<Longrightarrow> quietly tr (tr @ [(q, r)])"
  by (simp add: quietly_def)

lemma trace_snoc:
  "claimed (tr @ [(q, r)]) c = (claimed tr c \<or> (\<exists>cl cl'. q = UpdateCluster cl \<and> answer (the_cluster (cl_Namespace cl) (cl_Name cl)) r = Inr cl' \<and> cl_Name cl = c))"
  "assigned (tr @ [(q, r)]) b c = (assigned tr b c \<or> (\<exists>img. q = ApplyBranch b c img \<and> answer the_ok r = Inr ()))"
  "deleted (tr @ [(q, r)]) c = (deleted tr c \<or> (\<exists>ns. q = DeleteCluster ns c))"
  "acked (tr @ [(q, r)]) = (acked tr \<or> (\<exists>wr wr'. q = StatusUpdate wr \<and> answer (the_stored wr) r = Inr wr' \<and> isWakeupSucceeded wr))"
  "woken (tr @ [(q, r)]) x = (woken tr x \<or> (\<exists>addr pv. q = WakeUpRPC addr x pv \<and> answer the_ok r = Inr ()))"
  by (auto simp: claimed_def assigned_def deleted_def acked_def woken_def)

lemma on_okI:
  assumes "always p tr R" "\<And>tr' e. R tr' (Inl e) \<Longrightarrow> Q tr' (wr, Inl e)" "\<And>tr' a. R tr' (Inr a) \<Longrightarrow> always (f a) tr' Q"
  shows "always (on_ok wr p f) tr Q"
  unfolding on_ok_def always_bind by (rule always_mono[OF assms(1)]) (auto split: sum.splits intro: assms(2,3))

lemma on_ok_quiet:
  assumes "quietly tr0 tr" "only_quiet p" "\<And>tr' e. quietly tr0 tr' \<Longrightarrow> Q tr' (wr, Inl e)"
    "\<And>tr' a. quietly tr0 tr' \<Longrightarrow> always (f a) tr' Q"
  shows "always (on_ok wr p f) tr Q"
  by (rule on_okI[OF only_quiet_always[OF assms(2)]]) (use assms(1,3,4) quietly_trans in blast)+

lemma bind_quiet:
  assumes "quietly tr0 tr" "only_quiet p" "\<And>tr' a. quietly tr0 tr' \<Longrightarrow> always (f a) tr' Q"
  shows "always (bind_p p f) tr Q"
  unfolding always_bind by (rule always_mono[OF only_quiet_always[OF assms(2)]]) (use assms(1,3) quietly_trans in blast)

text \<open>Status updates: the request keeps its specification and has the status that was set.\<close>

definition same_spec :: "WakeupRequest \<Rightarrow> WakeupRequest \<Rightarrow> bool" where
  "same_spec a b \<longleftrightarrow> wr_Name a = wr_Name b \<and> wr_Namespace a = wr_Namespace b \<and> wr_BranchName a = wr_BranchName b \<and>
     wr_XVolName a = wr_XVolName b \<and> wr_PasswordSync a = wr_PasswordSync b"

definition keeps_objects :: "(kube_query, reply) trace \<Rightarrow> (kube_query, reply) trace \<Rightarrow> bool" where
  "keeps_objects tr tr' \<longleftrightarrow> claimed tr' = claimed tr \<and> assigned tr' = assigned tr \<and> deleted tr' = deleted tr \<and> (\<exists>new. tr' = tr @ new)"

lemma stored_as_fields: "stored_as a b \<Longrightarrow> same_spec a b \<and> wr_Conditions a = wr_Conditions b"
  by (cases a; cases b) (simp add: stored_as_def same_spec_def)

lemma answer_stored: "answer (the_stored wr) r = Inr wr' \<Longrightarrow> same_spec wr' wr \<and> succeeded_status wr' = succeeded_status wr"
  using stored_as_fields[of wr' wr]
  by (cases r) (auto simp: answer_def the_stored_def succeeded_status_def split: if_splits)

lemma SetStatusCondition_find:
  "find (\<lambda>c. co_Type c = co_Type new) (SetStatusCondition t new cs) \<noteq> None \<and>
   map_option co_Status (find (\<lambda>c. co_Type c = co_Type new) (SetStatusCondition t new cs)) = Some (co_Status new)"
  by (induction cs) auto

lemma status_update_rule:
  assumes "\<And>tr' wr' e. same_spec wr' wr \<Longrightarrow> succeeded_status wr' = succeeded_status wr \<Longrightarrow> keeps_objects tr tr' \<Longrightarrow>
    acked tr' = (acked tr \<or> isWakeupSucceeded wr \<and> e = None) \<Longrightarrow> Q tr' (wr', e)"
  shows "always (status_update wr) tr Q"
proof -
  have "Q (tr @ [(StatusUpdate wr, r)]) (case answer (the_stored wr) r of Inr wr' \<Rightarrow> (wr', None) | Inl e \<Rightarrow> (wr, Some e))" for r
  proof -
    have k: "keeps_objects tr (tr @ [(StatusUpdate wr, r)])" by (auto simp: keeps_objects_def trace_snoc fun_eq_iff)
    show ?thesis
      by (cases "answer (the_stored wr) r") (use k answer_stored in \<open>auto intro!: assms simp: trace_snoc same_spec_def\<close>)
  qed
  then show ?thesis by (simp add: status_update_def)
qed

lemma setSucceeded_rule:
  assumes "\<And>tr' wr' e. same_spec wr' wr \<Longrightarrow> succeeded_status wr' = Some status \<Longrightarrow> keeps_objects tr tr' \<Longrightarrow>
    acked tr' = (acked tr \<or> status = ConditionTrue \<and> e = None) \<Longrightarrow> Q tr' (wr', e)"
  shows "always (setSucceededCondition wr status reason) tr Q"
  unfolding setSucceededCondition_def
proof (rule bind_quiet[OF quietly_refl only_quiet_now])
  fix tr1 t
  assume q: "quietly tr tr1"
  let ?wr = "wr\<lparr>wr_Conditions := SetStatusCondition t (succeeded_condition wr status reason) (wr_Conditions wr)\<rparr>"
  have st: "succeeded_status ?wr = Some status"
    using SetStatusCondition_find[of "succeeded_condition wr status reason" t "wr_Conditions wr"]
    by (simp add: succeeded_status_def FindStatusCondition_def succeeded_condition_def)
  show "always (status_update ?wr) tr1 Q"
    by (rule status_update_rule) (rule assms, use st quietly_sets[OF q] in \<open>auto simp: same_spec_def keeps_objects_def isWakeupSucceeded_def\<close>)
qed

text \<open>What is shown of the part after the claim: an error leaves the request unacknowledged, success has assigned the cluster.\<close>

definition woke_or_failed :: "WakeupReconciler \<Rightarrow> string \<Rightarrow> (kube_query, reply) trace \<Rightarrow> (kube_query, reply) trace \<Rightarrow> WakeupRequest \<Rightarrow> werr + int \<Rightarrow> bool" where
  "woke_or_failed rc c tr tr' wr out \<longleftrightarrow> claimed tr' = claimed tr \<and> deleted tr' = deleted tr \<and> (case out of
     Inl e \<Rightarrow> acked tr' = acked tr
   | Inr d \<Rightarrow> acked tr' \<and> (\<exists>b. assigned tr' b c) \<and> d = rc_WakeupRequestTTL rc \<and> isWakeupSucceeded wr)"

lemma quietly_failed: "quietly tr tr' \<Longrightarrow> woke_or_failed rc c tr tr' wr (Inl e)"
  by (simp add: woke_or_failed_def quietly_sets)

lemma fetch_rule: "always (fetch q sel) tr Q = (\<forall>r. Q (tr @ [(q, r)]) (answer sel r))"
  by (simp add: fetch_def)

lemma mark_succeeded_rule:
  assumes "claimed tr = claimed tr0" "deleted tr = deleted tr0" "acked tr = acked tr0" "assigned tr b c"
  shows "always (mark_succeeded rc wr) tr (\<lambda>tr' (wr', out). woke_or_failed rc c tr0 tr' wr' out)"
  unfolding mark_succeeded_def always_bind
  by (rule setSucceeded_rule)
    (use assms in \<open>auto simp: woke_or_failed_def keeps_objects_def isWakeupSucceeded_def split: option.splits\<close>)

lemma assign_rule:
  assumes "quietly tr0 tr"
  shows "always (on_ok wr (assignClusterToBranch branch c img) (\<lambda>_. mark_succeeded rc wr)) tr
    (\<lambda>tr' (wr', out). woke_or_failed rc c tr0 tr' wr' out)"
proof (rule on_okI)
  let ?R = "\<lambda>tr' x. claimed tr' = claimed tr0 \<and> deleted tr' = deleted tr0 \<and> acked tr' = acked tr0 \<and>
    (x = Inr () \<longrightarrow> assigned tr' (wb_Name branch) c)"
  show "always (assignClusterToBranch branch c img) tr ?R"
    by (auto simp: assignClusterToBranch_def fetch_rule trace_snoc fun_eq_iff quietly_sets[OF assms])
  show "?R tr' (Inl e) \<Longrightarrow> case (wr, Inl e) of (wr', out) \<Rightarrow> woke_or_failed rc c tr0 tr' wr' out" for tr' e
    by (simp add: woke_or_failed_def)
  show "?R tr' (Inr a) \<Longrightarrow> always (mark_succeeded rc wr) tr' (\<lambda>tr' (wr', out). woke_or_failed rc c tr0 tr' wr' out)" for tr' a
    by (rule mark_succeeded_rule) auto
qed

text \<open>The cluster is read again while its password is set, but stays the same one.\<close>

lemma the_cluster_name: "answer (the_cluster ns n) r = Inr cl \<Longrightarrow> cl_Name cl = n \<and> cl_Namespace cl = ns"
  by (cases r) (auto simp: answer_def the_cluster_def split: if_splits)

lemma password_poll_name: "always (password_poll n b v dl cl) tr (\<lambda>tr' (cl', x). cl_Name cl' = cl_Name cl \<and> cl_Namespace cl' = cl_Namespace cl)"
proof (induction n arbitrary: cl tr)
  case (Suc n)
  have *: "cl_Name cl' = cl_Name cl \<and> cl_Namespace cl' = cl_Namespace cl \<Longrightarrow>
    always (password_poll n b v dl cl') tr' (\<lambda>tr' (cl', x). cl_Name cl' = cl_Name cl \<and> cl_Namespace cl' = cl_Namespace cl)" for tr' cl'
    using Suc[of cl' tr'] by simp
  show ?case
    by (auto simp: fetch_rule now_p_def split: sum.splits dest!: the_cluster_name intro!: *)
qed simp

lemma wait_step_rule:
  "always (wait_step rc wr branch cl) tr (\<lambda>tr' (cl', x). quietly tr tr' \<and> cl_Name cl' = cl_Name cl \<and> cl_Namespace cl' = cl_Namespace cl)"
proof -
  have "always (wait_step rc wr branch cl) tr (\<lambda>tr' (cl', x). cl_Name cl' = cl_Name cl \<and> cl_Namespace cl' = cl_Namespace cl)"
    by (auto simp: wait_step_def waitForRolePasswordSync_def wrap_err_def fetch_rule now_p_def Let_def password_poll_name split: sum.splits)
  then show ?thesis using only_quiet_always[of "wait_step rc wr branch cl" tr]
    by (simp add: always_conj split_def)
qed

lemma hand_over_rule:
  assumes "quietly tr tr1" "cl_Name cl = c"
  shows "always (hand_over rc wr branch pv cl) tr1 (\<lambda>tr' (wr', out). woke_or_failed rc c tr tr' wr' out)"
  unfolding hand_over_def using assms(2)
  by (intro on_ok_quiet[OF assms(1)]) (auto simp: quietly_failed Let_def intro: assign_rule)

lemma use_cluster_rule:
  "always (use_cluster rc wr branch cl) tr (\<lambda>tr' (wr', out). woke_or_failed rc (cl_Name cl) tr tr' wr' out)"
proof -
  let ?Q = "\<lambda>tr' (wr', out). woke_or_failed rc (cl_Name cl) tr tr' wr' out"
  have "always (bind_p (wait_step rc wr branch cl) (\<lambda>(cluster', waited). on_ok wr (Ret waited) (\<lambda>_. hand_over rc wr branch pv cluster'))) tr1 ?Q"
    if "quietly tr tr1" for tr1 pv
    unfolding always_bind
  proof (rule always_mono[OF wait_step_rule], clarify)
    fix tr2 and cl' :: Cluster and waited
    assume "quietly tr1 tr2" "cl_Name cl' = cl_Name cl"
    then show "always (on_ok wr (Ret waited) (\<lambda>_. hand_over rc wr branch pv cl')) tr2 ?Q"
      using that by (intro on_ok_quiet[of tr]) (auto simp: quietly_failed hand_over_rule intro: quietly_trans)
  qed
  then show ?thesis unfolding use_cluster_def
    by (intro on_ok_quiet[OF quietly_refl] on_ok_quiet[of tr]) (auto simp: quietly_failed)
qed

lemma try_quiet:
  assumes "quietly tr0 tr" "only_quiet p" "\<And>tr' e. quietly tr0 tr' \<Longrightarrow> Q tr' (Inl e)" "\<And>tr' a. quietly tr0 tr' \<Longrightarrow> always (f a) tr' Q"
  shows "always (try_p p f) tr Q"
  unfolding try_p_def by (rule bind_quiet[OF assms(1,2)]) (auto split: sum.splits intro: assms(3,4))

definition took :: "(kube_query, reply) trace \<Rightarrow> (kube_query, reply) trace \<Rightarrow> werr + Cluster \<Rightarrow> bool" where
  "took tr tr' x \<longleftrightarrow> assigned tr' = assigned tr \<and> deleted tr' = deleted tr \<and> acked tr' = acked tr \<and> (\<exists>new. tr' = tr @ new) \<and>
     (case x of Inl e \<Rightarrow> claimed tr' = claimed tr | Inr cl \<Rightarrow> claimed tr' = (claimed tr)(cl_Name cl := True))"

lemma quietly_took: "quietly tr tr' \<Longrightarrow> took tr tr' (Inl e)"
  by (simp add: took_def quietly_sets)

lemma took_update:
  assumes "quietly tr tr1"
  shows "always (fetch (UpdateCluster (cl\<lparr>cl_Pool := None\<rparr>)) (the_cluster (cl_Namespace cl) (cl_Name cl))) tr1 (took tr)"
proof -
  obtain new where "tr1 = tr @ new" using quietly_sets[OF assms] by blast
  then have "\<exists>new. tr1 @ [x] = tr @ new" for x by simp
  then show ?thesis
    by (auto simp: took_def fetch_rule trace_snoc fun_eq_iff quietly_sets(1-4)[OF assms] split: sum.splits dest!: the_cluster_name)
qed

lemma claim_rule: "quietly tr tr1 \<Longrightarrow> always (claim_one pool cs) tr1 (took tr)"
  using quietly_trans[OF _ quietly_call[of "IntN (length cs)"]] by (simp add: claim_one_def Let_def took_update quietly_took)

lemma take_rule: "always (takeClusterFromPool ns pool) tr (took tr)"
proof -
  have listed: "quietly tr tr1 \<Longrightarrow> always (take_listed pool cs) tr1 (took tr)" for tr1 cs
    by (simp add: take_listed_def Let_def claim_rule quietly_took)
  have "quietly tr tr1 \<Longrightarrow> always (try_p (fetch (ListPoolClusters ns pool) the_clusters) (take_listed pool)) tr1 (took tr)" for tr1
    by (rule try_quiet) (auto simp: quietly_took listed)
  then show ?thesis unfolding takeClusterFromPool_def
    by (intro bind_quiet[OF quietly_refl]) (auto simp: quietly_took simp del: always_try split: sum.splits)
qed

text \<open>The state of a claimed cluster when the reconciliation ends with \<open>out\<close>.\<close>

definition accounted :: "WakeupReconciler \<Rightarrow> (kube_query, reply) trace \<Rightarrow> werr + int \<Rightarrow> bool" where
  "accounted rc tr out \<longleftrightarrow> (\<forall>c. claimed tr c \<longrightarrow> (case out of
     Inl e \<Rightarrow> \<not> acked tr \<and> deleted tr c
   | Inr d \<Rightarrow> acked tr \<and> (\<exists>b. assigned tr b c) \<and> \<not> deleted tr c \<and> d = rc_WakeupRequestTTL rc))"

definition blank :: "(kube_query, reply) trace \<Rightarrow> bool" where
  "blank tr \<longleftrightarrow> claimed tr = (\<lambda>_. False) \<and> deleted tr = (\<lambda>_. False) \<and> \<not> acked tr"

lemma blank_quiet: "blank tr \<Longrightarrow> quietly tr tr' \<Longrightarrow> blank tr'"
  by (simp add: blank_def quietly_sets)

lemma blank_accounted: "blank tr \<Longrightarrow> accounted rc tr out"
  by (simp add: blank_def accounted_def)

lemma cleanup_rule:
  assumes "blank tr0" "claimed tr = (claimed tr0)(cl_Name cl := True)" "deleted tr = deleted tr0" "acked tr = acked tr0"
    "always p tr (\<lambda>tr' (wr', out). woke_or_failed rc (cl_Name cl) tr tr' wr' out)"
  shows "always (cleanup cl p) tr (\<lambda>tr' (wr', out). accounted rc tr' out)"
  unfolding cleanup_def always_bind
  by (rule always_mono[OF assms(5)])
    (use assms(1-4) in \<open>auto simp: accounted_def blank_def woke_or_failed_def trace_snoc split: sum.splits if_splits\<close>)

lemma wake_branch_up_rule:
  assumes "blank tr"
  shows "always (wake_branch_up rc wr0) tr (\<lambda>tr' (wr, out). accounted rc tr' out)"
proof -
  let ?Q = "\<lambda>tr' (wr :: WakeupRequest, out). accounted rc tr' out"
  have reassign: "always (on_ok wr (assignClusterToBranch branch n img) (\<lambda>_. mark_succeeded rc wr)) tr1 ?Q" if "blank tr1" for tr1 wr branch n img
    by (rule always_mono[OF assign_rule[OF quietly_refl]])
      (use that in \<open>auto simp: accounted_def blank_def woke_or_failed_def split: sum.splits\<close>)
  have claim: "always (on_ok wr (takeClusterFromPool (wr_Namespace wr) pool) (\<lambda>cl. cleanup cl (use_cluster rc wr branch cl))) tr1 ?Q"
    if "blank tr1" for tr1 wr pool branch
  proof (rule on_okI[OF take_rule])
    show "took tr1 tr' (Inl e) \<Longrightarrow> ?Q tr' (wr, Inl e)" for tr' e
      using that by (auto simp: took_def blank_def accounted_def)
    show "took tr1 tr' (Inr cl) \<Longrightarrow> always (cleanup cl (use_cluster rc wr branch cl)) tr' ?Q" for tr' cl
      by (rule cleanup_rule[OF that]) (auto simp: took_def use_cluster_rule)
  qed
  have body: "always (on_ok wr (wake_getBranch (wr_BranchName wr)) (wake_with rc wr)) tr1 ?Q" if "blank tr1" for tr1 wr
    unfolding wake_with_def using that
    by (auto intro!: on_ok_quiet[OF quietly_refl] reassign claim split: option.splits) (meson blank_quiet blank_accounted)+

  show ?thesis unfolding wake_branch_up_def always_bind
    by (rule setSucceeded_rule)
      (use assms in \<open>auto simp: blank_def keeps_objects_def accounted_def split: option.splits intro!: body\<close>)
qed

lemma keeps_trans: "keeps_objects a b \<Longrightarrow> keeps_objects b c \<Longrightarrow> keeps_objects a c"
  by (auto simp: keeps_objects_def)

lemma quietly_keeps: "quietly tr tr' \<Longrightarrow> keeps_objects tr tr' \<and> acked tr' = acked tr"
  by (simp add: keeps_objects_def quietly_sets)

definition recorded :: "werr option \<Rightarrow> (kube_query, reply) trace \<Rightarrow> (kube_query, reply) trace \<Rightarrow> bool" where
  "recorded err tr tr' \<longleftrightarrow> keeps_objects tr tr' \<and> (acked tr \<longrightarrow> acked tr') \<and> (err \<noteq> None \<longrightarrow> acked tr' = acked tr)"

lemma last_error_rule:
  assumes "keeps_objects tr tr1" "acked tr1 = acked tr" "err \<noteq> None \<longrightarrow> \<not> isWakeupSucceeded wr"
  shows "always (setLastErrorStatus wr err) tr1 (\<lambda>tr' _. recorded err tr tr')"
  unfolding setLastErrorStatus_def always_bind
  by (rule status_update_rule)
    (use assms keeps_trans in \<open>auto simp: recorded_def isWakeupSucceeded_def succeeded_status_def\<close>)

lemma from_error_rule:
  assumes "quietly tr tr1"
  shows "always (setStatusConditionFromError wr err) tr1 (\<lambda>tr' wr'. keeps_objects tr tr' \<and> acked tr' = acked tr \<and>
    (err \<noteq> None \<longrightarrow> \<not> isWakeupSucceeded wr'))"
proof -
  have "always (setSucceededCondition wr st reason) tr1 (\<lambda>tr' (wr', _). keeps_objects tr tr' \<and> acked tr' = acked tr \<and> \<not> isWakeupSucceeded wr')"
    if "st \<noteq> ConditionTrue" for st reason
    by (rule setSucceeded_rule)
      (use that quietly_keeps[OF assms] keeps_trans in \<open>auto simp: isWakeupSucceeded_def\<close>)
  then show ?thesis using quietly_keeps[OF assms]
    by (auto simp: setStatusConditionFromError_def split_def intro: always_mono split: option.splits)
qed

lemma record_outcome_rule: "always (record_outcome wr err) tr (\<lambda>tr' _. recorded err tr tr')"
  unfolding record_outcome_def
proof (rule bind_quiet[OF quietly_refl], simp)
  fix tr1 :: "(kube_query, reply) trace" and u :: unit
  assume q: "quietly tr tr1"
  show "always (bind_p (setStatusConditionFromError wr err) (\<lambda>wr'. bind_p (setLastErrorStatus wr' err) (\<lambda>_. Ret ()))) tr1
      (\<lambda>tr' _. recorded err tr tr')"
    unfolding always_bind by (rule always_mono[OF from_error_rule[OF q]]) (auto intro: last_error_rule)
qed

lemma accounted_recorded:
  assumes "accounted rc tr out" "recorded (case out of Inl err \<Rightarrow> Some err | Inr _ \<Rightarrow> None) tr tr'"
  shows "accounted rc tr' out"
  using assms by (auto simp: accounted_def recorded_def keeps_objects_def split: sum.splits)

definition settled :: "WakeupReconciler \<Rightarrow> (kube_query, reply) trace \<Rightarrow> wake_result \<Rightarrow> bool" where
  "settled rc tr res \<longleftrightarrow> claimed tr = (\<lambda>_. False) \<or> (\<exists>out. accounted rc tr out \<and> res = returned out)"

lemma blank_settled: "blank tr \<Longrightarrow> settled rc tr res"
  by (simp add: settled_def blank_def)

lemma attempt_rule:
  assumes "blank tr"
  shows "always (attempt rc wr) tr (settled rc)"
proof -
  have "always (record_outcome wr (case out of Inl err \<Rightarrow> Some err | Inr _ \<Rightarrow> None)) tr1 (\<lambda>tr' _. settled rc tr' (returned out))"
    if "accounted rc tr1 out" for tr1 wr and out :: "werr + int"
    by (rule always_mono[OF record_outcome_rule]) (unfold settled_def, use that accounted_recorded in blast)
  then show ?thesis unfolding attempt_def always_bind
    by (intro always_mono[OF wake_branch_up_rule[OF assms]]) auto
qed

lemma ttl_rule: "blank tr \<Longrightarrow> always (deleteAfterTTL rc wr) tr (settled rc)"
  by (auto simp: deleteAfterTTL_def now_p_def fetch_rule Let_def settled_def blank_def fun_eq_iff claimed_def split: option.splits)

lemma reconcile_live_rule:
  assumes "blank tr"
  shows "always (reconcile_live rc wr) tr (settled rc)"
proof -
  have "always (observe_generation wr) tr (\<lambda>tr' _. blank tr')" if "\<not> isWakeupSucceeded wr"
    unfolding observe_generation_def
    by (auto intro!: status_update_rule)
      (use assms that in \<open>auto simp: blank_def keeps_objects_def isWakeupSucceeded_def succeeded_status_def\<close>)
  then have "always (bind_p (observe_generation wr) (\<lambda>(wr2, e2). case e2 of Some err \<Rightarrow> Ret (0, Some err) | None \<Rightarrow> attempt rc wr2)) tr (settled rc)"
    if "\<not> isWakeupSucceeded wr" unfolding always_bind
    by (rule always_mono) (use that in \<open>auto intro: attempt_rule blank_settled split: option.splits\<close>)
  then show ?thesis by (simp add: reconcile_live_def ttl_rule assms blank_settled)
qed

lemma Reconcile_rule: "always (Reconcile rc ns name) [] (settled rc)"
proof -
  have nil: "blank []" by (auto simp: blank_def claimed_def deleted_def acked_def)
  have ensure: "always (ensureStatusConditions wr) tr (\<lambda>tr' _. blank tr')" if "blank tr" for tr wr
    unfolding ensureStatusConditions_def
    by (auto simp: that intro!: setSucceeded_rule) (use that in \<open>auto simp: blank_def keeps_objects_def\<close>)
  have "always (bind_p (ensureStatusConditions wr) (\<lambda>(wr1, e). case e of Some err \<Rightarrow> Ret (0, Some err) | None \<Rightarrow> reconcile_live rc wr1)) tr (settled rc)"
    if "blank tr" for tr wr
    unfolding always_bind
    by (rule always_mono[OF ensure[OF that]]) (auto intro: reconcile_live_rule blank_settled split: option.splits)
  then show ?thesis unfolding Reconcile_def
    by (intro bind_quiet[OF quietly_refl])
      (auto dest!: blank_quiet[OF nil] simp: blank_settled simp del: always_bind split: sum.splits)
qed

text \<open>C11. No cluster taken from a pool is left behind: when a reconciliation has claimed a cluster and ends, either it
  assigned the cluster to a branch, the success of the request was acknowledged and the request comes back after its TTL
  without an error, or it asked for the cluster to be deleted and the request is not marked as succeeded.\<close>

theorem claimed_cluster_accounted:
  assumes "follow (Reconcile rc ns name) rs = (tr, Some (d, err))" "claimed tr c"
  shows "acked tr \<and> (\<exists>b. assigned tr b c) \<and> \<not> deleted tr c \<and> d = rc_WakeupRequestTTL rc \<and> err = None
    \<or> \<not> acked tr \<and> deleted tr c \<and> d = 0"
proof -
  obtain out where "accounted rc tr out" "(d, err) = returned out"
    using always_follow[OF Reconcile_rule assms(1)] assms(2) by (auto simp: settled_def)
  then show ?thesis using assms(2) by (auto simp: accounted_def returned_def split: sum.splits)
qed

section \<open>When the reconciler writes\<close>

text \<open>The branch and the volume of the request that a run reads first.\<close>

fun run_request :: "(kube_query, reply) trace \<Rightarrow> WakeupRequest option" where
  "run_request ((GetWakeupRequest ns n, RWakeupRequest wr) # tr) = Some wr"
| "run_request tr = None"

definition own_or_newer :: "string \<Rightarrow> string option \<Rightarrow> bool" where
  "own_or_newer own img \<longleftrightarrow> img = (if own = '''' then None else Some own) \<or>
     (\<exists>new v w. img = Some new \<and> ParseImageVersion own = Inr v \<and> ParseImageVersion new = Inr w \<and>
        iv_Offering w = iv_Offering v \<and> iv_Major w = iv_Major v \<and> iv_Minor v < iv_Minor w)"

fun may_write :: "(kube_query, reply) trace \<Rightarrow> kube_query \<Rightarrow> bool" where
  "may_write tr (UpdateCluster cl) = (\<exists>ns pool cs c. (ListPoolClusters ns pool, RClusters cs) \<in> set tr \<and> c \<in> set cs \<and>
     cl_Pool c = Some pool \<and> cl_ReadyInstances c \<noteq> 0 \<and> cl = c\<lparr>cl_Pool := None\<rparr>)"
| "may_write tr (ApplyBranch b c img) = (\<exists>wr br. run_request tr = Some wr \<and> wr_BranchName wr = b \<and>
     (GetBranch b, RBranch br) \<in> set tr \<and> wb_Name br = b \<and> own_or_newer (wb_Image br) img \<and>
     (wb_ClusterName br = Some c \<or> claimed tr c \<and> woken tr (wr_XVolName wr)))"
| "may_write tr (DeleteCluster ns c) = claimed tr c"
| "may_write tr (StatusUpdate wr) = (isWakeupSucceeded wr \<longrightarrow> (\<exists>c. assigned tr (wr_BranchName wr) c))"
| "may_write tr q = True"

lemma may_write_quiet: "quiet_query q \<Longrightarrow> may_write tr q"
  by (cases q) auto

lemma quiet_may_write [simp]: "only_quiet p \<Longrightarrow> guarded p tr may_write"
  by (rule only_quiet_guarded) (auto intro: may_write_quiet)

lemma guarded_fetch [simp]: "guarded (fetch q sel) tr G = G tr q"
  by (simp add: fetch_def)

lemma guarded_on_ok:
  assumes "guarded p tr G" "always p tr R" "\<And>tr' a. R tr' (Inr a) \<Longrightarrow> guarded (f a) tr' G"
  shows "guarded (on_ok wr p f) tr G"
  unfolding on_ok_def guarded_bind
  using assms(1) by (auto intro!: always_mono[OF assms(2)] assms(3) split: sum.splits)

lemma guarded_on_ok_quiet:
  assumes "quietly tr0 tr" "only_quiet p" "\<And>tr' a. quietly tr0 tr' \<Longrightarrow> guarded (f a) tr' may_write"
  shows "guarded (on_ok wr p f) tr may_write"
  by (rule guarded_on_ok[OF quiet_may_write[OF assms(2)] only_quiet_always[OF assms(2)]]) (use assms(1,3) quietly_trans in blast)

lemma guarded_bind_rule:
  assumes "guarded p tr G" "always p tr R" "\<And>tr' a. R tr' a \<Longrightarrow> guarded (f a) tr' G"
  shows "guarded (bind_p p f) tr G"
  unfolding guarded_bind using assms(1) by (auto intro!: always_mono[OF assms(2)] assms(3))

lemma run_request_append: "run_request tr = Some wr \<Longrightarrow> run_request (tr @ new) = Some wr"
  by (induction tr rule: run_request.induct) auto

text \<open>What the run knows once it has read the branch.\<close>

definition knows :: "WakeupRequest \<Rightarrow> wake_branch \<Rightarrow> (kube_query, reply) trace \<Rightarrow> bool" where
  "knows wr br tr \<longleftrightarrow> (\<exists>wr0. run_request tr = Some wr0 \<and> same_spec wr wr0) \<and> (GetBranch (wr_BranchName wr), RBranch br) \<in> set tr \<and>
     wb_Name br = wr_BranchName wr"

lemma knows_append: "knows wr br tr \<Longrightarrow> knows wr br (tr @ new)"
  by (auto simp: knows_def run_request_append)

lemma quietly_knows: "knows wr br tr \<Longrightarrow> quietly tr tr' \<Longrightarrow> knows wr br tr'"
  using knows_append by (auto simp: quietly_def)

lemma woken_append: "woken tr x \<Longrightarrow> woken (tr @ new) x"
  by (auto simp: woken_def)

lemma status_guard: "(isWakeupSucceeded wr \<Longrightarrow> \<exists>c. assigned tr (wr_BranchName wr) c) \<Longrightarrow> guarded (status_update wr) tr may_write"
  by (simp add: status_update_def)

lemma setSucceeded_guard:
  assumes "status = ConditionTrue \<Longrightarrow> \<exists>c. assigned tr (wr_BranchName wr) c"
  shows "guarded (setSucceededCondition wr status reason) tr may_write"
proof -
  have "succeeded_status (wr\<lparr>wr_Conditions := SetStatusCondition t (succeeded_condition wr status reason) (wr_Conditions wr)\<rparr>) = Some status" for t
    using SetStatusCondition_find[of "succeeded_condition wr status reason" t "wr_Conditions wr"]
    by (simp add: succeeded_status_def FindStatusCondition_def succeeded_condition_def)
  then show ?thesis unfolding setSucceededCondition_def
    by (intro guarded_bind_rule[OF _ only_quiet_always] status_guard) (auto simp: isWakeupSucceeded_def quietly_sets assms)
qed

lemma mark_guard: "assigned tr (wr_BranchName wr) c \<Longrightarrow> guarded (mark_succeeded rc wr) tr may_write"
  by (auto simp: mark_succeeded_def split_def intro!: setSucceeded_guard)

lemma adoptable_newer:
  "own_or_newer own (if (if adoptableImage own img \<noteq> '''' then adoptableImage own img else own) \<noteq> ''''
     then Some (if adoptableImage own img \<noteq> '''' then adoptableImage own img else own) else None)"
  by (auto simp: own_or_newer_def adoptableImage_def split: sum.splits if_splits)

lemma assign_guard:
  assumes "knows wr br tr" "own_or_newer (wb_Image br) (if img \<noteq> '''' then Some img else None)"
    "wb_ClusterName br = Some c \<or> claimed tr c \<and> woken tr (wr_XVolName wr)"
  shows "guarded (on_ok wr (assignClusterToBranch br c img) (\<lambda>_. mark_succeeded rc wr)) tr may_write"
proof (rule guarded_on_ok)
  show "guarded (assignClusterToBranch br c img) tr may_write"
    using assms by (auto simp: assignClusterToBranch_def knows_def same_spec_def)
  show "always (assignClusterToBranch br c img) tr (\<lambda>tr' x. x = Inr () \<longrightarrow> assigned tr' (wb_Name br) c)"
    by (auto simp: assignClusterToBranch_def fetch_rule trace_snoc)
  show "Inr a = Inr () \<longrightarrow> assigned tr' (wb_Name br) c \<Longrightarrow> guarded (mark_succeeded rc wr) tr' may_write" for tr' a
    using assms(1) by (intro mark_guard[of _ _ c]) (auto simp: knows_def)
qed

lemma wakeUp_rule: "always (wakeUp rc pod x pv) tr (\<lambda>tr' r. quietly tr tr' \<and> (r = Inr () \<longrightarrow> woken tr' x))"
proof -
  have "always (wakeUp rc pod x pv) tr (\<lambda>tr' r. r = Inr () \<longrightarrow> woken tr' x)"
    by (auto simp: wakeUp_def wrap_err_def fetch_rule trace_snoc Let_def split: sum.splits)
  then show ?thesis using only_quiet_always[of "wakeUp rc pod x pv" tr] by (simp add: always_conj)
qed

lemma quietly_woken: "woken tr x \<Longrightarrow> quietly tr tr' \<Longrightarrow> woken tr' x"
  by (unfold quietly_def) (auto simp: woken_append)

lemma hand_over_guard:
  assumes "knows wr br tr" "claimed tr (cl_Name cl)" "woken tr (wr_XVolName wr)"
  shows "guarded (hand_over rc wr br pv cl) tr may_write"
  unfolding hand_over_def
proof (rule guarded_on_ok_quiet[OF quietly_refl], simp)
  fix tr' u
  assume "quietly tr tr'"
  then show "guarded (let adopted = adoptableImage (wb_Image br) (cl_ImageName cl);
      img = (if adopted \<noteq> '''' then adopted else wb_Image br) in
      on_ok wr (assignClusterToBranch br (cl_Name cl) img) (\<lambda>_. mark_succeeded rc wr)) tr' may_write"
    unfolding Let_def using assms
    by (intro assign_guard adoptable_newer) (auto intro: quietly_knows quietly_woken simp: quietly_sets)
qed

lemma use_cluster_guard:
  assumes "knows wr br tr" "claimed tr (cl_Name cl)"
  shows "guarded (use_cluster rc wr br cl) tr may_write"
proof -
  have wait: "guarded (bind_p (wait_step rc wr br cl) (\<lambda>(cluster', waited). on_ok wr (Ret waited) (\<lambda>_. hand_over rc wr br pv cluster'))) tr1 may_write"
    if "quietly tr tr1" "woken tr1 (wr_XVolName wr)" for tr1 pv
  proof (rule guarded_bind_rule[OF _ wait_step_rule], simp, clarify)
    fix tr2 and cl' :: Cluster and waited
    assume q: "quietly tr1 tr2" and n: "cl_Name cl' = cl_Name cl"
    have "guarded (hand_over rc wr br pv cl') tr' may_write" if q': "quietly tr2 tr'" for tr'
    proof (rule hand_over_guard)
      have "quietly tr tr'" "quietly tr1 tr'" using that q \<open>quietly tr tr1\<close> quietly_trans by blast+
      then show "knows wr br tr'" "claimed tr' (cl_Name cl')" "woken tr' (wr_XVolName wr)"
        using assms n \<open>woken tr1 _\<close> by (auto intro: quietly_knows quietly_woken simp: quietly_sets)
    qed
    then show "guarded (on_ok wr (Ret waited) (\<lambda>_. hand_over rc wr br pv cl')) tr2 may_write"
      by (intro guarded_on_ok_quiet[OF quietly_refl]) auto
  qed
  have awake: "guarded (on_ok wr (wakeUp rc pod (wr_XVolName wr) pv) (\<lambda>_.
      bind_p (wait_step rc wr br cl) (\<lambda>(cluster', waited). on_ok wr (Ret waited) (\<lambda>_. hand_over rc wr br pv cluster')))) tr1 may_write"
    if "quietly tr tr1" for tr1 pv pod
    by (rule guarded_on_ok[OF _ wakeUp_rule]) (use that in \<open>auto simp del: guarded_bind intro!: wait intro: quietly_trans\<close>)
  show ?thesis unfolding use_cluster_def
    by (rule guarded_on_ok_quiet[OF quietly_refl], simp, rule guarded_on_ok_quiet[of tr], assumption, simp,
        rule guarded_on_ok_quiet[of tr], assumption, simp, erule awake)
qed

lemma take_listed_guard:
  assumes "(ListPoolClusters ns pool, RClusters cs) \<in> set tr"
  shows "guarded (take_listed pool cs) tr may_write"
proof -
  let ?ready = "filter (\<lambda>c. cl_ReadyInstances c \<noteq> 0) cs"
  have "may_write tr' (UpdateCluster ((?ready ! (i mod length ?ready))\<lparr>cl_Pool := None\<rparr>))"
    if "?ready \<noteq> []" "cl_Pool (?ready ! (i mod length ?ready)) = Some pool" "set tr \<subseteq> set tr'" for i tr'
  proof -
    have "?ready ! (i mod length ?ready) \<in> set ?ready" using that by (intro nth_mem) simp
    then show ?thesis using that assms by (simp del: nth_mem) blast
  qed
  then show ?thesis by (auto simp: take_listed_def claim_one_def Let_def simp del: may_write.simps)
      (auto simp: may_write_quiet)
qed

lemma take_guard: "guarded (takeClusterFromPool ns pool) tr may_write"
proof -
  have "guarded (try_p (fetch (ListPoolClusters ns pool) the_clusters) (take_listed pool)) tr1 may_write" for tr1
    by (auto simp: fetch_rule answer_def the_clusters_def intro!: take_listed_guard[of ns] split: reply.splits)
  then show ?thesis
    by (auto simp: takeClusterFromPool_def fetch_rule simp del: guarded_try split: sum.splits)
qed

lemma wake_getBranch_rule:
  "always (wake_getBranch n) tr (\<lambda>tr' x. quietly tr tr' \<and> (\<forall>b. x = Inr b \<longrightarrow> (GetBranch n, RBranch b) \<in> set tr' \<and> wb_Name b = n))"
proof -
  have "always (wake_getBranch n) tr (\<lambda>tr' x. \<forall>b. x = Inr b \<longrightarrow> (GetBranch n, RBranch b) \<in> set tr' \<and> wb_Name b = n)"
    by (auto simp: wake_getBranch_def fetch_rule answer_def the_branch_def split: sum.splits reply.splits if_splits)
  then show ?thesis using only_quiet_always[of "wake_getBranch n" tr] by (simp add: always_conj)
qed

lemma wake_branch_up_guard:
  assumes "run_request tr = Some wr00" "same_spec wr0 wr00"
  shows "guarded (wake_branch_up rc wr0) tr may_write"
  unfolding wake_branch_up_def
proof (rule guarded_bind_rule[OF setSucceeded_guard setSucceeded_rule])
  let ?R = "\<lambda>tr' (wr, e). same_spec wr wr0 \<and> run_request tr' = Some wr00"
  show "?R tr' (wr', e)" if "same_spec wr' wr0" "keeps_objects tr tr'" for tr' wr' and e :: "werr option"
    using that assms(1) by (auto simp: keeps_objects_def run_request_append)
  have claim: "guarded (on_ok wr (takeClusterFromPool (wr_Namespace wr) pool) (\<lambda>cl. cleanup cl (use_cluster rc wr br cl))) tr1 may_write"
    if "knows wr br tr1" for tr1 wr br pool
  proof (rule guarded_on_ok[OF take_guard])
    show "always (takeClusterFromPool (wr_Namespace wr) pool) tr1 (\<lambda>tr' x. took tr1 tr' x \<and> knows wr br tr')"
      by (rule always_mono[OF take_rule]) (use that knows_append in \<open>auto simp: took_def\<close>)
    fix tr2 cl
    assume "took tr1 tr2 (Inr cl) \<and> knows wr br tr2"
    then show "guarded (cleanup cl (use_cluster rc wr br cl)) tr2 may_write"
      unfolding cleanup_def
      by (intro guarded_bind_rule[OF use_cluster_guard use_cluster_rule])
        (auto simp: took_def woke_or_failed_def split: sum.splits)
  qed
  have branch: "guarded (wake_with rc wr branch) tr1 may_write" if "knows wr branch tr1" for tr1 wr branch
    unfolding wake_with_def using that
    by (auto intro!: guarded_on_ok_quiet[OF quietly_refl] claim assign_guard[OF that] simp: own_or_newer_def split: option.splits
        intro: quietly_knows)
  have "guarded (on_ok wr (wake_getBranch (wr_BranchName wr)) (wake_with rc wr)) tr1 may_write"
    if "same_spec wr wr0" "run_request tr1 = Some wr00" for wr tr1
    by (rule guarded_on_ok[OF _ wake_getBranch_rule])
      (use that assms(2) in \<open>auto intro!: branch simp: knows_def same_spec_def quietly_def run_request_append\<close>)
  then show "?R tr1 a \<Longrightarrow> guarded (case a of (wr, e) \<Rightarrow> case e of Some err \<Rightarrow> Ret (wr, Inl err)
     | None \<Rightarrow> on_ok wr (wake_getBranch (wr_BranchName wr)) (wake_with rc wr)) tr1 may_write" for tr1 a
    by (auto split: option.splits)
qed auto

lemma record_outcome_guard:
  assumes "\<And>c. err = None \<Longrightarrow> isWakeupSucceeded wr \<Longrightarrow> \<exists>c. assigned tr (wr_BranchName wr) c"
  shows "guarded (record_outcome wr err) tr may_write"
proof -
  let ?last = "\<lambda>wr'. bind_p (setLastErrorStatus wr' err) (\<lambda>_. Ret ())"
  have last: "guarded (?last wr') tr1 may_write" if "isWakeupSucceeded wr' \<Longrightarrow> \<exists>c. assigned tr1 (wr_BranchName wr') c" for wr' tr1
    using that unfolding setLastErrorStatus_def guarded_bind
    by (auto simp: isWakeupSucceeded_def succeeded_status_def split_def intro!: status_guard)
  have rest: "guarded (bind_p (setStatusConditionFromError wr err) ?last) tr1 may_write" if q: "quietly tr tr1" for tr1
  proof (rule guarded_bind_rule[OF _ always_conj[THEN iffD2]])
    show "guarded (setStatusConditionFromError wr err) tr1 may_write"
      by (auto simp: setStatusConditionFromError_def split_def intro!: setSucceeded_guard split: option.splits if_splits)
    show "always (setStatusConditionFromError wr err) tr1 (\<lambda>tr' wr'. keeps_objects tr tr' \<and> acked tr' = acked tr \<and> (err \<noteq> None \<longrightarrow> \<not> isWakeupSucceeded wr'))
        \<and> always (setStatusConditionFromError wr err) tr1 (\<lambda>tr' wr'. err = None \<longrightarrow> wr' = wr)"
      using from_error_rule[OF q] by (simp add: setStatusConditionFromError_def split: option.splits)
    fix tr' wr'
    assume "(keeps_objects tr tr' \<and> acked tr' = acked tr \<and> (err \<noteq> None \<longrightarrow> \<not> isWakeupSucceeded wr')) \<and> (err = None \<longrightarrow> wr' = wr)"
    then show "guarded (?last wr') tr' may_write" using assms by (intro last) (auto simp: keeps_objects_def)
  qed
  show ?thesis unfolding record_outcome_def
    by (rule guarded_bind_rule[OF quiet_may_write only_quiet_always], simp, simp, erule rest)
qed

text \<open>When an attempt ends without an error, the branch of the request was assigned.\<close>

definition ends :: "string \<Rightarrow> (kube_query, reply) trace \<Rightarrow> WakeupRequest \<times> (werr + int) \<Rightarrow> bool" where
  "ends b tr p \<longleftrightarrow> wr_BranchName (fst p) = b \<and> (\<forall>d. snd p = Inr d \<longrightarrow> (\<exists>c. assigned tr b c))"

lemma on_ok_ends:
  assumes "wr_BranchName wr = b" "\<And>tr' a. always (f a) tr' (ends b)"
  shows "always (on_ok wr p f) tr (ends b)"
  by (rule on_okI[where R = "\<lambda>_ _. True"]) (auto simp: ends_def assms)

lemma assign_ends:
  assumes "wr_BranchName wr = b" "wb_Name br = b"
  shows "always (on_ok wr (assignClusterToBranch br c img) (\<lambda>_. mark_succeeded rc wr)) tr (ends b)"
proof (rule on_okI)
  show "always (assignClusterToBranch br c img) tr (\<lambda>tr' x. x = Inr () \<longrightarrow> assigned tr' b c)"
    using assms(2) by (auto simp: assignClusterToBranch_def fetch_rule trace_snoc)
  show "Inr u = Inr () \<longrightarrow> assigned tr' b c \<Longrightarrow> always (mark_succeeded rc wr) tr' (ends b)" for tr' u
    unfolding mark_succeeded_def always_bind
    by (rule setSucceeded_rule) (use assms(1) in \<open>auto simp: ends_def keeps_objects_def same_spec_def\<close>)
qed (simp add: ends_def assms)

lemma always_all: "(\<And>tr' a. Q tr' a) \<Longrightarrow> always p tr Q"
  by (rule always_mono[OF always_True])

lemma use_cluster_ends:
  assumes "wr_BranchName wr = b" "wb_Name br = b"
  shows "always (use_cluster rc wr br cl) tr (ends b)"
proof -
  have "always (hand_over rc wr br pv cl') tr1 (ends b)" for pv cl' tr1
    unfolding hand_over_def by (rule on_ok_ends[OF assms(1)]) (simp add: Let_def assign_ends[OF assms])
  then have tail: "always (on_ok wr (Ret waited) (\<lambda>_. hand_over rc wr br pv cl')) tr1 (ends b)" for waited pv cl' tr1
    by (rule on_ok_ends[OF assms(1)])
  have wait: "always (bind_p (wait_step rc wr br cl) (\<lambda>(cluster', waited). on_ok wr (Ret waited) (\<lambda>_. hand_over rc wr br pv cluster'))) tr1 (ends b)" for pv tr1
    unfolding always_bind by (rule always_all) (simp add: split_def tail)
  show ?thesis unfolding use_cluster_def
    by (rule on_ok_ends[OF assms(1)], rule on_ok_ends[OF assms(1)], rule on_ok_ends[OF assms(1)], rule on_ok_ends[OF assms(1)], rule wait)
qed

lemma cleanup_ends:
  assumes "\<And>tr. always p tr (ends b)"
  shows "always (cleanup cl p) tr (ends b)"
  unfolding cleanup_def always_bind by (rule always_mono[OF assms]) (auto simp: ends_def split: sum.splits)

lemma wake_branch_up_ends: "always (wake_branch_up rc wr0) tr (ends (wr_BranchName wr0))"
proof -
  let ?b = "wr_BranchName wr0"
  have branch: "always (wake_with rc wr branch) tr1 (ends ?b)" if "wr_BranchName wr = ?b" "wb_Name branch = ?b" for wr branch tr1
    using assign_ends[OF that] unfolding wake_with_def
    by (auto split: option.splits intro!: on_ok_ends[OF that(1)] cleanup_ends use_cluster_ends[OF that])
  have "always (on_ok wr (wake_getBranch (wr_BranchName wr)) (wake_with rc wr)) tr1 (ends ?b)" if "wr_BranchName wr = ?b" for wr tr1
    by (rule on_okI[OF wake_getBranch_rule]) (use that branch in \<open>auto simp: ends_def\<close>)
  then show ?thesis unfolding wake_branch_up_def always_bind
    by (intro setSucceeded_rule) (auto simp: same_spec_def ends_def split: option.splits)
qed

lemma attempt_guard:
  assumes "run_request tr = Some wr00" "same_spec wr wr00"
  shows "guarded (attempt rc wr) tr may_write"
  unfolding attempt_def
proof (rule guarded_bind_rule[OF wake_branch_up_guard[OF assms] wake_branch_up_ends], clarify)
  fix tr1 and wr1 :: WakeupRequest and out :: "werr + int"
  assume "ends (wr_BranchName wr) tr1 (wr1, out)"
  then have "guarded (record_outcome wr1 (case out of Inl err \<Rightarrow> Some err | Inr _ \<Rightarrow> None)) tr1 may_write"
    by (intro record_outcome_guard) (auto simp: ends_def split: sum.splits)
  then show "guarded (bind_p (record_outcome wr1 (case out of Inl err \<Rightarrow> Some err | Inr _ \<Rightarrow> None)) (\<lambda>_. Ret (returned out))) tr1 may_write"
    by simp
qed

lemma reconcile_live_guard:
  assumes "run_request tr = Some wr00" "same_spec wr wr00"
  shows "guarded (reconcile_live rc wr) tr may_write"
proof -
  have ttl: "guarded (deleteAfterTTL rc wr) tr may_write"
    by (auto simp: deleteAfterTTL_def now_p_def Let_def split: option.splits)
  have "guarded (bind_p (observe_generation wr) (\<lambda>(wr2, e2). case e2 of Some err \<Rightarrow> Ret (0, Some err) | None \<Rightarrow> attempt rc wr2)) tr may_write"
    if "\<not> isWakeupSucceeded wr"
  proof (rule guarded_bind_rule)
    show "guarded (observe_generation wr) tr may_write"
      using that by (auto simp: observe_generation_def isWakeupSucceeded_def succeeded_status_def intro!: status_guard)
    show "always (observe_generation wr) tr (\<lambda>tr' (wr2, e2). run_request tr' = Some wr00 \<and> same_spec wr2 wr00)"
      unfolding observe_generation_def
      by (auto simp: assms intro!: status_update_rule)
        (use assms in \<open>auto simp: keeps_objects_def run_request_append same_spec_def\<close>)
  qed (auto intro: attempt_guard split: option.splits)
  then show ?thesis by (simp add: reconcile_live_def ttl del: guarded_bind)
qed

lemma Reconcile_guard: "guarded (Reconcile rc ns name) [] may_write"
proof -
  have ensure: "guarded (bind_p (ensureStatusConditions wr) (\<lambda>(wr1, e). case e of Some err \<Rightarrow> Ret (0, Some err) | None \<Rightarrow> reconcile_live rc wr1)) tr may_write"
    if "run_request tr = Some wr" for tr wr
  proof (rule guarded_bind_rule)
    show "guarded (ensureStatusConditions wr) tr may_write"
      by (auto simp: ensureStatusConditions_def intro!: setSucceeded_guard)
    show "always (ensureStatusConditions wr) tr (\<lambda>tr' (wr1, e). run_request tr' = Some wr \<and> same_spec wr1 wr)"
      unfolding ensureStatusConditions_def
      by (auto simp: that same_spec_def intro!: setSucceeded_rule)
        (use that in \<open>auto simp: keeps_objects_def run_request_append same_spec_def\<close>)
  qed (auto intro: reconcile_live_guard split: option.splits)
  show ?thesis unfolding Reconcile_def
  proof (rule guarded_bind_rule[where R = "\<lambda>tr x. \<forall>wr. x = Inr wr \<longrightarrow> run_request tr = Some wr"])
    show "always (fetch (GetWakeupRequest ns name) (the_request ns name)) [] (\<lambda>tr x. \<forall>wr. x = Inr wr \<longrightarrow> run_request tr = Some wr)"
      by (auto simp: fetch_rule answer_def the_request_def split: reply.splits if_splits)
  qed (auto simp del: guarded_bind intro!: ensure split: sum.splits)
qed

text \<open>C12. The reconciler writes only with cause.  It claims a cluster that it saw ready in the pool; it assigns to the branch
  of the request the cluster the branch already has, or one that it claimed itself and that has woken up with the volume of
  the request, under the image of the branch or a newer minor of the same offering and major; it deletes only a cluster
  that it claimed; and it marks the request as succeeded only after the assignment was acknowledged.\<close>

theorem writes_with_cause:
  assumes "fst (follow (Reconcile rc ns name) rs) = tr1 @ (q, r) # tr2"
  shows "may_write tr1 q"
  using guarded_follow[OF Reconcile_guard assms] by simp

section \<open>Concrete runs\<close>

definition demo_rc :: WakeupReconciler where
  "demo_rc = \<lparr>rc_CSINodeNamespace = ''xatastor'', rc_CSINodePort = 9000, rc_WakeupRequestTTL = 300, rc_PasswordSyncTimeout = 10, rc_Polls = 5\<rparr>"

definition demo_wr :: WakeupRequest where
  "demo_wr = \<lparr>wr_Name = ''wake-b1'', wr_Namespace = ''xata-clusters'', wr_ResourceVersion = ''1'', wr_Generation = 1,
     wr_DeletionTimestamp = None, wr_BranchName = ''b1'', wr_XVolName = ''xvol-1'', wr_PasswordSync = PasswordSyncModeSkip,
     wr_ObservedGeneration = 1, wr_Conditions = [], wr_LastError = ''''\<rparr>"

definition with_status :: "ConditionStatus \<Rightarrow> string \<Rightarrow> int \<Rightarrow> WakeupRequest" where
  "with_status st reason t = demo_wr\<lparr>wr_Conditions := [(succeeded_condition demo_wr st reason)\<lparr>co_LastTransitionTime := t\<rparr>]\<rparr>"

definition sleeping_branch :: wake_branch where
  "sleeping_branch = \<lparr>wb_Name = ''b1'', wb_Annotations = [WakeupPoolAnnotation \<mapsto> ''pool''], wb_ClusterName = None, wb_Image = ''postgres:17.5''\<rparr>"

definition pool_cluster :: Cluster where
  "pool_cluster = \<lparr>cl_Name = ''c7'', cl_Namespace = ''xata-clusters'', cl_ResourceVersion = ''10'', cl_Pool = Some ''pool'', cl_ReadyInstances = 1,
     cl_HealthyPVC = [''pvc-7''], cl_TargetPrimary = ''c7-1'', cl_ImageName = ''postgres:17.6'', cl_PasswordStatus = Map.empty\<rparr>"

definition claimed_cluster :: Cluster where
  "claimed_cluster = pool_cluster\<lparr>cl_Pool := None, cl_ResourceVersion := ''11''\<rparr>"

text \<open>The answers of a run up to the assignment, which is acknowledged.\<close>

definition up_to_assignment :: "reply list" where
  "up_to_assignment = [RWakeupRequest demo_wr, RTime 1, RWakeupRequest (with_status ConditionUnknown WakeupAwaitingReconciliationReason 1),
     RTime 2, RWakeupRequest (with_status ConditionUnknown WakeupInProgressReason 1), RBranch sleeping_branch, RText xvolStateAvailable,
     ROk, RClusters [pool_cluster], RIndex 0, RCluster claimed_cluster, RText ''pv-7'', ROk,
     RPod \<lparr>po_Name = ''c7-1'', po_NodeName = ''n1'', po_PodIP = ''10.0.0.7''\<rparr>,
     RPods [\<lparr>po_Name = ''csi'', po_NodeName = ''n1'', po_PodIP = ''10.0.0.1''\<rparr>], ROk, ROk, ROk, ROk]"

definition good_run :: "reply list" where
  "good_run = up_to_assignment @ [RTime 3, RWakeupRequest (with_status ConditionTrue WakeupSucceededReason 3),
     RWakeupRequest (with_status ConditionTrue WakeupSucceededReason 3)]"

definition conflict_run :: "reply list" where
  "conflict_run = up_to_assignment @ [RTime 3, RErr KConflict ''conflict'', ROk, ROk, RTime 4, RErr KConflict ''conflict'', RErr KConflict ''conflict'']"

lemma follow_fetch:
  "follow (fetch q sel) rs = (case rs of [] \<Rightarrow> ([], None) | r # _ \<Rightarrow> ([(q, r)], Some (answer sel r)))"
  by (cases rs) (simp_all add: fetch_def)

lemma follow_now: "follow now_p rs = (case rs of [] \<Rightarrow> ([], None) | r # _ \<Rightarrow> ([(TimeNow, r)], Some (case r of RTime t \<Rightarrow> t | _ \<Rightarrow> 0)))"
  by (cases rs) (simp_all add: now_p_def)

lemma follow_status_update:
  "follow (status_update wr) rs = (case rs of [] \<Rightarrow> ([], None)
     | r # _ \<Rightarrow> ([(StatusUpdate wr, r)], Some (case answer (the_stored wr) r of Inr wr' \<Rightarrow> (wr', None) | Inl e \<Rightarrow> (wr, Some e))))"
  by (cases rs) (simp_all add: status_update_def)

lemma follow_claim_one:
  "follow (claim_one pool cs) (RIndex i # rs) = (let cluster = cs ! (i mod length cs) in
     case (if cl_Pool cluster \<noteq> Some pool then ([], Some (Inl (Errorf ''remove controller reference'' (NewError ''owner not found''))))
           else follow (fetch (UpdateCluster (cluster\<lparr>cl_Pool := None\<rparr>)) (the_cluster (cl_Namespace cluster) (cl_Name cluster))) rs) of
       (tr, a) \<Rightarrow> ((IntN (length cs), RIndex i) # tr, a))"
  by (simp add: claim_one_def Let_def)

lemmas at_head = arg_cong[of _ _ "\<lambda>p. follow p rs" for rs]

lemmas follow_code = follow_bind follow_fetch follow_now follow_status_update follow_claim_one
  try_p_def[THEN at_head] on_ok_def[THEN at_head] wrap_err_def[THEN at_head] setSucceededCondition_def[THEN at_head]
  ensureStatusConditions_def[THEN at_head] setStatusConditionFromError_def[THEN at_head] setLastErrorStatus_def[THEN at_head]
  recordFailureEvent_def[THEN at_head] wake_getBranch_def[THEN at_head] assignClusterToBranch_def[THEN at_head]
  validateXVolStatus_def[THEN at_head] take_listed_def[THEN at_head] takeClusterFromPool_def[THEN at_head]
  setUserPasswordSecret_def[THEN at_head] getPersistentVolume_def[THEN at_head] annotatePVWithXVol_def[THEN at_head]
  getCSINodePod_def[THEN at_head] wakeUp_def[THEN at_head] mark_succeeded_def[THEN at_head] when_waiting_def[THEN at_head]
  wait_step_def[THEN at_head] hand_over_def[THEN at_head] use_cluster_def[THEN at_head] cleanup_def[THEN at_head]
  wake_with_def[THEN at_head] wake_branch_up_def[THEN at_head] record_outcome_def[THEN at_head] observe_generation_def[THEN at_head]
  attempt_def[THEN at_head] reconcile_live_def[THEN at_head] Reconcile_def[THEN at_head]

lemmas follow_data = answer_def the_ok_def the_text_def the_branch_def the_cluster_def the_clusters_def the_request_def the_stored_def
  demo_wr_def with_status_def sleeping_branch_def pool_cluster_def claimed_cluster_def stored_as_def succeeded_condition_def isWakeupFailed_def
  isWakeupSucceeded_def succeeded_status_def FindStatusCondition_def wakeupPoolName_def returned_def Let_def xvolStateAvailable_def

lemma demo_adopts: "adoptableImage ''postgres:17.5'' ''postgres:17.6'' = ''postgres:17.6''"
  by code_simp

lemma good_run_result:
  "snd (follow (Reconcile demo_rc ''xata-clusters'' ''wake-b1'') good_run) = Some (300, None) \<and>
   (UpdateCluster (pool_cluster\<lparr>cl_Pool := None\<rparr>), RCluster claimed_cluster)
     \<in> set (fst (follow (Reconcile demo_rc ''xata-clusters'' ''wake-b1'') good_run))"
  by (simp add: good_run_def up_to_assignment_def follow_code follow_data demo_adopts demo_rc_def)

theorem claimed_cluster_accounted_witness:
  "\<exists>tr. follow (Reconcile demo_rc ''xata-clusters'' ''wake-b1'') good_run = (tr, Some (300, None)) \<and> claimed tr ''c7'' \<and>
     acked tr \<and> (\<exists>b. assigned tr b ''c7'') \<and> \<not> deleted tr ''c7''"
proof -
  obtain tr where run: "follow (Reconcile demo_rc ''xata-clusters'' ''wake-b1'') good_run = (tr, Some (300, None))"
    using good_run_result by (metis prod.collapse)
  then have "(UpdateCluster (pool_cluster\<lparr>cl_Pool := None\<rparr>), RCluster claimed_cluster) \<in> set tr"
    using good_run_result by simp
  then have "claimed tr ''c7''" unfolding claimed_def
    by (intro exI[of _ "pool_cluster\<lparr>cl_Pool := None\<rparr>"]) (force simp: answer_def the_cluster_def pool_cluster_def claimed_cluster_def)
  then show ?thesis using claimed_cluster_accounted[OF run] run by auto
qed

theorem writes_with_cause_witness:
  "\<exists>tr1 r tr2. fst (follow (Reconcile demo_rc ''xata-clusters'' ''wake-b1'') good_run) =
     tr1 @ (UpdateCluster (pool_cluster\<lparr>cl_Pool := None\<rparr>), r) # tr2 \<and> may_write tr1 (UpdateCluster (pool_cluster\<lparr>cl_Pool := None\<rparr>))"
proof -
  obtain tr1 r tr2 where "fst (follow (Reconcile demo_rc ''xata-clusters'' ''wake-b1'') good_run) =
      tr1 @ (UpdateCluster (pool_cluster\<lparr>cl_Pool := None\<rparr>), r) # tr2"
    using good_run_result split_list by fast
  then show ?thesis using writes_with_cause by blast
qed

text \<open>The clean-up reaches too far: in a run whose last status update fails, here on a conflict, the deferred function
  deletes the cluster although it was already assigned to the branch.\<close>

lemma assigned_cluster_deleted:
  "\<exists>tr err. follow (Reconcile demo_rc ''xata-clusters'' ''wake-b1'') conflict_run = (tr, Some (0, Some err)) \<and>
     assigned tr ''b1'' ''c7'' \<and> deleted tr ''c7''"
  by (simp add: conflict_run_def up_to_assignment_def follow_code follow_data demo_adopts demo_rc_def assigned_def deleted_def ignoreTerminal_def)

end
