(* ===== verification/Wake_System.thy ===== *)
theory Wake_System
  imports Wakeup
begin

text \<open>
  Many reconciliations at once.  The Kubernetes API holds the clusters of the namespace and the cluster that each branch
  names; reconciliations run interleaved, each call being one step, and other actors create, change, take and delete
  clusters and hibernate branches.  Reads may be stale: a list returns clusters as they were at some time, a branch names a
  cluster it named at some time.  A write may take effect although its answer is an error.  An update of a cluster
  takes effect only on the version that was read.

  Of the other actors the code relies on this: names of new clusters are fresh, a cluster is not put into a pool again,
  and whoever else takes a cluster from a pool (\<open>services/clusters/pool.go\<close>, for new branches) does it with the same
  optimistic lock and gives the cluster to one branch.
\<close>

datatype claimer = Run nat | Elsewhere string

record wake_sys =
  ws_clusters :: "string \<rightharpoonup> Cluster"
  ws_past :: "Cluster set"
  ws_branches :: "string \<rightharpoonup> string option"
  ws_named :: "(string \<times> string) set"
  ws_claims :: "string \<rightharpoonup> claimer"
  ws_runs :: "((kube_query, reply) trace \<times> wake_result wprog) list"

definition ws_init :: wake_sys where
  "ws_init = \<lparr>ws_clusters = Map.empty, ws_past = {}, ws_branches = Map.empty, ws_named = {}, ws_claims = Map.empty, ws_runs = []\<rparr>"

definition pooled :: "wake_sys \<Rightarrow> string \<Rightarrow> bool" where
  "pooled s c \<longleftrightarrow> (\<exists>p\<in>ws_past s. cl_Name p = c \<and> cl_Pool p \<noteq> None)"

definition fresh_version :: "wake_sys \<Rightarrow> Cluster \<Rightarrow> bool" where
  "fresh_version s new \<longleftrightarrow> (\<forall>p\<in>ws_past s. cl_Name p = cl_Name new \<longrightarrow> cl_ResourceVersion p \<noteq> cl_ResourceVersion new)"

definition put :: "Cluster \<Rightarrow> wake_sys \<Rightarrow> wake_sys" where
  "put c s = s\<lparr>ws_clusters := (ws_clusters s)(cl_Name c \<mapsto> c), ws_past := insert c (ws_past s)\<rparr>"

definition claim_by :: "claimer \<Rightarrow> Cluster \<Rightarrow> Cluster \<Rightarrow> wake_sys \<Rightarrow> wake_sys" where
  "claim_by who old new s = (if cl_Pool old \<noteq> None \<and> cl_Pool new = None then s\<lparr>ws_claims := (ws_claims s)(cl_Name new \<mapsto> who)\<rparr> else s)"

definition assign :: "string \<Rightarrow> string \<Rightarrow> wake_sys \<Rightarrow> wake_sys" where
  "assign b c s = s\<lparr>ws_branches := (ws_branches s)(b \<mapsto> Some c), ws_named := insert (b, c) (ws_named s)\<rparr>"

fun touches :: "kube_query \<Rightarrow> bool" where
  "touches (UpdateCluster cl) = True"
| "touches (ApplyBranch b c img) = True"
| "touches (GetBranch b) = True"
| "touches (ListPoolClusters ns p) = True"
| "touches q = False"

inductive answers :: "nat \<Rightarrow> wake_sys \<Rightarrow> kube_query \<Rightarrow> reply \<Rightarrow> wake_sys \<Rightarrow> bool" where
  updated: "ws_clusters s (cl_Name cl) = Some cur \<Longrightarrow> cl_ResourceVersion cur = cl_ResourceVersion cl \<Longrightarrow>
    new = cl\<lparr>cl_ResourceVersion := v\<rparr> \<Longrightarrow> fresh_version s new \<Longrightarrow> r = RCluster new \<or> r = RErr k m \<Longrightarrow>
    answers i s (UpdateCluster cl) r (claim_by (Run i) cur new (put new s))"
| applied: "r = ROk \<or> r = RErr k m \<Longrightarrow> answers i s (ApplyBranch b c img) r (assign b c s)"
| refused: "answers i s q (RErr k m) s"
| read_branch: "\<forall>c. wb_ClusterName br = Some c \<longrightarrow> (b, c) \<in> ws_named s \<Longrightarrow> answers i s (GetBranch b) (RBranch br) s"
| listed: "set cs \<subseteq> ws_past s \<Longrightarrow> answers i s (ListPoolClusters ns p) (RClusters cs) s"
| deleted_one: "answers i s (DeleteCluster ns c) r (s\<lparr>ws_clusters := (ws_clusters s)(c := None)\<rparr>)"
| roles: "ws_clusters s n = Some cur \<Longrightarrow> new = cur\<lparr>cl_ResourceVersion := v\<rparr> \<Longrightarrow> fresh_version s new \<Longrightarrow>
    answers i s (ApplyRoles ns n b) r (put new s)"
| indifferent: "\<not> touches q \<Longrightarrow> answers i s q r s"

text \<open>Names of new clusters are generated and not used twice, so a cluster is not created under a name that a cluster had or that
  a branch already has.\<close>

inductive wake_step :: "wake_sys \<Rightarrow> wake_sys \<Rightarrow> bool" where
  start: "wake_step s (s\<lparr>ws_runs := ws_runs s @ [([], Reconcile rc ns name)]\<rparr>)"
| call: "i < length (ws_runs s) \<Longrightarrow> ws_runs s ! i = (tr, Call q k) \<Longrightarrow> answers i s q r s' \<Longrightarrow>
    wake_step s (s'\<lparr>ws_runs := (ws_runs s)[i := (tr @ [(q, r)], k r)]\<rparr>)"
| created: "\<forall>p\<in>ws_past s. cl_Name p \<noteq> cl_Name c \<Longrightarrow> \<forall>b. (b, cl_Name c) \<notin> ws_named s \<Longrightarrow> wake_step s (put c s)"
| changed: "ws_clusters s (cl_Name new) = Some cur \<Longrightarrow> cl_Pool new = cl_Pool cur \<Longrightarrow> fresh_version s new \<Longrightarrow> wake_step s (put new s)"
| taken: "ws_clusters s (cl_Name new) = Some cur \<Longrightarrow> cl_Pool cur \<noteq> None \<Longrightarrow> cl_Pool new = None \<Longrightarrow> fresh_version s new \<Longrightarrow>
    wake_step s (claim_by (Elsewhere b) cur new (put new s))"
| removed: "wake_step s (s\<lparr>ws_clusters := (ws_clusters s)(c := None)\<rparr>)"
| given: "ws_claims s c = Some (Elsewhere b) \<or> \<not> pooled s c \<Longrightarrow> wake_step s (assign b c s)"
| asleep: "x = None \<or> x = Some None \<Longrightarrow> wake_step s (s\<lparr>ws_branches := (ws_branches s)(b := x)\<rparr>)"

inductive wake_reach :: "wake_sys \<Rightarrow> bool" where
  init: "wake_reach ws_init"
| step: "wake_reach s \<Longrightarrow> wake_step s s' \<Longrightarrow> wake_reach s'"

section \<open>The invariant\<close>

definition stored_once :: "wake_sys \<Rightarrow> bool" where
  "stored_once s \<longleftrightarrow> (\<forall>p\<in>ws_past s. \<forall>p'\<in>ws_past s. cl_Name p = cl_Name p' \<and> cl_ResourceVersion p = cl_ResourceVersion p' \<longrightarrow> p = p') \<and>
     (\<forall>n c. ws_clusters s n = Some c \<longrightarrow> c \<in> ws_past s \<and> cl_Name c = n)"

definition claims_ok :: "wake_sys \<Rightarrow> bool" where
  "claims_ok s \<longleftrightarrow> (\<forall>n c. ws_clusters s n = Some c \<longrightarrow> ws_claims s n \<noteq> None \<longrightarrow> cl_Pool c = None) \<and>
     (\<forall>n. ws_claims s n \<noteq> None \<longrightarrow> pooled s n)"

definition branch_of :: "wake_sys \<Rightarrow> claimer \<Rightarrow> string option" where
  "branch_of s who = (case who of
     Elsewhere b \<Rightarrow> Some b
   | Run i \<Rightarrow> if i < length (ws_runs s) then map_option wr_BranchName (run_request (fst (ws_runs s ! i))) else None)"

definition run_ok :: "wake_sys \<Rightarrow> nat \<Rightarrow> (kube_query, reply) trace \<times> wake_result wprog \<Rightarrow> bool" where
  "run_ok s i x \<longleftrightarrow> guarded (snd x) (fst x) may_write \<and>
     (\<forall>c. claimed (fst x) c \<longrightarrow> ws_claims s c = Some (Run i)) \<and>
     (\<forall>ns pl cs. (ListPoolClusters ns pl, RClusters cs) \<in> set (fst x) \<longrightarrow> set cs \<subseteq> ws_past s) \<and>
     (\<forall>b br c. (GetBranch b, RBranch br) \<in> set (fst x) \<longrightarrow> wb_ClusterName br = Some c \<longrightarrow> (b, c) \<in> ws_named s)"

definition runs_ok :: "wake_sys \<Rightarrow> bool" where
  "runs_ok s \<longleftrightarrow> (\<forall>i<length (ws_runs s). run_ok s i (ws_runs s ! i))"

definition named_ok :: "wake_sys \<Rightarrow> bool" where
  "named_ok s \<longleftrightarrow> (\<forall>b c. (b, c) \<in> ws_named s \<longrightarrow> pooled s c \<longrightarrow> (\<exists>who. ws_claims s c = Some who \<and> branch_of s who = Some b)) \<and>
     (\<forall>b c. ws_branches s b = Some (Some c) \<longrightarrow> (b, c) \<in> ws_named s)"

definition wake_inv :: "wake_sys \<Rightarrow> bool" where
  "wake_inv s \<longleftrightarrow> stored_once s \<and> claims_ok s \<and> runs_ok s \<and> named_ok s"

lemmas wake_inv_defs = wake_inv_def stored_once_def claims_ok_def named_ok_def

lemma run_ok_mono:
  assumes "run_ok s i x" "ws_past s \<subseteq> ws_past s'" "ws_named s \<subseteq> ws_named s'" "\<And>c. ws_claims s c = Some (Run i) \<Longrightarrow> ws_claims s' c = Some (Run i)"
  shows "run_ok s' i x"
  using assms unfolding run_ok_def by blast

lemma runs_ok_mono:
  assumes "runs_ok s" "ws_runs s' = ws_runs s" "ws_past s \<subseteq> ws_past s'" "ws_named s \<subseteq> ws_named s'" "\<And>c i. ws_claims s c = Some (Run i) \<Longrightarrow> ws_claims s' c = Some (Run i)"
  shows "runs_ok s'"
  using assms unfolding runs_ok_def by (auto intro: run_ok_mono[of s])

lemma pooled_put: "pooled (put new s) c \<longleftrightarrow> pooled s c \<or> cl_Name new = c \<and> cl_Pool new \<noteq> None"
  by (auto simp: pooled_def put_def)

lemma put_fields [simp]: "ws_branches (put c s) = ws_branches s" "ws_named (put c s) = ws_named s" "ws_claims (put c s) = ws_claims s"
  "ws_runs (put c s) = ws_runs s" "ws_clusters (put c s) = (ws_clusters s)(cl_Name c \<mapsto> c)" "ws_past (put c s) = insert c (ws_past s)"
  by (simp_all add: put_def)

lemma branch_of_cong: "ws_runs s' = ws_runs s \<Longrightarrow> branch_of s' = branch_of s"
  by (simp add: branch_of_def fun_eq_iff split: claimer.splits)

lemma pooled_cong: "ws_past s' = ws_past s \<Longrightarrow> pooled s' = pooled s"
  by (simp add: pooled_def fun_eq_iff)

lemma put_inv:
  assumes inv: "wake_inv s" and fresh: "fresh_version s new"
    and claim: "ws_claims s (cl_Name new) \<noteq> None \<Longrightarrow> cl_Pool new = None"
    and pool: "cl_Pool new \<noteq> None \<Longrightarrow> pooled s (cl_Name new) \<or> (\<forall>b. (b, cl_Name new) \<notin> ws_named s)"
  shows "wake_inv (put new s)"
proof -
  have "stored_once (put new s)" using inv fresh by (fastforce simp: wake_inv_def stored_once_def fresh_version_def)
  moreover have "claims_ok (put new s)" using inv claim by (auto simp: wake_inv_def claims_ok_def pooled_put)
  moreover have "runs_ok (put new s)" by (rule runs_ok_mono[of s]) (use inv in \<open>auto simp: wake_inv_def\<close>)
  moreover have "named_ok (put new s)" using inv pool
    by (auto simp: wake_inv_def named_ok_def pooled_put branch_of_cong[OF put_fields(4)])
  ultimately show ?thesis by (simp add: wake_inv_def)
qed

lemma claim_inv:
  assumes inv: "wake_inv s" and "ws_claims s n = None" "pooled s n" "\<And>c. ws_clusters s n = Some c \<Longrightarrow> cl_Pool c = None"
  shows "wake_inv (s\<lparr>ws_claims := (ws_claims s)(n \<mapsto> who)\<rparr>)"
proof -
  let ?s = "s\<lparr>ws_claims := (ws_claims s)(n \<mapsto> who)\<rparr>"
  have same: "pooled ?s = pooled s" "branch_of ?s = branch_of s" by (rule pooled_cong branch_of_cong, simp)+
  have "stored_once ?s" using inv by (simp add: wake_inv_def stored_once_def)
  moreover have "claims_ok ?s" using inv assms(3,4) by (auto simp: wake_inv_def claims_ok_def same)
  moreover have "runs_ok ?s" by (rule runs_ok_mono[of s]) (use inv assms(2) in \<open>auto simp: wake_inv_def\<close>)
  moreover have "named_ok ?s" using inv assms(2,3) by (force simp: wake_inv_def named_ok_def same)
  ultimately show ?thesis by (simp add: wake_inv_def)
qed

lemma claim_by_inv:
  assumes inv: "wake_inv s" and cur: "ws_clusters s (cl_Name new) = Some cur" and "cl_Pool cur \<noteq> None" "cl_Pool new = None" "fresh_version s new"
  shows "wake_inv (claim_by who cur new (put new s)) \<and> ws_claims (claim_by who cur new (put new s)) (cl_Name new) = Some who"
proof -
  have none: "ws_claims s (cl_Name new) = None" using inv cur assms(3) unfolding wake_inv_def claims_ok_def by (metis option.exhaust)
  have "cur \<in> ws_past s" "cl_Name cur = cl_Name new" using inv cur by (auto simp: wake_inv_def stored_once_def)
  then have "pooled s (cl_Name new)" using assms(3) by (auto simp: pooled_def)
  moreover have "wake_inv (put new s)" using put_inv[OF inv assms(5)] assms(4) by simp
  ultimately show ?thesis using claim_inv[of "put new s" "cl_Name new" who] none assms(3,4) by (simp add: claim_by_def pooled_put)
qed

lemma assign_inv:
  assumes inv: "wake_inv s" and "pooled s c \<Longrightarrow> \<exists>who. ws_claims s c = Some who \<and> branch_of s who = Some b"
  shows "wake_inv (assign b c s)"
proof -
  have same: "pooled (assign b c s) = pooled s" "branch_of (assign b c s) = branch_of s"
    by (rule pooled_cong branch_of_cong, simp add: assign_def)+
  have "stored_once (assign b c s)" using inv by (simp add: wake_inv_def stored_once_def assign_def)
  moreover have "claims_ok (assign b c s)" using inv by (simp add: wake_inv_def claims_ok_def assign_def pooled_def)
  moreover have "runs_ok (assign b c s)" by (rule runs_ok_mono[of s]) (use inv in \<open>auto simp: wake_inv_def assign_def\<close>)
  moreover have "named_ok (assign b c s)" using inv assms(2) unfolding named_ok_def wake_inv_def same by (auto simp: assign_def)
  ultimately show ?thesis by (simp add: wake_inv_def)
qed

lemma drop_inv:
  assumes "wake_inv s"
  shows "wake_inv (s\<lparr>ws_clusters := (ws_clusters s)(c := None)\<rparr>)"
proof -
  let ?s = "s\<lparr>ws_clusters := (ws_clusters s)(c := None)\<rparr>"
  have same: "pooled ?s = pooled s" "branch_of ?s = branch_of s" by (rule pooled_cong branch_of_cong, simp)+
  have "runs_ok ?s" by (rule runs_ok_mono[of s]) (use assms in \<open>auto simp: wake_inv_def\<close>)
  then show ?thesis using assms unfolding wake_inv_defs same by auto
qed

lemma asleep_inv:
  assumes "wake_inv s" "x = None \<or> x = Some None"
  shows "wake_inv (s\<lparr>ws_branches := (ws_branches s)(b := x)\<rparr>)"
proof -
  let ?s = "s\<lparr>ws_branches := (ws_branches s)(b := x)\<rparr>"
  have same: "pooled ?s = pooled s" "branch_of ?s = branch_of s" by (rule pooled_cong branch_of_cong, simp)+
  have "runs_ok ?s" by (rule runs_ok_mono[of s]) (use assms(1) in \<open>auto simp: wake_inv_def\<close>)
  then show ?thesis using assms unfolding wake_inv_defs same by auto
qed

lemma named_ok_mono:
  assumes "named_ok s" "ws_named s' = ws_named s" "ws_past s' = ws_past s" "ws_claims s' = ws_claims s" "ws_branches s' = ws_branches s"
    "\<And>who b. branch_of s who = Some b \<Longrightarrow> branch_of s' who = Some b"
  shows "named_ok s'"
  using assms(1,6) unfolding named_ok_def assms(2,4,5) pooled_cong[OF assms(3)] by blast

lemma branch_of_step:
  assumes "ws_runs s ! i = (tr, p)" "branch_of s who = Some b"
  shows "branch_of (s\<lparr>ws_runs := (ws_runs s)[i := (tr @ new, p')]\<rparr>) who = Some b"
proof (cases who)
  case (Run j)
  then show ?thesis using assms run_request_append[of tr _ new]
    by (cases "j = i") (auto simp: branch_of_def nth_list_update split: if_splits)
qed (use assms in \<open>simp add: branch_of_def\<close>)

lemma run_inv:
  assumes inv: "wake_inv s" and i: "i < length (ws_runs s)" "ws_runs s ! i = (tr, Call q k)"
    and "\<And>c. claimed (tr @ [(q, r)]) c \<Longrightarrow> ws_claims s c = Some (Run i)"
    and "\<And>ns pl cs. q = ListPoolClusters ns pl \<Longrightarrow> r = RClusters cs \<Longrightarrow> set cs \<subseteq> ws_past s"
    and "\<And>b br c. q = GetBranch b \<Longrightarrow> r = RBranch br \<Longrightarrow> wb_ClusterName br = Some c \<Longrightarrow> (b, c) \<in> ws_named s"
  shows "wake_inv (s\<lparr>ws_runs := (ws_runs s)[i := (tr @ [(q, r)], k r)]\<rparr>)"
proof -
  let ?s = "s\<lparr>ws_runs := (ws_runs s)[i := (tr @ [(q, r)], k r)]\<rparr>"
  have ok: "run_ok s j (ws_runs s ! j)" if "j < length (ws_runs s)" for j
    using inv that by (simp add: wake_inv_def runs_ok_def)
  have "run_ok s i (tr @ [(q, r)], k r)"
    using ok[OF i(1)] assms(4-6) unfolding run_ok_def i(2) by fastforce
  then have "run_ok s j ((ws_runs s)[i := (tr @ [(q, r)], k r)] ! j)" if "j < length (ws_runs s)" for j
    using ok[OF that] i(1) by (cases "j = i") auto
  then have "runs_ok ?s" unfolding runs_ok_def by (auto intro: run_ok_mono[of s])
  moreover have "named_ok ?s" by (rule named_ok_mono[of s]) (use inv branch_of_step[OF i(2)] in \<open>auto simp: wake_inv_def\<close>)
  ultimately show ?thesis using inv by (simp add: wake_inv_def stored_once_def claims_ok_def pooled_def)
qed

lemma start_inv:
  assumes inv: "wake_inv s"
  shows "wake_inv (s\<lparr>ws_runs := ws_runs s @ [([], Reconcile rc ns name)]\<rparr>)"
proof -
  let ?s = "s\<lparr>ws_runs := ws_runs s @ [([], Reconcile rc ns name)]\<rparr>"
  have b: "branch_of s who = Some b \<Longrightarrow> branch_of ?s who = Some b" for who b
    by (auto simp: branch_of_def nth_append split: claimer.splits if_splits)
  have "runs_ok ?s" using inv Reconcile_guard
    by (auto simp: wake_inv_def runs_ok_def nth_append run_ok_def claimed_def less_Suc_eq)

  moreover have "named_ok ?s" by (rule named_ok_mono[of s]) (use inv b in \<open>auto simp: wake_inv_def\<close>)
  ultimately show ?thesis using inv by (simp add: wake_inv_def stored_once_def claims_ok_def pooled_def)
qed

text \<open>What a run may rely on at its next call.\<close>

lemma run_facts:
  assumes "wake_inv s" "i < length (ws_runs s)" "ws_runs s ! i = (tr, Call q k)"
  shows "may_write tr q" "\<And>c. claimed tr c \<Longrightarrow> ws_claims s c = Some (Run i)"
    "\<And>ns pl cs. (ListPoolClusters ns pl, RClusters cs) \<in> set tr \<Longrightarrow> set cs \<subseteq> ws_past s"
    "\<And>b br c. (GetBranch b, RBranch br) \<in> set tr \<Longrightarrow> wb_ClusterName br = Some c \<Longrightarrow> (b, c) \<in> ws_named s"
  using assms(1,2) unfolding wake_inv_def runs_ok_def run_ok_def by (fastforce simp: assms(3))+

lemma update_inv:
  assumes inv: "wake_inv s" and i: "i < length (ws_runs s)" "ws_runs s ! i = (tr, Call (UpdateCluster cl) k)"
    and cur: "ws_clusters s (cl_Name cl) = Some cur" "cl_ResourceVersion cur = cl_ResourceVersion cl"
    and new: "new = cl\<lparr>cl_ResourceVersion := v\<rparr>" "fresh_version s new"
  shows "wake_inv ((claim_by (Run i) cur new (put new s))\<lparr>ws_runs := (ws_runs s)[i := (tr @ [(UpdateCluster cl, r)], k r)]\<rparr>)"
proof -
  note run = run_facts[OF inv i]
  obtain cs c where c: "c \<in> set cs" "set cs \<subseteq> ws_past s" "cl_Pool c \<noteq> None" "cl = c\<lparr>cl_Pool := None\<rparr>"
    using run(1) run(3) by fastforce
  have "cur = c" using inv cur c unfolding wake_inv_def stored_once_def
    by (metis (no_types, lifting) Cluster.select_convs(1,3) Cluster.surjective Cluster.update_convs(4) subsetD)
  then have claim: "wake_inv (claim_by (Run i) cur new (put new s))"
      "ws_claims (claim_by (Run i) cur new (put new s)) (cl_Name new) = Some (Run i)"
    using claim_by_inv[OF inv, of new cur "Run i"] cur(1) new c(3,4) by simp_all
  have other: "ws_claims (claim_by (Run i) cur new (put new s)) n = ws_claims s n" if "n \<noteq> cl_Name cl" for n
    using that new(1) by (simp add: claim_by_def)
  have runs: "ws_runs (claim_by (Run i) cur new (put new s)) = ws_runs s" by (simp add: claim_by_def)
  have "ws_claims (claim_by (Run i) cur new (put new s)) d = Some (Run i)" if "claimed (tr @ [(UpdateCluster cl, r)]) d" for d
    using that run(2) other claim(2) new(1) by (cases "d = cl_Name cl") (auto simp: trace_snoc)
  then show ?thesis using run_inv[OF claim(1), of i tr "UpdateCluster cl" k r] i runs by simp
qed

lemma call_inv:
  assumes inv: "wake_inv s" and i: "i < length (ws_runs s)" "ws_runs s ! i = (tr, Call q k)" and ans: "answers i s q r s'"
  shows "wake_inv (s'\<lparr>ws_runs := (ws_runs s)[i := (tr @ [(q, r)], k r)]\<rparr>)"
  using ans
proof cases
  case (updated cl cur new v k m)
  then show ?thesis using update_inv[OF inv] i by blast
next
  case (applied kk m b c img)
  obtain wr br where w: "run_request tr = Some wr" "wr_BranchName wr = b" "(GetBranch b, RBranch br) \<in> set tr"
    "wb_ClusterName br = Some c \<or> claimed tr c"
    using run_facts(1)[OF inv i] applied(1) by auto
  have "\<exists>who. ws_claims s c = Some who \<and> branch_of s who = Some b" if "pooled s c"
  proof (cases "wb_ClusterName br = Some c")
    case True
    then show ?thesis using run_facts(4)[OF inv i w(3)] inv that by (simp add: wake_inv_def named_ok_def)
  next
    case False
    then have "ws_claims s c = Some (Run i)" using w(4) run_facts(2)[OF inv i] by blast
    moreover have "branch_of s (Run i) = Some b" using w(1,2) i by (simp add: branch_of_def)
    ultimately show ?thesis by blast
  qed
  then have "wake_inv (assign b c s)" by (rule assign_inv[OF inv])
  then show ?thesis using run_inv[of "assign b c s" i tr q k r] i run_facts(2)[OF inv i] applied(1,2)
    by (auto simp: assign_def trace_snoc)
next
  case (refused kk m)
  then show ?thesis using run_inv[OF inv i, of r] run_facts(2)[OF inv i] by (auto simp: trace_snoc answer_def)
next
  case (read_branch br b)
  then show ?thesis using run_inv[OF inv i, of r] run_facts(2)[OF inv i] by (auto simp: trace_snoc)
next
  case (listed cs ns p)
  then show ?thesis using run_inv[OF inv i, of r] run_facts(2)[OF inv i] by (auto simp: trace_snoc)
next
  case (deleted_one ns c)
  then show ?thesis using run_inv[OF drop_inv[OF inv, of c], of i tr q k r] i run_facts(2)[OF inv i] by (auto simp: trace_snoc)
next
  case (roles n cur new v ns b)
  have "cl_Name cur = n" "cur \<in> ws_past s" using roles(3) inv by (auto simp: wake_inv_def stored_once_def)
  moreover have "ws_claims s n \<noteq> None \<Longrightarrow> cl_Pool cur = None" using roles(3) inv unfolding wake_inv_def claims_ok_def by blast
  ultimately have "wake_inv (put new s)" using put_inv[OF inv roles(5)] roles(4) by (auto simp: pooled_def)
  then show ?thesis using run_inv[of "put new s" i tr q k r] i run_facts(2)[OF inv i] roles(1,2) by (auto simp: trace_snoc)
next
  case indifferent
  then show ?thesis using run_inv[OF inv i, of r] run_facts(2)[OF inv i] by (cases q) (auto simp: trace_snoc)
qed

lemma wake_step_inv:
  assumes inv: "wake_inv s" and "wake_step s s'"
  shows "wake_inv s'"
  using assms(2)
proof cases
  case (created c)
  have "ws_claims s (cl_Name c) = None" using inv created(2) unfolding wake_inv_def claims_ok_def pooled_def by blast
  then show ?thesis using put_inv[OF inv, of c] created by (simp add: fresh_version_def)
next
  case (changed new cur)
  have "cl_Name cur = cl_Name new" "cur \<in> ws_past s" using changed(2) inv by (auto simp: wake_inv_def stored_once_def)
  moreover have "ws_claims s (cl_Name new) \<noteq> None \<Longrightarrow> cl_Pool cur = None" using changed(2) inv unfolding wake_inv_def claims_ok_def by blast
  ultimately show ?thesis using put_inv[OF inv changed(4)] changed(1,3) by (auto simp: pooled_def)
next
  case (given c b)
  then show ?thesis using assign_inv[OF inv, of c b] by (auto simp: branch_of_def)
qed (use inv in \<open>auto intro: start_inv call_inv drop_inv asleep_inv claim_by_inv[THEN conjunct1]\<close>)

lemma wake_reach_inv: "wake_reach s \<Longrightarrow> wake_inv s"
proof (induction rule: wake_reach.induct)
  case init
  then show ?case by (simp add: ws_init_def wake_inv_defs runs_ok_def pooled_def)
qed (rule wake_step_inv)

text \<open>C10. Under every interleaving of reconciliations with one another and with other actors, with stale reads and with writes
  whose answer was lost, no two branches name the same cluster that came from a pool; and two reconciliations never both
  hold a claim on one cluster.\<close>

theorem no_shared_cluster:
  assumes "wake_reach s"
  shows "(ws_branches s b1 = Some (Some c) \<and> ws_branches s b2 = Some (Some c) \<and> pooled s c \<longrightarrow> b1 = b2) \<and>
    (i < length (ws_runs s) \<and> j < length (ws_runs s) \<and> claimed (fst (ws_runs s ! i)) c \<and> claimed (fst (ws_runs s ! j)) c \<longrightarrow> i = j)"
proof -
  note inv = wake_reach_inv[OF assms]
  have "\<exists>who. ws_claims s c = Some who \<and> branch_of s who = Some b" if "ws_branches s b = Some (Some c)" "pooled s c" for b
    using inv that unfolding wake_inv_def named_ok_def by blast
  then have "b1 = b2" if "ws_branches s b1 = Some (Some c)" "ws_branches s b2 = Some (Some c)" "pooled s c"
    using that by (metis option.inject)
  moreover have "ws_claims s c = Some (Run i)" if "i < length (ws_runs s)" "claimed (fst (ws_runs s ! i)) c" for i
    using inv that by (simp add: wake_inv_def runs_ok_def run_ok_def)
  ultimately show ?thesis by (metis claimer.inject(1) option.inject)
qed

section \<open>Two runs compete\<close>

fun residual :: "('q, 'r, 'a) prog \<Rightarrow> 'r list \<Rightarrow> ('q, 'r, 'a) prog" where
  "residual (Ret a) rs = Ret a"
| "residual (Call q k) [] = Call q k"
| "residual (Call q k) (r # rs) = residual (k r) rs"

definition moved :: "wake_sys \<Rightarrow> nat \<Rightarrow> (kube_query, reply) trace \<times> wake_result wprog \<Rightarrow> wake_sys" where
  "moved s i x = s\<lparr>ws_runs := (ws_runs s)[i := x]\<rparr>"

text \<open>A run makes calls that leave the system as it is.\<close>

fun inert :: "Cluster set \<Rightarrow> kube_query \<times> reply \<Rightarrow> bool" where
  "inert past (ListPoolClusters ns p, RClusters cs) = (set cs \<subseteq> past)"
| "inert past (GetBranch b, RBranch br) = (wb_ClusterName br = None)"
| "inert past (q, r) = (\<not> touches q)"

lemma inert_answers: "inert (ws_past s) (q, r) \<Longrightarrow> answers i s q r s"
  by (cases "(ws_past s, q, r)" rule: inert.cases) (auto intro: answers.intros)

lemma moved_fields [simp]: "ws_past (moved s i x) = ws_past s" "ws_clusters (moved s i x) = ws_clusters s" "ws_claims (moved s i x) = ws_claims s"
  "length (ws_runs (moved s i x)) = length (ws_runs s)" "ws_runs (moved s i x) = (ws_runs s)[i := x]" "moved (moved s i x) i y = moved s i y"
  by (simp_all add: moved_def)

lemma play:
  assumes "wake_reach (moved s i (tr, p))" "i < length (ws_runs s)" "list_all (inert (ws_past s)) (fst (follow p rs))"
  shows "wake_reach (moved s i (tr @ fst (follow p rs), residual p rs))"
  using assms(1,3)
proof (induction p rs arbitrary: tr rule: follow.induct)
  case (3 q k r rs)
  let ?s = "moved s i (tr, Call q k)"
  have "answers i ?s q r ?s" using "3.prems"(2) by (intro inert_answers) (auto split: prod.splits)
  then have "wake_step ?s (moved ?s i (tr @ [(q, r)], k r))"
    unfolding moved_def[of ?s] using assms(2) by (intro wake_step.call) auto
  then have "wake_reach (moved s i (tr @ [(q, r)], k r))" using "3.prems"(1) wake_reach.step by fastforce
  then show ?case using "3.IH"[of "tr @ [(q, r)]"] "3.prems"(2) by (auto split: prod.splits)
qed simp_all

lemma residual_next:
  "fst (follow p (rs @ [r])) = fst (follow p rs) @ [(q, r)] \<Longrightarrow> \<exists>k. residual p rs = Call q k"
proof (induction p rs rule: follow.induct)
  case (2 q' k)
  then show ?case by (cases "k r") auto
qed (auto split: prod.splits)

definition claim_run :: "reply list" where
  "claim_run = take 10 up_to_assignment"

lemma claim_run_trace:
  "list_all (inert {pool_cluster}) (fst (follow (Reconcile demo_rc ''xata-clusters'' ''wake-b1'') claim_run)) \<and>
   fst (follow (Reconcile demo_rc ''xata-clusters'' ''wake-b1'') (claim_run @ [RCluster claimed_cluster])) =
     fst (follow (Reconcile demo_rc ''xata-clusters'' ''wake-b1'') claim_run) @
       [(UpdateCluster (pool_cluster\<lparr>cl_Pool := None\<rparr>), RCluster claimed_cluster)]"
  by (simp add: claim_run_def up_to_assignment_def follow_code follow_data demo_rc_def)

text \<open>Two reconciliations of one request have both drawn the same cluster of the pool; the first one gets it.\<close>

theorem no_shared_cluster_witness:
  "\<exists>s. wake_reach s \<and> length (ws_runs s) = 2 \<and> claimed (fst (ws_runs s ! 0)) ''c7'' \<and> \<not> claimed (fst (ws_runs s ! 1)) ''c7''"
proof -
  let ?p = "Reconcile demo_rc ''xata-clusters'' ''wake-b1''"
  let ?tr = "fst (follow ?p claim_run)"
  let ?x = "(?tr, residual ?p claim_run)"
  define s where "s = (put pool_cluster ws_init)\<lparr>ws_runs := [([], ?p), ([], ?p)]\<rparr>"
  have fields: "ws_past s = {pool_cluster}" "ws_clusters s = [''c7'' \<mapsto> pool_cluster]" "length (ws_runs s) = 2"
    by (simp_all add: s_def put_def ws_init_def pool_cluster_def)
  obtain k where k: "residual ?p claim_run = Call (UpdateCluster (pool_cluster\<lparr>cl_Pool := None\<rparr>)) k"
    using residual_next[OF claim_run_trace[THEN conjunct2]] by blast
  have "wake_reach (put pool_cluster ws_init)"
    by (rule wake_reach.step[OF wake_reach.init wake_step.created]) (simp_all add: ws_init_def)
  then have "wake_reach s"
    using wake_reach.step[OF wake_reach.step[OF _ wake_step.start] wake_step.start, of "put pool_cluster ws_init" demo_rc "''xata-clusters''" "''wake-b1''" demo_rc "''xata-clusters''" "''wake-b1''"]
    by (simp add: s_def ws_init_def)
  moreover have "moved s 0 ([], ?p) = s" by (simp add: s_def moved_def)
  ultimately have "wake_reach (moved s 0 ?x)" using play[of s 0 "[]" ?p claim_run] claim_run_trace fields by simp
  moreover have "moved (moved s 0 ?x) 1 ([], ?p) = moved s 0 ?x" by (simp add: s_def moved_def)
  ultimately have both: "wake_reach (moved (moved s 0 ?x) 1 ?x)"
    using play[of "moved s 0 ?x" 1 "[]" ?p claim_run] claim_run_trace fields by simp
  let ?s = "moved (moved s 0 ?x) 1 ?x" and ?cl = "pool_cluster\<lparr>cl_Pool := None\<rparr>"
  have "answers 0 ?s (UpdateCluster ?cl) (RCluster claimed_cluster) (claim_by (Run 0) pool_cluster claimed_cluster (put claimed_cluster ?s))"
    by (rule answers.updated[where v = "''11''"]) (auto simp: fields claimed_cluster_def fresh_version_def pool_cluster_def)
  then have "wake_step ?s ((claim_by (Run 0) pool_cluster claimed_cluster (put claimed_cluster ?s))
      \<lparr>ws_runs := (ws_runs ?s)[0 := (?tr @ [(UpdateCluster ?cl, RCluster claimed_cluster)], k (RCluster claimed_cluster))]\<rparr>)"
    using fields k by (intro wake_step.call) auto
  then obtain s' where s': "wake_reach s'" "ws_runs s' = (ws_runs ?s)[0 := (?tr @ [(UpdateCluster ?cl, RCluster claimed_cluster)], k (RCluster claimed_cluster))]"
    using wake_reach.step[OF both] by fastforce
  have "claimed (fst (ws_runs s' ! 0)) ''c7''"
    using fields by (auto simp: s'(2) trace_snoc answer_def the_cluster_def claimed_cluster_def pool_cluster_def)
  then show ?thesis using no_shared_cluster[OF s'(1), of _ "''c7''" _ 0 1] fields s'
    by (intro exI[of _ s']) auto
qed

end
