(* ===== verification/Roles.thy ===== *)
theory Roles
  imports Api_Prog Go_Float "HOL-Library.AList"
begin

text \<open>
  The roles of the members of an organization (\<open>services/auth/roles\<close>), carried by reserved groups in Keycloak.  Every
  method is a program of calls to Keycloak (\<open>Api_Prog\<close>), all for one organization; Keycloak may answer anything, and an
  answer that does not fit its call counts as an error.  The calls that \<open>read\<close> makes at the same time are made in an order
  that the call \<open>Pick\<close> chooses; the feature flag for the viewer role is the call \<open>ViewerFlag\<close>.  A Go map that is
  iterated over is an association list.  Names of groups and addresses are ASCII text.
\<close>

section \<open>Roles\<close>

type_synonym Role = string

definition Admin :: Role where "Admin = ''admin''"
definition Editor :: Role where "Editor = ''editor''"
definition Viewer :: Role where "Viewer = ''viewer''"

record Definition =
  df_Role :: Role
  df_Name :: string
  df_Description :: string

text \<open>Ordered from most to least privileged.\<close>

definition All :: "Definition list" where
  "All = [\<lparr>df_Role = Admin, df_Name = ''Admin'', df_Description = ''Full access, including billing, members, roles and deleting the organization''\<rparr>,
          \<lparr>df_Role = Editor, df_Name = ''Editor'', df_Description = ''Create and change projects, branches and their data''\<rparr>,
          \<lparr>df_Role = Viewer, df_Name = ''Viewer'', df_Description = ''Read-only access to projects and branches''\<rparr>]"

definition groupName :: "Role \<Rightarrow> string" where
  "groupName r = (case find (\<lambda>d. df_Role d = r) All of Some d \<Rightarrow> df_Name d | None \<Rightarrow> '''')"

definition role_Valid :: "Role \<Rightarrow> bool" where
  "role_Valid r \<longleftrightarrow> groupName r \<noteq> ''''"

definition Grantable :: "Role \<Rightarrow> bool \<Rightarrow> bool" where
  "Grantable r viewer \<longleftrightarrow> role_Valid r \<and> (viewer \<or> r \<noteq> Viewer)"

definition Reported :: "Role \<Rightarrow> bool \<Rightarrow> Role" where
  "Reported r viewer = (if r = Viewer \<and> \<not> viewer then Editor else r)"

definition Offered :: "bool \<Rightarrow> Definition list" where
  "Offered viewer = filter (\<lambda>d. Grantable (df_Role d) viewer) All"

definition Unassigned :: "bool \<Rightarrow> Role" where
  "Unassigned viewer = df_Role (last (Offered viewer))"

definition EqualFold :: "string \<Rightarrow> string \<Rightarrow> bool" where
  "EqualFold s t \<longleftrightarrow> map lower s = map lower t"

definition roleOfGroup :: "string \<Rightarrow> Role option" where
  "roleOfGroup name = map_option df_Role (find (\<lambda>d. EqualFold name (df_Name d)) All)"

text \<open>The index of a role in \<open>All\<close>, or -1.\<close>

definition rank :: "Role \<Rightarrow> int" where
  "rank r = (let n = length (takeWhile (\<lambda>d. df_Role d \<noteq> r) All) in if n < length All then int n else -1)"

section \<open>Calls and errors\<close>

record Group =
  gr_ID :: string
  gr_Name :: string
  gr_Path :: string
  gr_Description :: string
  gr_Attributes :: "string \<rightharpoonup> string list"

record OrganizationMember =
  om_ID :: string
  om_Email :: string
  om_Name :: string

datatype kc_err = ErrUserNotFound | ErrGroupAlreadyExists | ErrGroupNotFound | KcFailed string

datatype kc_query =
    ListGroups
  | ListMembers
  | ListGroupMembers string
  | ListMemberGroups string
  | CreateGroup string
  | AddGroupMember string string
  | RemoveGroupMember string string
  | GetGroup string
  | PutGroup string string string "string \<rightharpoonup> string list"
  | ViewerFlag
  | Pick nat

datatype kc_reply =
    KErr kc_err
  | KDone
  | KGroups "Group list"
  | KMembers "OrganizationMember list"
  | KGroup Group
  | KBool bool
  | KPick nat

datatype role_err =
    ErrUnknownRole string
  | ErrRoleNotGrantable string
  | ErrEmailTooLong
  | ErrLastAdmin
  | ErrNotAdmin
  | ErrUserNotOrganizationMember string
  | KcError string kc_err
  | Join "role_err list"

definition role_StatusCode :: "role_err \<Rightarrow> nat option" where
  "role_StatusCode e = (case e of
     ErrUnknownRole _ \<Rightarrow> Some 400 | ErrRoleNotGrantable _ \<Rightarrow> Some 400 | ErrEmailTooLong \<Rightarrow> Some 400
   | ErrLastAdmin \<Rightarrow> Some 409 | ErrNotAdmin \<Rightarrow> Some 403 | ErrUserNotOrganizationMember _ \<Rightarrow> Some 400
   | _ \<Rightarrow> None)"

type_synonym 'a rprog = "(kc_query, kc_reply, 'a) prog"

definition kc_answer :: "(kc_reply \<Rightarrow> 'a option) \<Rightarrow> kc_reply \<Rightarrow> kc_err + 'a" where
  "kc_answer get r = (case r of KErr e \<Rightarrow> Inl e | _ \<Rightarrow> (case get r of Some a \<Rightarrow> Inr a | None \<Rightarrow> Inl (KcFailed ''unexpected answer'')))"

definition ask_kc :: "string \<Rightarrow> kc_query \<Rightarrow> (kc_reply \<Rightarrow> 'a option) \<Rightarrow> (role_err + 'a) rprog" where
  "ask_kc txt q get = Call q (\<lambda>r. Ret (case kc_answer get r of Inl e \<Rightarrow> Inl (KcError txt e) | Inr a \<Rightarrow> Inr a))"

definition done_of :: "kc_reply \<Rightarrow> unit option" where
  "done_of r = (case r of KDone \<Rightarrow> Some () | _ \<Rightarrow> None)"

definition groups_of :: "kc_reply \<Rightarrow> Group list option" where
  "groups_of r = (case r of KGroups gs \<Rightarrow> Some gs | _ \<Rightarrow> None)"

definition members_of :: "kc_reply \<Rightarrow> OrganizationMember list option" where
  "members_of r = (case r of KMembers ms \<Rightarrow> Some ms | _ \<Rightarrow> None)"

definition group_of :: "kc_reply \<Rightarrow> Group option" where
  "group_of r = (case r of KGroup g \<Rightarrow> Some g | _ \<Rightarrow> None)"

definition flag_of :: "kc_reply \<Rightarrow> bool" where
  "flag_of r = (case r of KBool b \<Rightarrow> b | _ \<Rightarrow> False)"

section \<open>Reading the roles\<close>

record roleGroup =
  ro_id :: string
  ro_role :: Role
  ro_members :: "OrganizationMember list"

definition reserved :: "Group list \<Rightarrow> roleGroup list" where
  "reserved groups = List.map_filter (\<lambda>g. map_option (\<lambda>role. \<lparr>ro_id = gr_ID g, ro_role = role, ro_members = []\<rparr>) (roleOfGroup (gr_Name g))) groups"

text \<open>Task 0 lists the members, task \<open>Suc i\<close> the members of role group \<open>i\<close>; \<open>gather\<close> runs the pending ones.\<close>

definition list_task :: "roleGroup list \<Rightarrow> nat \<Rightarrow> (role_err + OrganizationMember list) rprog" where
  "list_task roleGroups t = (case t of
     0 \<Rightarrow> ask_kc ''list organization members'' ListMembers members_of
   | Suc i \<Rightarrow> ask_kc ''list role members'' (ListGroupMembers (ro_id (roleGroups ! i))) members_of)"

fun gather :: "nat \<Rightarrow> roleGroup list \<Rightarrow> nat list \<Rightarrow> (nat \<Rightarrow> OrganizationMember list) \<Rightarrow> (role_err + (nat \<Rightarrow> OrganizationMember list)) rprog" where
  "gather 0 roleGroups pending got = Ret (Inr got)"
| "gather (Suc n) roleGroups pending got = Call (Pick (length pending)) (\<lambda>r.
     let i = (case r of KPick i \<Rightarrow> i | _ \<Rightarrow> 0) mod length pending; t = pending ! i in
     try_p (list_task roleGroups t) (\<lambda>ms. gather n roleGroups (take i pending @ drop (Suc i) pending) (got(t := ms))))"

definition with_members :: "OrganizationMember list \<Rightarrow> roleGroup list \<Rightarrow> (nat \<Rightarrow> OrganizationMember list) \<Rightarrow> roleGroup list" where
  "with_members members roleGroups got = map (\<lambda>(i, g). g\<lparr>ro_members := filter (\<lambda>m. om_ID m \<in> om_ID ` set members) (got (Suc i))\<rparr>)
     (enumerate 0 roleGroups)"

definition read_roles :: "(role_err + OrganizationMember list \<times> roleGroup list) rprog" where
  "read_roles = try_p (ask_kc ''list groups'' ListGroups groups_of) (\<lambda>groups.
     let roleGroups = reserved groups in
     try_p (gather (Suc (length roleGroups)) roleGroups [0..<Suc (length roleGroups)] (\<lambda>_. [])) (\<lambda>got.
       Ret (Inr (got 0, with_members (got 0) roleGroups got))))"

text \<open>A member in several reserved groups holds the most privileged.\<close>

definition hold :: "Role \<Rightarrow> OrganizationMember \<Rightarrow> (string \<times> int) list \<times> (string \<times> Role) list \<Rightarrow> (string \<times> int) list \<times> (string \<times> Role) list" where
  "hold role m st = (case st of (held, byUser) \<Rightarrow>
     if map_of held (om_ID m) = None \<or> rank role < the (map_of held (om_ID m))
     then (AList.update (om_ID m) (rank role) held, AList.update (om_ID m) role byUser) else st)"

definition rolesByUser :: "OrganizationMember list \<Rightarrow> roleGroup list \<Rightarrow> Role \<Rightarrow> (string \<times> Role) list" where
  "rolesByUser members roleGroups unassigned =
     snd (fold (\<lambda>g st. fold (hold (ro_role g)) (ro_members g) st) roleGroups
       ([], fold (\<lambda>m. AList.update (om_ID m) unassigned) members []))"

definition countRole :: "(string \<times> Role) list \<Rightarrow> Role \<Rightarrow> nat" where
  "countRole byUser role = length (filter (\<lambda>(_, held). held = role) byUser)"

definition roles_List :: "(role_err + OrganizationMember list \<times> (string \<times> Role) list) rprog" where
  "roles_List = try_p read_roles (\<lambda>(members, roleGroups). Call ViewerFlag (\<lambda>v.
     Ret (Inr (members, rolesByUser members roleGroups (Unassigned (flag_of v))))))"

definition Members :: "(role_err + (string \<times> Role) list) rprog" where
  "Members = try_p roles_List (\<lambda>(_, byUser). Ret (Inr byUser))"

record Audit =
  au_Members :: nat
  au_MissingRoles :: "Role list"
  au_DuplicateRoles :: "Role list"
  au_Admins :: nat
  au_Unassigned :: "string list"

definition audit_of :: "OrganizationMember list \<Rightarrow> roleGroup list \<Rightarrow> Audit" where
  "audit_of members roleGroups =
     (let groupsOf = (\<lambda>role. length (filter (\<lambda>g. ro_role g = role) roleGroups));
          assigned = (\<Union>g\<in>set roleGroups. om_ID ` set (ro_members g));
          admins = remdups (concat (map (\<lambda>g. map om_ID (ro_members g)) (filter (\<lambda>g. ro_role g = Admin) roleGroups)))
      in \<lparr>au_Members = length members,
          au_MissingRoles = map df_Role (filter (\<lambda>d. groupsOf (df_Role d) = 0) All),
          au_DuplicateRoles = map df_Role (filter (\<lambda>d. groupsOf (df_Role d) > 1) All),
          au_Admins = length admins,
          au_Unassigned = map om_ID (filter (\<lambda>m. om_ID m \<notin> assigned) members)\<rparr>)"

definition roles_Audit :: "(role_err + Audit) rprog" where
  "roles_Audit = try_p read_roles (\<lambda>(members, roleGroups). Ret (Inr (audit_of members roleGroups)))"

definition IsAdmin :: "string \<Rightarrow> (role_err + bool) rprog" where
  "IsAdmin userID = (if userID = '''' then Ret (Inr False)
     else Call (ListMemberGroups userID) (\<lambda>r. Ret (case kc_answer groups_of r of
       Inl e \<Rightarrow> if e = ErrUserNotFound then Inr False else Inl (KcError ''list member groups'' e)
     | Inr groups \<Rightarrow> Inr (\<exists>g\<in>set groups. roleOfGroup (gr_Name g) = Some Admin \<and> count_list (gr_Path g) CHR ''/'' \<le> 1))))"

section \<open>Changing the roles\<close>

definition findRoleGroup :: "roleGroup list \<Rightarrow> Role \<Rightarrow> string option" where
  "findRoleGroup roleGroups role = map_option ro_id (find (\<lambda>g. ro_role g = role) roleGroups)"

definition groupFor :: "roleGroup list \<Rightarrow> Role \<Rightarrow> (role_err + string) rprog" where
  "groupFor roleGroups role = (case findRoleGroup roleGroups role of
     Some gid \<Rightarrow> Ret (Inr gid)
   | None \<Rightarrow> Call (CreateGroup (groupName role)) (\<lambda>r. case kc_answer group_of r of
       Inr created \<Rightarrow> Ret (Inr (gr_ID created))
     | Inl err \<Rightarrow> if err \<noteq> ErrGroupAlreadyExists then Ret (Inl (KcError (''create role '' @ role) err))
         else try_p (ask_kc ''list groups'' ListGroups groups_of) (\<lambda>current. Ret (case findRoleGroup (reserved current) role of
           Some gid \<Rightarrow> Inr gid
         | None \<Rightarrow> Inl (KcError (''create role '' @ role) err)))))"

fun groups_for :: "roleGroup list \<Rightarrow> Role list \<Rightarrow> (role_err + (Role \<times> string) list) rprog" where
  "groups_for roleGroups [] = Ret (Inr [])"
| "groups_for roleGroups (role # roles) = try_p (groupFor roleGroups role) (\<lambda>gid.
     try_p (groups_for roleGroups roles) (\<lambda>ids. Ret (Inr ((role, gid) # ids))))"

definition ensureGroups :: "(role_err + (Role \<times> string) list) rprog" where
  "ensureGroups = try_p (ask_kc ''list groups'' ListGroups groups_of) (\<lambda>groups. groups_for (reserved groups) (map df_Role All))"

record Caller =
  ca_UserID :: string
  ca_OrganizationKey :: bool

text \<open>Leave the groups of the other roles.\<close>

fun clear_others :: "Role \<Rightarrow> string \<Rightarrow> roleGroup list \<Rightarrow> (role_err + unit) rprog" where
  "clear_others role userID [] = Ret (Inr ())"
| "clear_others role userID (g # gs) =
     (if ro_role g = role then clear_others role userID gs
      else try_p (ask_kc (''clear role '' @ ro_role g) (RemoveGroupMember (ro_id g) userID) done_of) (\<lambda>_. clear_others role userID gs))"

definition keepAnAdmin :: "roleGroup list \<Rightarrow> string \<Rightarrow> string \<Rightarrow> (role_err + unit) rprog" where
  "keepAnAdmin roleGroups userID demotedTo = try_p Members (\<lambda>after_change.
     if countRole after_change Admin > 0 then Ret (Inr ())
     else try_p (groupFor roleGroups Admin) (\<lambda>admin.
       try_p (ask_kc (''restore role '' @ Admin) (AddGroupMember admin userID) done_of) (\<lambda>_.
         try_p (ask_kc ''undo role change'' (RemoveGroupMember demotedTo userID) done_of) (\<lambda>_. Ret (Inl ErrLastAdmin)))))"

text \<open>Join first, so that a failure on the way grants too much rather than nothing.\<close>

definition change_role :: "roleGroup list \<Rightarrow> (string \<times> Role) list \<Rightarrow> string \<Rightarrow> Role \<Rightarrow> (role_err + unit) rprog" where
  "change_role roleGroups current userID role = try_p (groupFor roleGroups role) (\<lambda>target.
     try_p (ask_kc (''assign role '' @ role) (AddGroupMember target userID) done_of) (\<lambda>_.
       try_p (clear_others role userID roleGroups) (\<lambda>_.
         if role = Admin \<or> map_of current userID \<noteq> Some Admin then Ret (Inr ())
         else keepAnAdmin roleGroups userID target)))"

definition may_set :: "(string \<times> Role) list \<Rightarrow> string \<Rightarrow> Role \<Rightarrow> Caller \<Rightarrow> bool \<Rightarrow> role_err option" where
  "may_set current userID role caller viewer =
     (if \<not> ca_OrganizationKey caller \<and> map_of current (ca_UserID caller) \<noteq> Some Admin then Some ErrNotAdmin
      else if map_of current userID = None then Some (ErrUserNotOrganizationMember userID)
      else if \<not> Grantable role viewer then Some (ErrRoleNotGrantable role)
      else if role \<noteq> Admin \<and> map_of current userID = Some Admin \<and> countRole current Admin \<le> 1 then Some ErrLastAdmin
      else None)"

definition SetMember :: "string \<Rightarrow> Role \<Rightarrow> Caller \<Rightarrow> (role_err + unit) rprog" where
  "SetMember userID role caller =
     (if \<not> role_Valid role then Ret (Inl (ErrUnknownRole role))
      else try_p read_roles (\<lambda>(members, roleGroups). Call ViewerFlag (\<lambda>v.
        let viewer = flag_of v; current = rolesByUser members roleGroups (Unassigned viewer) in
        (case may_set current userID role caller viewer of
           Some e \<Rightarrow> Ret (Inl e)
         | None \<Rightarrow> change_role roleGroups current userID role))))"

fun grant_admins :: "string \<Rightarrow> string list \<Rightarrow> role_err list \<Rightarrow> role_err list rprog" where
  "grant_admins admin [] errs = Ret errs"
| "grant_admins admin (uid # uids) errs =
     (if uid = '''' then grant_admins admin uids errs
      else bind_p (ask_kc (''grant admin '' @ uid) (AddGroupMember admin uid) done_of) (\<lambda>x.
        grant_admins admin uids (case x of Inl e \<Rightarrow> errs @ [e] | Inr _ \<Rightarrow> errs)))"

definition joined :: "role_err list \<Rightarrow> role_err + unit" where
  "joined errs = (if errs = [] then Inr () else Inl (Join errs))"

definition AddAdmins :: "string list \<Rightarrow> (role_err + unit) rprog" where
  "AddAdmins userIDs = try_p ensureGroups (\<lambda>groups.
     bind_p (grant_admins (case map_of groups Admin of Some gid \<Rightarrow> gid | None \<Rightarrow> '''') userIDs []) (\<lambda>errs. Ret (joined errs)))"

definition CheckOrganizationMemberRemovable :: "string \<Rightarrow> (role_err + unit) rprog" where
  "CheckOrganizationMemberRemovable userID = try_p Members (\<lambda>current.
     Ret (if map_of current userID = Some Admin \<and> countRole current Admin \<le> 1 then Inl ErrLastAdmin else Inr ()))"

fun leave_groups :: "string \<Rightarrow> Group list \<Rightarrow> role_err list \<Rightarrow> role_err list rprog" where
  "leave_groups userID [] errs = Ret errs"
| "leave_groups userID (g # gs) errs =
     (if roleOfGroup (gr_Name g) = None then leave_groups userID gs errs
      else bind_p (ask_kc (''clear role '' @ gr_Name g) (RemoveGroupMember (gr_ID g) userID) done_of) (\<lambda>x.
        leave_groups userID gs (case x of Inl e \<Rightarrow> errs @ [e] | Inr _ \<Rightarrow> errs)))"

definition RemoveMemberFromAllRoles :: "string \<Rightarrow> (role_err + unit) rprog" where
  "RemoveMemberFromAllRoles userID = try_p (ask_kc ''list groups'' ListGroups groups_of) (\<lambda>groups.
     bind_p (leave_groups userID groups []) (\<lambda>errs. Ret (joined errs)))"

section \<open>What the roles are\<close>

lemma role_constants [simp]:
  "Admin \<noteq> Editor" "Editor \<noteq> Admin" "Admin \<noteq> Viewer" "Viewer \<noteq> Admin" "Editor \<noteq> Viewer" "Viewer \<noteq> Editor"
  "rank Admin = 0" "rank Editor = 1" "rank Viewer = 2" "role_Valid Admin" "role_Valid Editor" "role_Valid Viewer"
  by code_simp+

lemma role_Valid_iff: "role_Valid r \<longleftrightarrow> r \<in> {Admin, Editor, Viewer}"
  by (auto simp: role_Valid_def groupName_def All_def split: if_splits)

lemma roleOfGroup_valid: "roleOfGroup n = Some r \<Longrightarrow> r \<in> {Admin, Editor, Viewer}"
  by (auto simp: roleOfGroup_def All_def split: if_splits)

lemma roleOfGroup_groupName: "role_Valid r \<Longrightarrow> roleOfGroup (groupName r) = Some r"
proof -
  have "roleOfGroup (groupName Admin) = Some Admin" "roleOfGroup (groupName Editor) = Some Editor" "roleOfGroup (groupName Viewer) = Some Viewer"
    by code_simp+
  then show "role_Valid r \<Longrightarrow> roleOfGroup (groupName r) = Some r" by (auto simp: role_Valid_iff)
qed

text \<open>The most privileged of the roles in a set.\<close>

definition top_role :: "(Role \<Rightarrow> bool) \<Rightarrow> Role option" where
  "top_role P = (if P Admin then Some Admin else if P Editor then Some Editor else if P Viewer then Some Viewer else None)"

lemma top_role_Admin [simp]: "top_role P = Some Admin \<longleftrightarrow> P Admin"
  by (auto simp: top_role_def)

lemma fold_hold:
  assumes "\<forall>(r, m)\<in>set ps. r \<in> {Admin, Editor, Viewer}"
  shows "map_of (fst (fold (\<lambda>(r, m). hold r m) ps ([], init))) u = map_option rank (top_role (\<lambda>r. \<exists>m. (r, m) \<in> set ps \<and> om_ID m = u)) \<and>
    map_of (snd (fold (\<lambda>(r, m). hold r m) ps ([], init))) u =
      (case top_role (\<lambda>r. \<exists>m. (r, m) \<in> set ps \<and> om_ID m = u) of Some r \<Rightarrow> Some r | None \<Rightarrow> map_of init u)"
  using assms
proof (induction ps rule: rev_induct)
  case Nil
  then show ?case by (simp add: top_role_def)
next
  case (snoc x ps)
  obtain r m where x: "x = (r, m)" by (cases x)
  define st where "st = fold (\<lambda>(r, m). hold r m) ps ([], init)"
  have r: "r = Admin \<or> r = Editor \<or> r = Viewer" using snoc.prems x by auto
  have IH: "map_of (fst st) u = map_option rank (top_role (\<lambda>r. \<exists>m. (r, m) \<in> set ps \<and> om_ID m = u))"
    "map_of (snd st) u = (case top_role (\<lambda>r. \<exists>m. (r, m) \<in> set ps \<and> om_ID m = u) of Some r \<Rightarrow> Some r | None \<Rightarrow> map_of init u)"
    using snoc unfolding st_def by auto
  have step: "fold (\<lambda>(r, m). hold r m) (ps @ [x]) ([], init) = hold r m st" by (simp add: st_def x)
  show ?case
  proof (cases "om_ID m = u")
    case False
    then have "map_of (fst (hold r m st)) u = map_of (fst st) u" "map_of (snd (hold r m st)) u = map_of (snd st) u"
      by (auto simp: hold_def update_conv split: prod.splits)
    moreover have "top_role (\<lambda>r. \<exists>m. (r, m) \<in> set (ps @ [x]) \<and> om_ID m = u) = top_role (\<lambda>r. \<exists>m. (r, m) \<in> set ps \<and> om_ID m = u)"
      using False x by (auto simp: top_role_def)
    ultimately show ?thesis using IH step by simp
  next
    case True
    define P where "P r = (\<exists>m. (r, m) \<in> set ps \<and> om_ID m = u)" for r
    have new: "(\<lambda>r. \<exists>m. (r, m) \<in> set (ps @ [x]) \<and> om_ID m = u) = (\<lambda>r'. P r' \<or> r' = r)"
      using True x by (auto simp: P_def)
    obtain held byUser where st: "st = (held, byUser)" by (cases st)
    show ?thesis using IH r True unfolding step new P_def[symmetric] st
      by (elim disjE; cases "P Admin"; cases "P Editor"; cases "P Viewer") (simp_all add: hold_def update_conv top_role_def)
  qed
qed

lemma fold_flatten: "fold (\<lambda>g st. fold (hold (ro_role g)) (ro_members g) st) gs st =
  fold (\<lambda>(r, m). hold r m) (concat (map (\<lambda>g. map (Pair (ro_role g)) (ro_members g)) gs)) st"
  by (induction gs arbitrary: st) (auto simp: fold_map comp_def)

definition in_role :: "roleGroup list \<Rightarrow> string \<Rightarrow> Role \<Rightarrow> bool" where
  "in_role roleGroups u r \<longleftrightarrow> (\<exists>g\<in>set roleGroups. ro_role g = r \<and> u \<in> om_ID ` set (ro_members g))"

lemma map_of_start: "map_of (fold (\<lambda>m. AList.update (om_ID m) un) ms init) u = (if u \<in> om_ID ` set ms then Some un else map_of init u)"
  by (induction ms arbitrary: init) (auto simp: update_conv)

lemma map_of_rolesByUser:
  assumes "\<forall>g\<in>set gs. ro_role g \<in> {Admin, Editor, Viewer}"
  shows "map_of (rolesByUser ms gs un) u = (case top_role (in_role gs u) of Some r \<Rightarrow> Some r
    | None \<Rightarrow> if u \<in> om_ID ` set ms then Some un else None)"
proof -
  let ?ps = "concat (map (\<lambda>g. map (Pair (ro_role g)) (ro_members g)) gs)"
  have "\<forall>(r, m)\<in>set ?ps. r \<in> {Admin, Editor, Viewer}" using assms by fastforce
  moreover have "(\<lambda>r. \<exists>m. (r, m) \<in> set ?ps \<and> om_ID m = u) = in_role gs u" by (fastforce simp: in_role_def fun_eq_iff)
  ultimately show ?thesis using fold_hold[of ?ps "fold (\<lambda>m. AList.update (om_ID m) un) ms []" u]
    by (simp add: rolesByUser_def fold_flatten map_of_start split: option.splits)
qed

lemma distinct_hold: "distinct (map fst (snd st)) \<Longrightarrow> distinct (map fst (snd (hold r m st)))"
  by (auto simp: hold_def distinct_update split: prod.splits)

lemma distinct_start: "distinct (map fst init) \<Longrightarrow> distinct (map fst (fold (\<lambda>m. AList.update (om_ID m) un) ms init))"
  by (induction ms arbitrary: init) (auto simp: distinct_update)

lemma distinct_rolesByUser: "distinct (map fst (rolesByUser ms gs un))"
proof -
  have "distinct (map fst (snd (fold (\<lambda>(r, m). hold r m) ps st)))" if "distinct (map fst (snd st))" for ps st
    using that
  proof (induction ps arbitrary: st)
    case (Cons x ps)
    then show ?case using distinct_hold by (cases x) simp
  qed simp
  then show ?thesis by (simp add: rolesByUser_def fold_flatten distinct_start)
qed

text \<open>The number of members with a role.\<close>

lemma countRole_card: "distinct (map fst xs) \<Longrightarrow> countRole xs r = card {u. map_of xs u = Some r}"
proof -
  assume d: "distinct (map fst xs)"
  have "{u. map_of xs u = Some r} = fst ` set (filter (\<lambda>(_, h). h = r) xs)"
    using d by (force simp: map_of_eq_Some_iff)
  moreover have "distinct (map fst (filter (\<lambda>(_, h). h = r) xs))" using d by (simp add: distinct_map_filter)
  ultimately show ?thesis using distinct_card by (fastforce simp: countRole_def)
qed

section \<open>One caller at a time\<close>

text \<open>An organization in Keycloak: its groups and their members, its members, the directory of users and the flag.  A user who
  left the organization stays in its groups.  Keycloak has no two groups of one name; names differ when their case does.\<close>

record kc =
  kc_groups :: "Group list"
  kc_in :: "string \<Rightarrow> string list"
  kc_members :: "string list"
  kc_user :: "string \<Rightarrow> OrganizationMember"
  kc_viewer :: bool

definition fresh_id :: "Group list \<Rightarrow> string" where
  "fresh_id gs = CHR ''g'' # concat (map gr_ID gs)"

definition new_group :: "string \<Rightarrow> string \<Rightarrow> Group" where
  "new_group gid name = \<lparr>gr_ID = gid, gr_Name = name, gr_Path = CHR ''/'' # name, gr_Description = '''', gr_Attributes = Map.empty\<rparr>"

definition create :: "string \<Rightarrow> string \<Rightarrow> kc \<Rightarrow> kc" where
  "create gid name s = s\<lparr>kc_groups := kc_groups s @ [new_group gid name], kc_in := (kc_in s)(gid := [])\<rparr>"

definition enter :: "string \<Rightarrow> string \<Rightarrow> kc \<Rightarrow> kc" where
  "enter gid u s = s\<lparr>kc_in := (kc_in s)(gid := List.insert u (kc_in s gid))\<rparr>"

definition quit :: "string \<Rightarrow> string \<Rightarrow> kc \<Rightarrow> kc" where
  "quit gid u s = s\<lparr>kc_in := (kc_in s)(gid := removeAll u (kc_in s gid))\<rparr>"

definition put_group :: "string \<Rightarrow> string \<Rightarrow> string \<Rightarrow> (string \<rightharpoonup> string list) \<Rightarrow> kc \<Rightarrow> kc" where
  "put_group gid name desc attrs s = s\<lparr>kc_groups := map (\<lambda>g. if gr_ID g = gid then g\<lparr>gr_Name := name, gr_Description := desc, gr_Attributes := attrs\<rparr> else g) (kc_groups s)\<rparr>"

fun serve :: "kc_query \<Rightarrow> kc \<Rightarrow> kc_reply \<times> kc" where
  "serve ListGroups s = (KGroups (kc_groups s), s)"
| "serve ListMembers s = (KMembers (map (kc_user s) (kc_members s)), s)"
| "serve (ListGroupMembers gid) s = (if gid \<in> gr_ID ` set (kc_groups s) then KMembers (map (kc_user s) (kc_in s gid)) else KErr ErrGroupNotFound, s)"
| "serve (ListMemberGroups u) s = (if u \<in> set (kc_members s) then KGroups (filter (\<lambda>g. u \<in> set (kc_in s (gr_ID g))) (kc_groups s)) else KErr ErrUserNotFound, s)"
| "serve (CreateGroup name) s = (if name \<in> gr_Name ` set (kc_groups s) then (KErr ErrGroupAlreadyExists, s)
     else (KGroup (new_group (fresh_id (kc_groups s)) name), create (fresh_id (kc_groups s)) name s))"
| "serve (AddGroupMember gid u) s = (if gid \<in> gr_ID ` set (kc_groups s) then (KDone, enter gid u s) else (KErr ErrGroupNotFound, s))"
| "serve (RemoveGroupMember gid u) s = (KDone, quit gid u s)"
| "serve (GetGroup gid) s = (case find (\<lambda>g. gr_ID g = gid) (kc_groups s) of Some g \<Rightarrow> KGroup g | None \<Rightarrow> KErr ErrGroupNotFound, s)"
| "serve (PutGroup gid name desc attrs) s = (if gid \<in> gr_ID ` set (kc_groups s) then (KDone, put_group gid name desc attrs s) else (KErr ErrGroupNotFound, s))"
| "serve ViewerFlag s = (KBool (kc_viewer s), s)"
| "serve (Pick n) s = (KPick 0, s)"

text \<open>A program alone with Keycloak, for every choice of the order of concurrent reads.\<close>

primrec run_kc :: "'a rprog \<Rightarrow> nat list \<Rightarrow> kc \<Rightarrow> 'a \<times> nat list \<times> kc" where
  "run_kc (Ret a) picks s = (a, picks, s)"
| "run_kc (Call q k) picks s = (case q of
     Pick n \<Rightarrow> (case picks of [] \<Rightarrow> run_kc (k (KPick 0)) [] s | i # is \<Rightarrow> run_kc (k (KPick i)) is s)
   | _ \<Rightarrow> (case serve q s of (r, s') \<Rightarrow> run_kc (k r) picks s'))"

definition kc_ok :: "kc \<Rightarrow> bool" where
  "kc_ok s \<longleftrightarrow> distinct (map gr_ID (kc_groups s)) \<and> (\<forall>u. om_ID (kc_user s u) = u)"

text \<open>The role of every member, said without reference to the code: the most privileged of the reserved groups a member is
  in, whatever the case of their names.\<close>

definition in_group :: "kc \<Rightarrow> string \<Rightarrow> Role \<Rightarrow> bool" where
  "in_group s u r \<longleftrightarrow> (\<exists>g\<in>set (kc_groups s). roleOfGroup (gr_Name g) = Some r \<and> u \<in> set (kc_in s (gr_ID g)))"

definition role_of :: "kc \<Rightarrow> string \<Rightarrow> Role option" where
  "role_of s u = (if u \<notin> set (kc_members s) then None
     else case top_role (in_group s u) of Some r \<Rightarrow> Some r | None \<Rightarrow> Some (Unassigned (kc_viewer s)))"

lemma run_kc_bind: "run_kc (bind_p p f) picks s = (case run_kc p picks s of (a, picks', s') \<Rightarrow> run_kc (f a) picks' s')"
  by (induction p arbitrary: picks s) (auto split: kc_query.splits list.splits prod.splits)

lemma run_kc_try: "run_kc (try_p p f) picks s = (case run_kc p picks s of
    (Inl e, picks', s') \<Rightarrow> (Inl e, picks', s') | (Inr a, picks', s') \<Rightarrow> run_kc (f a) picks' s')"
  by (auto simp: try_p_def run_kc_bind split: prod.splits sum.splits)

lemma fresh_id_new: "g \<in> set gs \<Longrightarrow> gr_ID g \<noteq> fresh_id gs"
proof
  assume g: "g \<in> set gs" and eq: "gr_ID g = fresh_id gs"
  have "length (gr_ID g) \<le> length (concat (map gr_ID gs))"
    using g by (induction gs) auto
  then show False using eq by (simp add: fresh_id_def)
qed

definition task_result :: "kc \<Rightarrow> roleGroup list \<Rightarrow> nat \<Rightarrow> OrganizationMember list" where
  "task_result s gs t = (case t of 0 \<Rightarrow> map (kc_user s) (kc_members s) | Suc i \<Rightarrow> map (kc_user s) (kc_in s (ro_id (gs ! i))))"

lemma run_list_task:
  assumes "t \<le> length gs" "\<forall>g\<in>set gs. ro_id g \<in> gr_ID ` set (kc_groups s)"
  shows "run_kc (list_task gs t) picks s = (Inr (task_result s gs t), picks, s)"
  using assms by (auto simp: list_task_def ask_kc_def kc_answer_def members_of_def task_result_def split: nat.splits)

lemma run_gather:
  assumes "\<forall>g\<in>set gs. ro_id g \<in> gr_ID ` set (kc_groups s)"
  shows "length pending = n \<Longrightarrow> \<forall>t\<in>set pending. t \<le> length gs \<Longrightarrow>
    \<exists>picks'. run_kc (gather n gs pending got) picks s = (Inr (\<lambda>t. if t \<in> set pending then task_result s gs t else got t), picks', s)"
proof (induction n arbitrary: pending got picks)
  case (Suc n)
  have step: "\<exists>picks'. run_kc (let i = j mod length pending; t = pending ! i in
      try_p (list_task gs t) (\<lambda>ms. gather n gs (take i pending @ drop (Suc i) pending) (got(t := ms)))) picks1 s
    = (Inr (\<lambda>t. if t \<in> set pending then task_result s gs t else got t), picks', s)" for j picks1
  proof -
    define i where "i = j mod length pending"
    have i: "i < length pending" using Suc.prems by (simp add: i_def)
    let ?rest = "take i pending @ drop (Suc i) pending"
    have split: "set pending = insert (pending ! i) (set ?rest)"
      using id_take_nth_drop[OF i] by (metis Un_insert_right list.simps(15) set_append)
    have "pending ! i \<le> length gs" using Suc.prems i by simp
    moreover obtain picks' where "run_kc (gather n gs ?rest (got(pending ! i := task_result s gs (pending ! i)))) picks1 s
      = (Inr (\<lambda>t. if t \<in> set ?rest then task_result s gs t else (got(pending ! i := task_result s gs (pending ! i))) t), picks', s)"
      using Suc.IH[of ?rest] Suc.prems i split by fastforce
    ultimately show ?thesis using split
      by (auto simp: run_kc_try run_list_task[OF _ assms] Let_def simp flip: i_def intro!: exI[of _ picks'])
  qed
  show ?case using step[of 0 "[]"] step[of "hd picks" "tl picks"] Suc.prems by (cases picks) simp_all
qed auto

declare gather.simps(2) [simp del] upt_Suc [simp del]

definition groups_now :: "kc \<Rightarrow> roleGroup list" where
  "groups_now s = with_members (map (kc_user s) (kc_members s)) (reserved (kc_groups s)) (task_result s (reserved (kc_groups s)))"

lemma reserved_iff: "g \<in> set (reserved gs) \<longleftrightarrow>
  (\<exists>x\<in>set gs. \<exists>r. roleOfGroup (gr_Name x) = Some r \<and> g = \<lparr>ro_id = gr_ID x, ro_role = r, ro_members = []\<rparr>)"
  by (auto simp: reserved_def map_filter_def image_iff)

lemma with_members_cong: "(\<And>i. i < length gs \<Longrightarrow> f (Suc i) = h (Suc i)) \<Longrightarrow> with_members ms gs f = with_members ms gs h"
  by (auto simp: with_members_def in_set_enumerate_eq)

lemma run_read:
  "\<exists>picks'. run_kc read_roles picks s = (Inr (map (kc_user s) (kc_members s), groups_now s), picks', s)"
proof -
  let ?gs = "reserved (kc_groups s)"
  have "\<forall>g\<in>set ?gs. ro_id g \<in> gr_ID ` set (kc_groups s)" by (auto simp: reserved_iff)
  from run_gather[OF this, of "[0..<Suc (length ?gs)]" _ "\<lambda>_. []" picks]
  obtain picks' where "run_kc (gather (Suc (length ?gs)) ?gs [0..<Suc (length ?gs)] (\<lambda>_. [])) picks s
      = (Inr (\<lambda>t. if t \<in> set [0..<Suc (length ?gs)] then task_result s ?gs t else []), picks', s)" by auto
  moreover have "with_members ms ?gs (\<lambda>t. if t \<in> set [0..<Suc (length ?gs)] then task_result s ?gs t else [])
      = with_members ms ?gs (task_result s ?gs)" for ms
    by (rule with_members_cong) simp
  ultimately show ?thesis
    by (simp add: read_roles_def run_kc_try ask_kc_def kc_answer_def groups_of_def groups_now_def task_result_def Let_def del: upt_Suc)
qed

text \<open>A reserved group and the role it stands for.\<close>

definition stands_for :: "kc \<Rightarrow> string \<Rightarrow> Role \<Rightarrow> bool" where
  "stands_for s gid r \<longleftrightarrow> (\<exists>g\<in>set (kc_groups s). gr_ID g = gid \<and> roleOfGroup (gr_Name g) = Some r)"

lemma in_group_iff: "in_group s u r \<longleftrightarrow> (\<exists>gid. stands_for s gid r \<and> u \<in> set (kc_in s gid))"
  by (auto simp: in_group_def stands_for_def)

lemma stands_for_unique: "kc_ok s \<Longrightarrow> stands_for s gid r \<Longrightarrow> stands_for s gid r' \<Longrightarrow> r = r'"
  by (auto simp: stands_for_def kc_ok_def dest: eq_key_imp_eq_value) (metis distinct_map inj_onD option.inject)

lemma groups_now_iff: "(\<exists>g\<in>set (groups_now s). ro_id g = gid \<and> ro_role g = r) \<longleftrightarrow> stands_for s gid r"
proof -
  have "map (\<lambda>g. (ro_id g, ro_role g)) (groups_now s) = map (\<lambda>g. (ro_id g, ro_role g)) (reserved (kc_groups s))"
    by (rule nth_equalityI) (simp_all add: groups_now_def with_members_def nth_enumerate_eq)
  then have "(\<lambda>g. (ro_id g, ro_role g)) ` set (groups_now s) = (\<lambda>g. (ro_id g, ro_role g)) ` set (reserved (kc_groups s))"
    by (metis set_map)
  moreover have "(\<exists>g\<in>A. ro_id g = gid \<and> ro_role g = r) \<longleftrightarrow> (gid, r) \<in> (\<lambda>g. (ro_id g, ro_role g)) ` A" for A :: "roleGroup set"
    by (auto simp: image_iff)
  moreover have "(\<exists>g\<in>set (reserved (kc_groups s)). ro_id g = gid \<and> ro_role g = r) \<longleftrightarrow> stands_for s gid r"
    unfolding Bex_def reserved_iff stands_for_def by fastforce
  ultimately show ?thesis by simp
qed

lemma groups_now_role: "g \<in> set (groups_now s) \<Longrightarrow> ro_role g \<in> {Admin, Editor, Viewer}"
  using groups_now_iff[of s "ro_id g" "ro_role g"] roleOfGroup_valid by (auto simp: stands_for_def)

lemma in_role_now: "kc_ok s \<Longrightarrow> in_role (groups_now s) u r \<longleftrightarrow> u \<in> set (kc_members s) \<and> in_group s u r"
proof -
  assume "kc_ok s"
  then have user: "om_ID (kc_user s v) = v" for v by (simp add: kc_ok_def)
  have mem: "ro_members g = filter (\<lambda>m. om_ID m \<in> set (kc_members s)) (map (kc_user s) (kc_in s (ro_id g)))"
    if "g \<in> set (groups_now s)" for g
    using that user by (auto simp: groups_now_def with_members_def task_result_def in_set_enumerate_eq image_image)
  have "in_role (groups_now s) u r \<longleftrightarrow> (\<exists>g\<in>set (groups_now s). ro_role g = r \<and> u \<in> set (kc_members s) \<and> u \<in> set (kc_in s (ro_id g)))"
    unfolding in_role_def using mem user by (force simp: image_iff)
  also have "\<dots> \<longleftrightarrow> u \<in> set (kc_members s) \<and> (\<exists>gid. (\<exists>g\<in>set (groups_now s). ro_id g = gid \<and> ro_role g = r) \<and> u \<in> set (kc_in s gid))"
    by auto
  finally show ?thesis by (simp add: groups_now_iff in_group_iff)
qed

definition current_roles :: "kc \<Rightarrow> (string \<times> Role) list" where
  "current_roles s = rolesByUser (map (kc_user s) (kc_members s)) (groups_now s) (Unassigned (kc_viewer s))"

lemma map_of_current: "kc_ok s \<Longrightarrow> map_of (current_roles s) = role_of s"
proof
  fix u assume ok: "kc_ok s"
  have user: "u \<in> om_ID ` kc_user s ` set (kc_members s) \<longleftrightarrow> u \<in> set (kc_members s)" using ok by (simp add: kc_ok_def image_image)
  have roles: "in_role (groups_now s) u = (if u \<in> set (kc_members s) then in_group s u else (\<lambda>_. False))"
    using in_role_now[OF ok] by (auto simp: fun_eq_iff)
  have "\<forall>g\<in>set (groups_now s). ro_role g \<in> {Admin, Editor, Viewer}" using groups_now_role by blast
  note this[THEN map_of_rolesByUser, of "map (kc_user s) (kc_members s)" "Unassigned (kc_viewer s)" u]
  then show "map_of (current_roles s) u = role_of s u"
    by (cases "u \<in> set (kc_members s)") (simp_all add: current_roles_def role_of_def user roles top_role_def)
qed

lemma countRole_current: "kc_ok s \<Longrightarrow> countRole (current_roles s) r = card {u. role_of s u = Some r}"
  by (metis countRole_card current_roles_def distinct_rolesByUser map_of_current)

lemma finite_role_of: "finite {u. role_of s u = Some r}"
  by (rule finite_subset[of _ "set (kc_members s)"]) (auto simp: role_of_def split: if_splits)

lemma run_Members: "\<exists>picks'. run_kc Members picks s = (Inr (current_roles s), picks', s)"
  using run_read[of picks s] by (auto simp: Members_def roles_List_def run_kc_try current_roles_def flag_of_def)

lemma findRoleGroup_now: "findRoleGroup (groups_now s) r = Some gid \<Longrightarrow> stands_for s gid r"
  "findRoleGroup (groups_now s) r = None \<longleftrightarrow> (\<forall>gid. \<not> stands_for s gid r)"
proof -
  show "findRoleGroup (groups_now s) r = Some gid \<Longrightarrow> stands_for s gid r"
    unfolding groups_now_iff[symmetric] findRoleGroup_def by (auto simp: find_Some_iff)
  show "findRoleGroup (groups_now s) r = None \<longleftrightarrow> (\<forall>gid. \<not> stands_for s gid r)"
    using groups_now_iff[of s _ r] by (auto simp: findRoleGroup_def find_None_iff)
qed

text \<open>What a change leaves alone: the groups there were, the members, the users and the flag.\<close>

definition extends :: "kc \<Rightarrow> kc \<Rightarrow> bool" where
  "extends s s' \<longleftrightarrow> kc_ok s' \<and> kc_members s' = kc_members s \<and> kc_viewer s' = kc_viewer s \<and> (\<forall>gid r. stands_for s gid r \<longrightarrow> stands_for s' gid r) \<and>
     (\<forall>gid r u. stands_for s' gid r \<and> u \<in> set (kc_in s' gid) \<longleftrightarrow> stands_for s gid r \<and> u \<in> set (kc_in s gid))"

lemma stands_for_create:
  "stands_for (create gid name s) g r \<longleftrightarrow> stands_for s g r \<or> g = gid \<and> roleOfGroup name = Some r"
  by (auto simp: stands_for_def create_def new_group_def)

lemma create_extends: "kc_ok s \<Longrightarrow> extends s (create (fresh_id (kc_groups s)) name s)"
proof -
  assume ok: "kc_ok s"
  let ?gid = "fresh_id (kc_groups s)" and ?s = "create (fresh_id (kc_groups s)) name s"
  have fresh: "?gid \<notin> gr_ID ` set (kc_groups s)" using fresh_id_new by fastforce
  have "kc_ok ?s" using ok fresh by (simp add: kc_ok_def create_def new_group_def)
  moreover have "\<not> stands_for s ?gid r" for r using fresh by (auto simp: stands_for_def image_iff)
  moreover have "kc_in ?s = (kc_in s)(?gid := [])" by (simp add: create_def)
  ultimately show ?thesis by (auto simp: extends_def stands_for_create) (simp_all add: create_def)
qed

lemma run_groupFor:
  assumes "kc_ok s" "role_Valid r"
  shows "\<exists>gid s'. run_kc (groupFor (groups_now s) r) picks s = (Inr gid, picks, s') \<and> extends s s' \<and> stands_for s' gid r"
proof (cases "findRoleGroup (groups_now s) r")
  case None
  then have "groupName r \<notin> gr_Name ` set (kc_groups s)"
    using findRoleGroup_now(2)[of s r] roleOfGroup_groupName[OF assms(2)] by (force simp: stands_for_def)
  then show ?thesis using None create_extends[OF assms(1), of "groupName r"] roleOfGroup_groupName[OF assms(2)]
    by (auto simp: groupFor_def kc_answer_def group_of_def new_group_def stands_for_create)
next
  case (Some gid)
  then show ?thesis using findRoleGroup_now(1)[OF Some] assms by (auto simp: groupFor_def extends_def)
qed

definition left_groups :: "string set \<Rightarrow> string \<Rightarrow> kc \<Rightarrow> kc" where
  "left_groups ids u s = s\<lparr>kc_in := (\<lambda>g. if g \<in> ids then removeAll u (kc_in s g) else kc_in s g)\<rparr>"

lemma run_clear_others:
  "run_kc (clear_others role u gs) picks s = (Inr (), picks, left_groups (ro_id ` {g \<in> set gs. ro_role g \<noteq> role}) u s)"
proof (induction gs arbitrary: s)
  case (Cons g gs)
  have "left_groups ids u (quit x u s) = left_groups (insert x ids) u s" for ids x
    by (auto simp: left_groups_def quit_def fun_eq_iff)
  moreover have "{h \<in> set (g # gs). ro_role h \<noteq> role} = (if ro_role g = role then {h \<in> set gs. ro_role h \<noteq> role} else insert g {h \<in> set gs. ro_role h \<noteq> role})"
    by auto
  ultimately show ?case using Cons by (simp add: run_kc_try ask_kc_def kc_answer_def done_of_def)
qed (simp add: left_groups_def)

text \<open>After joining one group and leaving those of the other roles, the member has exactly the new role.\<close>

lemma in_group_changed:
  assumes ext: "extends s s1" and gid: "stands_for s1 gid role"
    and s': "s' = left_groups (ro_id ` {g \<in> set (groups_now s). ro_role g \<noteq> role}) u (enter gid u s1)"
  shows "in_group s' v r = (if v = u then r = role else in_group s v r)" "kc_ok s'"
    "kc_members s' = kc_members s" "kc_viewer s' = kc_viewer s"
proof -
  have ok1: "kc_ok s1" using ext by (simp add: extends_def)
  have same: "stands_for s' g r \<longleftrightarrow> stands_for s1 g r" for g r by (simp add: s' left_groups_def enter_def stands_for_def)
  define other where "other g \<longleftrightarrow> (\<exists>r. stands_for s g r \<and> r \<noteq> role)" for g
  have ids: "ro_id ` {g \<in> set (groups_now s). ro_role g \<noteq> role} = {g. other g}"
    unfolding other_def groups_now_iff[symmetric] by auto
  have mem: "v \<in> set (kc_in s' g) \<longleftrightarrow> (if v = u then (g = gid \<or> u \<in> set (kc_in s1 g)) \<and> \<not> other g else v \<in> set (kc_in s1 g))" for g
    unfolding s' ids by (simp add: left_groups_def enter_def)
  have in1: "stands_for s1 g r \<and> v \<in> set (kc_in s1 g) \<longleftrightarrow> stands_for s g r \<and> v \<in> set (kc_in s g)" for g r v
    using ext by (simp add: extends_def)
  show "in_group s' v r = (if v = u then r = role else in_group s v r)"
  proof (cases "v = u")
    case True
    have "\<not> other gid" using gid ext stands_for_unique[OF ok1] unfolding other_def extends_def by metis
    moreover have "r = role" if "stands_for s1 g r" "g = gid \<or> u \<in> set (kc_in s1 g)" "\<not> other g" for g
      using that in1[of g r u] gid stands_for_unique[OF ok1] unfolding other_def by blast
    ultimately show ?thesis using True gid unfolding in_group_iff same mem by auto
  next
    case False
    then show ?thesis using mem in1 unfolding in_group_iff same by auto
  qed
  show "kc_ok s'" "kc_members s' = kc_members s" "kc_viewer s' = kc_viewer s"
    using ext by (simp_all add: s' left_groups_def enter_def kc_ok_def extends_def)
qed

lemma role_of_changed:
  assumes "extends s s1" "stands_for s1 gid role" "role \<in> {Admin, Editor, Viewer}"
    "s' = left_groups (ro_id ` {g \<in> set (groups_now s). ro_role g \<noteq> role}) u (enter gid u s1)" "u \<in> set (kc_members s)"
  shows "role_of s' = (role_of s)(u \<mapsto> role)"
proof
  fix v
  note changed = in_group_changed[OF assms(1,2,4)]
  have "in_group s' v = (if v = u then (\<lambda>r. r = role) else in_group s v)" using changed(1) by auto
  moreover have "top_role (\<lambda>r. r = role) = Some role" using assms(3) by (auto simp: top_role_def)
  ultimately show "role_of s' v = ((role_of s)(u \<mapsto> role)) v"
    using assms(5) changed(3,4) by (cases "v = u") (simp_all add: role_of_def split: option.splits)
qed

lemma finite_two: "finite A \<Longrightarrow> \<not> card A \<le> 1 \<Longrightarrow> \<exists>v\<in>A. v \<noteq> u"
  by (metis One_nat_def card_le_Suc0_iff_eq)

lemma run_change_role:
  assumes ok: "kc_ok s" and role: "role_Valid role" and u: "u \<in> set (kc_members s)"
    and last: "role = Admin \<or> role_of s u \<noteq> Some Admin \<or> \<not> card {v. role_of s v = Some Admin} \<le> 1"
  shows "\<exists>picks' s'. run_kc (change_role (groups_now s) (current_roles s) u role) picks s = (Inr (), picks', s') \<and> role_of s' = (role_of s)(u \<mapsto> role) \<and> kc_ok s'"
proof -
  obtain gid s1 where grp: "run_kc (groupFor (groups_now s) role) picks s = (Inr gid, picks, s1)" "extends s s1" "stands_for s1 gid role"
    using run_groupFor[OF ok role] by blast
  define s' where "s' = left_groups (ro_id ` {g \<in> set (groups_now s). ro_role g \<noteq> role}) u (enter gid u s1)"
  have changed: "role_of s' = (role_of s)(u \<mapsto> role)" "kc_ok s'"
    using role_of_changed[OF grp(2,3) _ s'_def u] in_group_changed(2)[OF grp(2,3) s'_def] role by (simp_all add: role_Valid_iff)
  have "gid \<in> gr_ID ` set (kc_groups s1)" using grp(3) by (auto simp: stands_for_def)
  then have start: "run_kc (change_role (groups_now s) (current_roles s) u role) picks s =
      run_kc (if role = Admin \<or> role_of s u \<noteq> Some Admin then Ret (Inr ()) else keepAnAdmin (groups_now s) u gid) picks s'"
    by (simp add: change_role_def run_kc_try grp(1) ask_kc_def kc_answer_def done_of_def run_clear_others map_of_current[OF ok] s'_def)
  show ?thesis
  proof (cases "role = Admin \<or> role_of s u \<noteq> Some Admin")
    case True
    then show ?thesis using start changed by auto
  next
    case False
    then obtain v where "role_of s v = Some Admin" "v \<noteq> u" using last finite_two[OF finite_role_of] by blast
    then have "{v. role_of s' v = Some Admin} \<noteq> {}" using changed(1) by auto
    then have "countRole (current_roles s') Admin > 0" by (simp add: countRole_current[OF changed(2)] card_gt_0_iff finite_role_of)
    then show ?thesis using start changed False run_Members[of picks s'] by (auto simp: keepAnAdmin_def run_kc_try)
  qed
qed

text \<open>Who may be given which role, by whom.\<close>

definition set_outcome :: "kc \<Rightarrow> string \<Rightarrow> Role \<Rightarrow> Caller \<Rightarrow> role_err option" where
  "set_outcome s userID role caller =
     (if \<not> role_Valid role then Some (ErrUnknownRole role)
      else if \<not> ca_OrganizationKey caller \<and> role_of s (ca_UserID caller) \<noteq> Some Admin then Some ErrNotAdmin
      else if userID \<notin> set (kc_members s) then Some (ErrUserNotOrganizationMember userID)
      else if role = Viewer \<and> \<not> kc_viewer s then Some (ErrRoleNotGrantable role)
      else if role \<noteq> Admin \<and> {v. role_of s v = Some Admin} = {userID} then Some ErrLastAdmin
      else None)"


definition demo_kc :: kc where
  "demo_kc = \<lparr>kc_groups = [new_group ''g1'' ''Admin'', new_group ''g2'' ''EDITOR''], kc_in = (\<lambda>g. if g = ''g1'' then [''u1''] else []),
     kc_members = [''u1'', ''u2''], kc_user = (\<lambda>u. \<lparr>om_ID = u, om_Email = u, om_Name = u\<rparr>), kc_viewer = True\<rparr>"

lemma demo_roles: "kc_ok demo_kc" "role_of demo_kc ''u1'' = Some Admin"
  by (simp add: kc_ok_def demo_kc_def new_group_def) code_simp


text \<open>The question whether a user is an Admin, which asks for the groups of that user only, agrees with the list of roles.\<close>

lemma IsAdmin_agrees:
  assumes "\<forall>g\<in>set (kc_groups s). count_list (gr_Path g) CHR ''/'' \<le> 1" "'''' \<notin> set (kc_members s)"
  shows "run_kc (IsAdmin u) picks s = (Inr (role_of s u = Some Admin), picks, s)"
proof -
  have "role_of s u = Some Admin \<longleftrightarrow> u \<in> set (kc_members s) \<and> in_group s u Admin"
    by (auto simp: role_of_def top_role_def Unassigned_def Offered_def Grantable_def All_def split: if_splits)
  then show ?thesis using assms by (auto simp: IsAdmin_def kc_answer_def groups_of_def in_group_def)
qed

end
