(* ===== verification/Spec2Isabelle.thy ===== *)
theory Spec2Isabelle
  imports Org_Sync Cell_Scheduler Coalescer Scale_To_Zero Api_Key Postgres_Defaults Ip_Filter Image_Policy Wake_System Roles
begin

text \<open>
  \<^bold>\<open>Xata: the control plane of a Postgres platform.\<close>

  The repository is a set of Go services.  The \<^emph>\<open>projects\<close> service (\<open>services/projects\<close>) owns the data of
  the platform: organizations have projects, projects have trees of branches, a branch is a Postgres cluster in a cell
  of a region.  It keeps this in a SQL store (\<open>store/store.go\<close>, \<open>store/sqlstore/store_sql.go\<close>), chooses the cell
  of a new branch (\<open>scheduler\<close>), and brings the clusters in line with the status of their organization
  (\<open>orgstatus/worker.go\<close>, \<open>orgstatus/sync.go\<close>).  The \<^emph>\<open>clusters\<close> service and the \<^emph>\<open>branch operator\<close> run
  in every cell and turn branches into Kubernetes objects.  Beside every Postgres runs the \<^emph>\<open>scale-to-zero sidecar\<close>,
  which hibernates an idle cluster.  The \<^emph>\<open>gateway\<close> proxies connections and wakes clusters up; \<^emph>\<open>auth\<close> keeps
  users, roles and API keys.  \<open>internal\<close> holds what the services share: API keys, the coalescing of concurrent
  requests, the Postgres settings.

  \<^bold>\<open>Theories, in the order of the code\<close>

  \<^item> \<open>Xata_Prelude\<close>: tables as lists of rows with the statement forms of SQL, and the collections of rules.
  \<^item> \<open>Go_Num\<close>: truncated division, \<open>float64\<close> with rounding to nearest even (locale \<open>rounding\<close>, interpreted on the
    executable \<open>fl64\<close>), durations, \<open>strconv\<close>.
    \<open>Go_Float\<close>: \<open>strconv.ParseFloat\<close>, \<open>time.ParseDuration\<close>, special values and the conversion to \<open>int64\<close>.
  \<^item> \<open>Store_Types\<close>: the structs, errors, tiers, limits and enumerations of \<open>store.go\<close> and \<open>errors.go\<close>.
  \<^item> \<open>Sql_Layer\<close>: commands over a database session with transactions, callbacks and a schedule of faults; the
    judgements \<open>tx_triple\<close>, \<open>op_keeps\<close>, \<open>quiet\<close>, \<open>atomic\<close>; the locale \<open>tx_body\<close> between the body of a
    transaction and the method that runs it.
  \<^item> \<open>Store_Schema\<close>: the tables after the migrations, the write statements with constraints and \<open>ON DELETE\<close>
    actions, and the invariant \<open>store_inv\<close>.
  \<^item> \<open>Store_Regions\<close>, \<open>Store_Limits\<close>, \<open>Store_Projects\<close>, \<open>Store_Branches\<close>, \<open>Store_Github\<close>,
    \<open>Store_OrgStatus\<close>: one definition per method of \<open>store_sql.go\<close>, with the name of the method, and that each keeps
    the invariant and is atomic.
  \<^item> \<open>Org_Worker\<close>: the worker, first as sequential code, then as a system of concurrent workers, writers, deletions and a
    clock; locale \<open>status_queue\<close> is what the workers rely on.  \<open>ws_torn\<close> collects the organizations whose row was deleted
    while a sync of it was in flight.  \<open>Org_Sync\<close>: the walk over an organization's branches.
  \<^item> \<open>Store_System\<close>: the \<open>ProjectsStore\<close> interface as a datatype of operations, and the reachable databases.
  \<^item> \<open>Projects_Correct\<close>, \<open>Branches_Correct\<close>, \<open>Org_Correct\<close> and this theory: the properties.
  \<^item> \<open>Cell_Scheduler\<close>: strategies and the weighted draw on 64-bit words; locale \<open>scheduling\<close>.
  \<^item> \<open>Coalescer\<close>: \<open>internal/coalesce\<close> as an interleaving of its locked sections and channel operations.
  \<^item> \<open>Scale_To_Zero\<close>: a tick of the sidecar and the hibernation on every path.
  \<^item> \<open>Api_Key\<close>: generation, validation with CRC-32, obfuscation and matching of API keys.
  \<^item> \<open>Postgres_Config\<close>: \<open>internal/postgrescfg\<close>, with locale \<open>bounded_values\<close> for what integers, floats, sizes and
    durations share; \<open>Postgres_Defaults\<close>: the data of \<open>parameters.yaml\<close> and \<open>overrides.go\<close>.
  \<^item> \<open>Ip_Config\<close>: the ConfigMap with the allow-lists (clusters service); locale \<open>optimistic_api\<close> is the contract of the
    Kubernetes API.  \<open>Ip_Filter\<close>: the gateway that enforces them, with the address functions of \<open>net/netip\<close>.

  \<^item> \<open>Pg_Images\<close>: \<open>internal/postgresversions\<close> with the data of \<open>versions.yaml\<close>.  \<open>Image_Policy\<close>: which images an
    organization sees (\<open>ListImages\<close>), may create a branch with and may upgrade to (\<open>branch/image.go\<close>).
  \<^item> \<open>Api_Prog\<close>: programs of calls to an outside that may answer anything, and the rules to reason about all their runs.
    \<open>Wakeup\<close>: the reconciler of wake-up requests of the branch operator (\<open>pkg/wakeup\<close>) as such programs.
    \<open>Wake_System\<close>: many reconciliations interleaved over the shared clusters and branches.
  \<^item> \<open>Roles\<close>: the roles of the members of an organization (\<open>services/auth/roles\<close>) as programs of calls to Keycloak.

  \<^bold>\<open>State and effects.\<close>  A struct is a record with the field names of the code, a nil pointer is \<open>None\<close>, an error
  is a value of \<open>goerr\<close> in the left of a sum.  A method of the store is a command: a function from a session to an error
  or a result and the session after it.  A session holds the committed database, the working copy of the open
  transaction, a clock, locks, the world that callbacks change, and the faults that are still to come: any statement may
  fail before it took effect, lose its reply after it did, or break off in the middle of its rows.  Statements about
  safety hold for every schedule of faults; statements that name a result are for \<open>calm\<close> sessions, without faults.
  Times are microseconds (database) or nanoseconds (process), durations nanoseconds.  Clients of Kubernetes, gRPC and
  the clock are records of functions on the world and may answer anything; in \<open>Wakeup\<close> they are the calls of a program,
  and a statement is about the trace of calls and answers of every run.

  \<^bold>\<open>What the theorems show.\<close>  Every database the store can reach keeps the uniqueness, tree, tenancy and link
  invariants, and a failing method changes nothing unless a reply was lost.  Branches are created only after all checks
  and after the callback succeeded; limits hold; deletes and cleanups remove what they should and nothing else.
  A worker's pass makes a bounded number of claims in any stretch of time and then ends; one organization is synced by one
  worker at a time as long as a lease outlasts a sync and its bookkeeping, and a status is recorded as synced only when it
  was applied, both unless the row is deleted during a sync; a successful sync reached every active branch unless a stream of
  rows broke off.  An organization reaches its own branches only.
  The scheduler draws in proportion to the weights.  A coalesced call is not cancelled while somebody waits, and its
  waiters get its result.  The sidecar hibernates only after the configured inactivity.  New API keys that fit the
  maximal length are valid.  A change of role does what it says and keeps an Admin.
  The default settings of every instance type are valid, the bounds of every parameter are well typed, values adjusted to
  bounds are valid, and the merge of overrides is the pointwise one.
  Changes of allow-lists refine an atomic map under concurrent writers, and the gateway enforces what was stored.
  The images that are listed are those that are accepted, and an image and its registry path name the same version.
  A wake-up never loses the cluster it claimed, writes only with cause, and no cluster of a pool ends up with two branches.
  Some theorems and lemmas state defects: a list of branches cut short without an error, and a sync that trusts it; a lease that
  is no longer than a sync; a deletion during a sync; weights that overflow; a second delete that restarts the retention; durations without a unit
  and floats that are not numbers, which pass every bound; a clean-up that deletes a cluster after it was assigned; versions
  compared as texts.

  \<^bold>\<open>Bounds and fuel.\<close>  \<open>ProcessOnce\<close> takes fuel, one unit per claim; \<open>ProcessOnce_terminates\<close> shows how much is
  enough until a given time: each failed sync puts its row off by a second at least, so \<open>claims_left\<close> counts the claims that
  are possible until then.  The sidecar's period is bounded by \<open>2^16\<close> minutes where the comparison of floats is shown exact.
  The wait for a password in \<open>Wakeup\<close> ends at its time-out or when its context is cancelled; \<open>rc_Polls\<close> counts the
  polls until then and is arbitrary.
  Durations are read with one unit of fuel per character, which \<open>duration_terms_fuel\<close> shows to be no restriction.

  \<^bold>\<open>Not modelled.\<close>  Session-level advisory locks, migrations as programs, tracing, metrics and logging; the HTTP and
  gRPC handlers beyond the list of images, the branch service beyond its rules on images, the clusters service beyond IP
  filtering, the branch reconciler, the gateway beyond its IP filter, and the auth service beyond its roles, which mostly call Kubernetes,
  Keycloak, sockets and gRPC; the catalogue of extensions.
\<close>

section \<open>Every method of the store\<close>

text \<open>C1. In every database that the store's methods can reach from an empty one, one after the other, with
  requests and replies lost and result streams broken anywhere: active projects of an organization have
  distinct names; an active branch belongs to an active project; a branch is in its parent's project, one
  level below it and within the configured depth; a branch runs in a region its organization may use; and
  the root branch of a linked repository belongs to the linked project.\<close>

theorem reachable_store:
  assumes "store_reach coll md W d"
  shows "unique_on org_name pr_active (t_projects d)
    \<and> (\<forall>b\<in>set (t_branches d). br_active b \<longrightarrow> (\<exists>p\<in>set (t_projects d). pr_id p = br_project b \<and> pr_active p))
    \<and> (\<forall>b\<in>set (t_branches d). br_depth b \<le> max 1 md \<and> (\<forall>q. br_parent b = Some q \<longrightarrow>
        (\<exists>a\<in>set (t_branches d). br_id a = q \<and> br_project a = br_project b \<and> br_depth b = br_depth a + 1)))
    \<and> (\<forall>b\<in>set (t_branches d). \<exists>p\<in>set (t_projects d). \<exists>c\<in>set (t_cells d). \<exists>r\<in>set (t_regions d).
        pr_id p = br_project b \<and> cl_ID c = br_cell b \<and> rg_ID r = cl_RegionID c \<and> usable r (pr_org p))
    \<and> (\<forall>m\<in>set (t_github_repositories d). \<exists>b\<in>set (t_branches d). br_id b = gm_RootBranchID m \<and> br_project b = gm_Project m)"
proof -
  note inv = store_invE[OF store_reach_inv[OF assms]]
  have names: "unique_on org_name pr_active (t_projects d)" using inv(2) by (simp add: indexes_ok_def)
  have live: "\<exists>p\<in>set (t_projects d). pr_id p = br_project b \<and> pr_active p"
    if "b \<in> set (t_branches d)" "br_active b" for b
    using inv(3,5) that unfolding refs_ok_def live_ok_def by blast
  have tree: "br_depth b \<le> max 1 md \<and> (\<forall>q. br_parent b = Some q \<longrightarrow>
        (\<exists>a\<in>set (t_branches d). br_id a = q \<and> br_project a = br_project b \<and> br_depth b = br_depth a + 1))"
    if "b \<in> set (t_branches d)" for b
    using inv(4) that unfolding tree_ok_def by blast
  have ten: "\<exists>p\<in>set (t_projects d). \<exists>c\<in>set (t_cells d). \<exists>r\<in>set (t_regions d).
        pr_id p = br_project b \<and> cl_ID c = br_cell b \<and> rg_ID r = cl_RegionID c \<and> usable r (pr_org p)"
    if b: "b \<in> set (t_branches d)" for b
  proof -
    obtain p c where p: "p \<in> set (t_projects d)" "pr_id p = br_project b" and c: "c \<in> set (t_cells d)" "cl_ID c = br_cell b"
      using inv(3) b unfolding refs_ok_def by blast
    moreover obtain r where "r \<in> set (t_regions d)" "rg_ID r = cl_RegionID c" using inv(3) c unfolding refs_ok_def by blast
    ultimately show ?thesis using inv(6) b unfolding tenancy_ok_def by blast
  qed
  show ?thesis using names live tree ten inv(7) unfolding links_ok_def by blast
qed

text \<open>Methods run one after the other in one session, whatever each of them returns.\<close>

fun run_all :: "(string \<Rightarrow> 'k::linorder) \<Rightarrow> int \<Rightarrow> 'w store_op list \<Rightarrow> (db, 'w) sess \<Rightarrow> (db, 'w) sess" where
  "run_all coll md [] s = s"
| "run_all coll md (m # ms) s = run_all coll md ms (snd (run_op coll md m s))"

lemma run_all_reach:
  fixes ops :: "'w store_op list"
  assumes "txn s = None" "store_reach coll md TYPE('w) (committed s)"
  shows "store_reach coll md TYPE('w) (committed (run_all coll md ops s))"
  using assms
proof (induction ops arbitrary: s)
  case (Cons m ms)
  obtain r s' where run: "run_op coll md m s = (r, s')" by fastforce
  have "store_reach coll md TYPE('w) (committed s')" using Cons.prems run store_reach.step by blast
  moreover have "txn s' = None"
    using op_keepsD[OF run_op_keeps Cons.prems(1) store_reach_inv[OF Cons.prems(2)] run] by simp
  ultimately show ?case using Cons.IH run by simp
qed simp

definition demo_ops :: "nat store_op list" where
  "demo_ops = [OpCreateRegion ''eu'' \<lparr>flag_PublicAccess = True, flag_BackupsEnabled = True, flag_Provider = ''aws''\<rparr> ''h'',
     OpCreateCell ''eu'' ''cell'' ''u'' None, OpCreateProject ''prj_1'' ''org'' (demo_config ''one''),
     OpCreateBranch ''br_1'' ''org'' ''prj_1'' ''cell'' (demo_branch_config ''main'' None) provision_ok]"

definition demo_store :: db where
  "demo_store = committed (run_all length 3 demo_ops (sess_of empty_db (0 :: nat)))"

theorem reachable_store_witness:
  "\<exists>b\<in>set (t_branches demo_store). \<exists>p\<in>set (t_projects demo_store). pr_id p = br_project b \<and> pr_active p"
proof -
  have "store_reach length 3 TYPE(nat) demo_store"
    unfolding demo_store_def by (rule run_all_reach) (simp_all add: sess_of_def store_reach.start)
  note * = reachable_store[OF this]
  have "list_ex br_active (t_branches demo_store)" by code_simp
  then obtain b where "b \<in> set (t_branches demo_store)" "br_active b" by (auto simp: list_ex_iff)
  then show ?thesis using * by blast
qed

text \<open>C2. Every method of the store keeps the schema's constraints and the invariants of the code, on every
  path and under every schedule of faults, and leaves no transaction open.\<close>

theorem methods_keep_invariant:
  assumes "txn s = None" "store_inv md (committed s)" "run_op coll md op s = (r, s')"
  shows "store_inv md (committed s') \<and> txn s' = None"
  using op_keepsD[OF run_op_keeps assms] by simp

theorem methods_keep_invariant_witness:
  "store_inv 3 (committed (snd (run_op length 3 (OpDeleteBranch ''org'' ''prj_1'' ''br_1'' (\<lambda>b w. (Inr (), w)))
     (sess_of demo_store (0 :: nat)))))"
proof -
  let ?m = "run_op length 3 (OpDeleteBranch ''org'' ''prj_1'' ''br_1'' (\<lambda>b w. (Inr (), w))) (sess_of demo_store (0 :: nat))"
  have "store_reach length 3 TYPE(nat) demo_store"
    unfolding demo_store_def by (rule run_all_reach) (simp_all add: sess_of_def store_reach.start)
  then have "store_inv 3 demo_store" by (rule store_reach_inv)
  then have inv: "txn (sess_of demo_store (0 :: nat)) = None" "store_inv 3 (committed (sess_of demo_store (0 :: nat)))"
    by (simp_all add: sess_of_def)
  have run: "?m = (fst ?m, snd ?m)" by (rule prod.collapse[symmetric])
  from methods_keep_invariant[OF inv run] show ?thesis by (rule conjunct1)
qed

text \<open>C3. A method that returns an error has changed nothing in the database, unless the reply to a statement
  was lost, in which case the caller cannot know.\<close>

theorem methods_atomic:
  assumes "txn s = None" "no_reply_lost s" "run_op coll md op s = (Inl e, s')"
  shows "committed s' = committed s"
  using run_op_atomic[of coll md op] assms unfolding atomic_def by blast

theorem methods_atomic_witness:
  "committed (snd (run_op length 3 (OpDeleteProject ''org'' ''prj_1'') (sess_of demo_store (0 :: nat)))) = demo_store"
proof -
  let ?m = "run_op length 3 (OpDeleteProject ''org'' ''prj_1'') (sess_of demo_store (0 :: nat))"
  have "isl (fst ?m)" by code_simp
  then obtain e where "?m = (Inl e, snd ?m)" by (metis isl_def prod.collapse)
  from methods_atomic[OF _ _ this] show ?thesis by (simp add: sess_of_def no_reply_lost_def)
qed

end
